(* ===== verification/Fredb_Prelude.thy ===== *)
theory Fredb_Prelude
  imports Complex_Main "HOL-Library.Word" "HOL-Library.Finite_Map"
begin

text \<open>
  Generic material shared by every component of the development: the fact collections the
  components declare into, Go's fixed-width signed integers written with an explicit
  wrap-around, byte strings, and small facts on finite maps.

  A Go \<open>string\<close> is a sequence of bytes, and so is HOL's \<open>string\<close> (a list of 8-bit
  \<open>char\<close>s): \<open>length s\<close> is Go's \<open>len(s)\<close>.
\<close>

named_theorems frame_simps \<open>fields an operation leaves alone\<close>
named_theorems go_defs \<open>unfolding of the standard-library models on concrete inputs\<close>

type_synonym byte = "8 word"

section \<open>Signed 64-bit integers\<close>

text \<open>Two's complement wrap-around of Go's \<open>int64\<close> (and \<open>int\<close> on 64-bit targets).\<close>

definition wrap64 :: "int \<Rightarrow> int" where
  "wrap64 x = (x + 2 ^ 63) mod 2 ^ 64 - 2 ^ 63"

lemma wrap64_id: "- (2 ^ 63) \<le> x \<Longrightarrow> x < 2 ^ 63 \<Longrightarrow> wrap64 x = x"
  by (simp add: wrap64_def)

lemma wrap64_bounds: "- (2 ^ 63) \<le> wrap64 x" "wrap64 x < 2 ^ 63"
proof -
  have "0 \<le> (x + 2 ^ 63) mod 2 ^ 64" "(x + 2 ^ 63) mod 2 ^ 64 < 2 ^ 64"
    by simp_all
  then show "- (2 ^ 63) \<le> wrap64 x" "wrap64 x < 2 ^ 63"
    by (simp_all add: wrap64_def)
qed

section \<open>Truncating division\<close>

text \<open>Go's \<open>/\<close> and \<open>%\<close> on signed integers round towards zero.\<close>

definition go_div :: "int \<Rightarrow> int \<Rightarrow> int" where
  "go_div a b = sgn a * sgn b * (\<bar>a\<bar> div \<bar>b\<bar>)"

definition go_mod :: "int \<Rightarrow> int \<Rightarrow> int" where
  "go_mod a b = a - go_div a b * b"

lemma go_div_nonneg [simp]: "0 \<le> a \<Longrightarrow> 0 < b \<Longrightarrow> go_div a b = a div b"
  by (cases "a = 0") (simp_all add: go_div_def)

lemma go_mod_nonneg [simp]: "0 \<le> a \<Longrightarrow> 0 < b \<Longrightarrow> go_mod a b = a mod b"
  by (simp add: go_mod_def minus_div_mult_eq_mod)

section \<open>Finite maps\<close>

lemma fmlookup_upd_same [simp]: "fmlookup (fmupd k v m) k = Some v"
  by simp

lemma fmlookup_upd_other: "k \<noteq> k' \<Longrightarrow> fmlookup (fmupd k v m) k' = fmlookup m k'"
  by simp

lemma fcard_fmdom_fmupd_new:
  "fmlookup m k = None \<Longrightarrow> fcard (fmdom (fmupd k v m)) = Suc (fcard (fmdom m))"
  by (simp add: fcard_finsert_disjoint fmdom_notI)

lemma fcard_fmdom_fmupd_old:
  assumes "fmlookup m k = Some v'"
  shows "fcard (fmdom (fmupd k v m)) = fcard (fmdom m)"
proof -
  from assms have "finsert k (fmdom m) = fmdom m"
    by (simp add: finsert_absorb fmdomI)
  then show ?thesis by simp
qed

end
