(* ===== verification/Go_Float64.thy ===== *)
theory Go_Float64
  imports Fredb_Prelude "HOL-Library.Log_Nat"
begin

text \<open>
  IEEE 754 binary64 (Go's \<open>float64\<close>) on exact rationals: a finite value is the rational it
  denotes, and every operation computes the exact result and rounds it once, to nearest with
  ties to even, with subnormals below \<open>2^-1022\<close> and overflow to an infinity from
  \<open>2^1024\<close>. NaN and the infinities are values. The two zeros are identified: the server
  never divides by a zero and never prints a negative zero. Results are those of an
  architecture that does not fuse a multiplication with an addition (amd64).
\<close>

section \<open>Rounding a rational to an integer, ties to even\<close>

definition round_half_even :: "rat \<Rightarrow> int" where
  "round_half_even x =
     (let f = \<lfloor>x\<rfloor>; r = x - of_int f in
      if r < 1 / 2 then f else if r > 1 / 2 then f + 1 else if even f then f else f + 1)"

lemma round_half_even_of_int [simp]: "round_half_even (of_int n) = n"
  by (simp add: round_half_even_def)

lemma round_half_even_bounds: "\<lfloor>x\<rfloor> \<le> round_half_even x" "round_half_even x \<le> \<lfloor>x\<rfloor> + 1"
  by (simp_all add: round_half_even_def Let_def)

lemma round_half_even_mono:
  assumes "x \<le> y"
  shows "round_half_even x \<le> round_half_even y"
proof (cases "\<lfloor>x\<rfloor> = \<lfloor>y\<rfloor>")
  case True
  with assms show ?thesis by (simp add: round_half_even_def Let_def)
next
  case False
  from floor_mono [OF assms] False have "\<lfloor>x\<rfloor> + 1 \<le> \<lfloor>y\<rfloor>" by linarith
  with round_half_even_bounds [of x] round_half_even_bounds [of y] show ?thesis by linarith
qed

lemma round_half_even_le_int: "x \<le> of_int n \<Longrightarrow> round_half_even x \<le> n"
  using round_half_even_mono [of x "of_int n"] by simp

lemma round_half_even_ge_int: "of_int n \<le> x \<Longrightarrow> n \<le> round_half_even x"
  using round_half_even_mono [of "of_int n" x] by simp

lemma round_half_even_error: "\<bar>of_int (round_half_even x) - x\<bar> \<le> 1 / 2"
proof -
  have f: "of_int \<lfloor>x\<rfloor> \<le> x" "x < of_int \<lfloor>x\<rfloor> + 1"
    by linarith+
  have "round_half_even x = \<lfloor>x\<rfloor> \<and> x - of_int \<lfloor>x\<rfloor> \<le> 1 / 2 \<or>
      round_half_even x = \<lfloor>x\<rfloor> + 1 \<and> 1 / 2 \<le> x - of_int \<lfloor>x\<rfloor>"
    by (simp add: round_half_even_def Let_def)
  with f show ?thesis
    unfolding abs_le_iff by (elim disjE conjE) (simp_all only: of_int_add of_int_1, linarith+)
qed

section \<open>The binary exponent of a positive rational\<close>

definition ilog2 :: "rat \<Rightarrow> int" where
  "ilog2 x =
     (if 1 \<le> x then int (floorlog 2 (nat \<lfloor>x\<rfloor>)) - 1
      else - int (floorlog 2 (nat (\<lceil>1 / x\<rceil> - 1))))"

definition pow2 :: "int \<Rightarrow> rat" where
  "pow2 k = (if 0 \<le> k then 2 ^ nat k else 1 / 2 ^ nat (- k))"

lemma pow2_powi: "pow2 k = 2 powi k"
  by (simp add: pow2_def power_int_def inverse_eq_divide power_one_over)

lemma pow2_pos [simp]: "0 < pow2 k"
  by (simp add: pow2_def)

lemma pow2_nonzero [simp]: "pow2 k \<noteq> 0"
  using pow2_pos [of k] by linarith

lemma pow2_add: "pow2 (a + b) = pow2 a * pow2 b"
  by (simp add: pow2_powi power_int_add)

lemma pow2_mono: "a \<le> b \<Longrightarrow> pow2 a \<le> pow2 b"
  by (simp add: pow2_powi power_int_increasing)

lemma pow2_less_imp: "pow2 a < pow2 b \<Longrightarrow> a < b"
  using pow2_mono [of b a] by linarith

lemma pow2_nat: "pow2 (int n) = 2 ^ n"
  by (simp add: pow2_def)

lemma pow2_minus: "pow2 (- k) = 1 / pow2 k"
  by (simp add: pow2_powi power_int_minus divide_inverse)

lemma two_pow_le_of_nat: "2 ^ m \<le> n \<Longrightarrow> (2 :: rat) ^ m \<le> of_nat n"
  by (metis of_nat_le_iff of_nat_numeral of_nat_power)

lemma of_nat_le_two_pow: "n \<le> 2 ^ m \<Longrightarrow> of_nat n \<le> (2 :: rat) ^ m"
  by (metis of_nat_le_iff of_nat_numeral of_nat_power)

lemma ilog2_bounds_ge1:
  assumes "1 \<le> x"
  shows "pow2 (ilog2 x) \<le> x" "x < pow2 (ilog2 x + 1)"
proof -
  let ?n = "nat \<lfloor>x\<rfloor>"
  have n: "0 < ?n" using assms by linarith
  then have l: "0 < floorlog 2 ?n" by (simp add: floorlog_def)
  have b: "2 ^ (floorlog 2 ?n - 1) \<le> ?n" "?n < 2 ^ floorlog 2 ?n"
    using floorlog_bounds [of ?n 2] n by auto
  have nx: "of_nat ?n \<le> x" "x < of_nat ?n + 1"
    using assms by linarith+
  have e: "ilog2 x = int (floorlog 2 ?n - 1)" "ilog2 x + 1 = int (floorlog 2 ?n)"
    using assms l by (simp_all add: ilog2_def of_nat_diff)
  show "pow2 (ilog2 x) \<le> x"
    unfolding e(1) pow2_nat using two_pow_le_of_nat [OF b(1)] nx(1) by linarith
  show "x < pow2 (ilog2 x + 1)"
    unfolding e(2) pow2_nat using of_nat_le_two_pow [OF Suc_leI [OF b(2)]] nx(2)
    unfolding of_nat_Suc by linarith
qed

lemma ilog2_bounds_lt1:
  assumes "0 < x" "x < 1"
  shows "pow2 (ilog2 x) \<le> x" "x < pow2 (ilog2 x + 1)"
proof -
  let ?c = "\<lceil>1 / x\<rceil>" and ?n = "nat (\<lceil>1 / x\<rceil> - 1)"
  let ?l = "floorlog 2 ?n"
  have "1 < 1 / x" using assms by simp
  then have c: "1 < ?c" by linarith
  then have n: "0 < ?n" by simp
  then have l: "0 < ?l" by (simp add: floorlog_def)
  have b: "2 ^ (?l - 1) \<le> ?n" "?n < 2 ^ ?l"
    using floorlog_bounds [of ?n 2] n by auto
  have nx: "of_nat ?n < 1 / x" "1 / x \<le> of_nat ?n + 1"
    using c by linarith+
  have e: "ilog2 x = - int ?l" "ilog2 x + 1 = - int (?l - 1)"
    using assms l by (simp_all add: ilog2_def of_nat_diff)
  have "1 / x \<le> 2 ^ ?l"
    using of_nat_le_two_pow [OF Suc_leI [OF b(2)]] nx(2) unfolding of_nat_Suc by linarith
  then have "1 \<le> x * 2 ^ ?l" using assms by (simp add: field_simps)
  then show "pow2 (ilog2 x) \<le> x"
    unfolding e(1) pow2_minus pow2_nat by (simp add: divide_le_eq)
  have "2 ^ (?l - 1) < 1 / x"
    using two_pow_le_of_nat [OF b(1)] nx(1) by linarith
  then have "x * 2 ^ (?l - 1) < 1" using assms by (simp add: field_simps)
  then show "x < pow2 (ilog2 x + 1)"
    unfolding e(2) pow2_minus pow2_nat by (simp add: less_divide_eq)
qed

lemma ilog2_bounds:
  assumes "0 < x"
  shows "pow2 (ilog2 x) \<le> x" "x < pow2 (ilog2 x + 1)"
  using ilog2_bounds_ge1 [of x] ilog2_bounds_lt1 [of x] assms by (cases "1 \<le> x"; simp)+

lemma ilog2_mono:
  assumes "0 < x" "x \<le> y"
  shows "ilog2 x \<le> ilog2 y"
proof -
  from assms have "pow2 (ilog2 x) < pow2 (ilog2 y + 1)"
    using ilog2_bounds [of x] ilog2_bounds [of y] by linarith
  then show ?thesis by (auto dest: pow2_less_imp)
qed

section \<open>Rounding a rational to 53 significant bits\<close>

text \<open>
  The spacing of the representable numbers around \<open>x\<close> is \<open>pow2 (grid_exp x)\<close>; it never
  goes below \<open>2^-1074\<close>, which is how subnormals lose precision.
\<close>

definition grid_exp :: "rat \<Rightarrow> int" where
  "grid_exp x = (if x = 0 then - 1074 else max (- 1074) (ilog2 \<bar>x\<bar> - 52))"

definition round53 :: "rat \<Rightarrow> rat" where
  "round53 x = of_int (round_half_even (x / pow2 (grid_exp x))) * pow2 (grid_exp x)"

lemma round53_0 [simp]: "round53 0 = 0"
  using round_half_even_of_int [of 0] by (simp add: round53_def)

lemma round_half_even_uminus: "round_half_even (- x) = - round_half_even x"
proof (cases "x = of_int \<lfloor>x\<rfloor>")
  case True
  then show ?thesis by (metis of_int_minus round_half_even_of_int)
next
  case False
  then have "of_int \<lfloor>x\<rfloor> < x" by (metis of_int_floor_le order_le_less)
  then have f: "\<lfloor>- x\<rfloor> = - \<lfloor>x\<rfloor> - 1" by linarith
  show ?thesis unfolding round_half_even_def Let_def f by auto
qed

lemma grid_exp_uminus [simp]: "grid_exp (- x) = grid_exp x"
  by (simp add: grid_exp_def)

lemma round53_uminus: "round53 (- x) = - round53 x"
  by (simp add: round53_def round_half_even_uminus)

lemma below_grid:
  assumes "x \<noteq> 0"
  shows "\<bar>x\<bar> < pow2 (grid_exp x + 53)"
proof -
  from assms have "\<bar>x\<bar> < pow2 (ilog2 \<bar>x\<bar> + 1)" by (intro ilog2_bounds) simp
  also have "\<dots> \<le> pow2 (grid_exp x + 53)"
    using assms by (intro pow2_mono) (simp add: grid_exp_def)
  finally show ?thesis .
qed

lemma above_grid:
  assumes "- 1074 < grid_exp x"
  shows "pow2 (grid_exp x + 52) \<le> \<bar>x\<bar>"
proof -
  from assms have "x \<noteq> 0" "grid_exp x + 52 = ilog2 \<bar>x\<bar>"
    by (auto simp: grid_exp_def split: if_splits)
  then show ?thesis using ilog2_bounds(1) [of "\<bar>x\<bar>"] by simp
qed

text \<open>Integer multiples of the spacing are where the rounding may land.\<close>

lemma pow2_grid_split: "a \<le> b \<Longrightarrow> pow2 b = of_int (2 ^ nat (b - a)) * pow2 a"
  using pow2_add [of "b - a" a] by (simp add: pow2_def)

lemma round53_le_pow2:
  assumes "x \<le> pow2 b" "grid_exp x \<le> b"
  shows "round53 x \<le> pow2 b"
proof -
  have "x / pow2 (grid_exp x) \<le> of_int (2 ^ nat (b - grid_exp x))"
    using assms by (simp add: pow2_grid_split [OF assms(2)] divide_le_eq)
  from round_half_even_le_int [OF this] show ?thesis
    unfolding round53_def pow2_grid_split [OF assms(2)]
    by (intro mult_right_mono) (use of_int_le_iff in blast, simp add: less_imp_le)
qed

lemma round53_ge_pow2:
  assumes "pow2 b \<le> x" "grid_exp x \<le> b"
  shows "pow2 b \<le> round53 x"
proof -
  have "of_int (2 ^ nat (b - grid_exp x)) \<le> x / pow2 (grid_exp x)"
    using assms by (simp add: pow2_grid_split [OF assms(2)] le_divide_eq)
  from round_half_even_ge_int [OF this] show ?thesis
    unfolding round53_def pow2_grid_split [OF assms(2)]
    by (intro mult_right_mono) (use of_int_le_iff in blast, simp add: less_imp_le)
qed

lemma round53_nonneg: "0 \<le> x \<Longrightarrow> 0 \<le> round53 x"
  unfolding round53_def by (intro mult_nonneg_nonneg) (auto intro!: round_half_even_ge_int simp: less_imp_le)

lemma grid_exp_mono: "0 < x \<Longrightarrow> x \<le> y \<Longrightarrow> grid_exp x \<le> grid_exp y"
  using ilog2_mono [of x y] by (auto simp: grid_exp_def)

lemma round53_mono_pos:
  assumes "0 < x" "x \<le> y"
  shows "round53 x \<le> round53 y"
proof (cases "grid_exp x = grid_exp y")
  case True
  have "x / pow2 (grid_exp y) \<le> y / pow2 (grid_exp y)"
    using assms by (simp add: divide_right_mono less_imp_le)
  from round_half_even_mono [OF this] show ?thesis
    unfolding round53_def True
    by (intro mult_right_mono) (use of_int_le_iff in blast, simp add: less_imp_le)
next
  case False
  let ?b = "grid_exp y + 52"
  have lt: "grid_exp x < grid_exp y" using grid_exp_mono [OF assms] False by simp
  moreover have "- 1074 \<le> grid_exp x" by (simp add: grid_exp_def)
  ultimately have b: "pow2 ?b \<le> y" using above_grid [of y] assms by simp
  have "x < pow2 (grid_exp x + 53)" using below_grid [of x] assms by simp
  also have "\<dots> \<le> pow2 ?b" using lt by (intro pow2_mono) simp
  finally have "round53 x \<le> pow2 ?b" using lt by (intro round53_le_pow2) simp_all
  also have "\<dots> \<le> round53 y" using b by (intro round53_ge_pow2) simp_all
  finally show ?thesis .
qed

lemma round53_mono: "x \<le> y \<Longrightarrow> round53 x \<le> round53 y"
proof -
  assume le: "x \<le> y"
  consider "0 < x" | "x \<le> 0" "0 \<le> y" | "y < 0" by linarith
  then show ?thesis
  proof cases
    case 1
    then show ?thesis using le by (rule round53_mono_pos)
  next
    case 2
    then show ?thesis
      using round53_nonneg [of y] round53_nonneg [of "- x"] by (simp add: round53_uminus)
  next
    case 3
    then show ?thesis
      using round53_mono_pos [of "- y" "- x"] le by (simp add: round53_uminus)
  qed
qed

text \<open>Numbers with at most 53 significant bits are left alone.\<close>

lemma round53_exact:
  assumes m: "\<bar>m\<bar> < 2 ^ 53" and k: "- 1074 \<le> k"
  shows "round53 (of_int m * pow2 k) = of_int m * pow2 k"
proof (cases "m = 0")
  case True
  then show ?thesis by simp
next
  case False
  let ?x = "of_int m * pow2 k :: rat" and ?g = "grid_exp (of_int m * pow2 k)"
  have "\<bar>of_int m :: rat\<bar> < 2 ^ 53"
    using m by (metis of_int_abs of_int_less_iff of_int_numeral of_int_power)
  then have "\<bar>?x\<bar> < pow2 (k + 53)"
    by (simp add: abs_mult pow2_add pow2_nat [of 53, simplified] less_imp_le)
  moreover have "0 < \<bar>?x\<bar>" using False by simp
  ultimately have "pow2 (ilog2 \<bar>?x\<bar>) < pow2 (k + 53)"
    using ilog2_bounds(1) [of "\<bar>?x\<bar>"] by linarith
  then have "ilog2 \<bar>?x\<bar> < k + 53" by (rule pow2_less_imp)
  then have g: "?g \<le> k" using k by (simp add: grid_exp_def)
  have q: "?x / pow2 ?g = of_int (m * 2 ^ nat (k - ?g))"
    using pow2_grid_split [OF g] by (simp add: field_simps)
  show ?thesis
    unfolding round53_def q round_half_even_of_int using pow2_grid_split [OF g] by simp
qed

lemma round53_pow2: "- 1074 \<le> k \<Longrightarrow> round53 (pow2 k) = pow2 k"
  using round53_exact [of 1 k] by simp

lemma round53_of_int: "\<bar>n\<bar> < 2 ^ 53 \<Longrightarrow> round53 (of_int n) = of_int n"
  using round53_exact [of n 0] by (simp add: pow2_def)

lemma round53_idem: "round53 (round53 x) = round53 x"
proof -
  let ?g = "grid_exp x" and ?r = "round_half_even (x / pow2 (grid_exp x))"
  have g: "- 1074 \<le> ?g" by (simp add: grid_exp_def)
  have "\<bar>x\<bar> \<le> pow2 (53 + ?g)"
    using below_grid [of x] by (cases "x = 0") (simp_all add: add.commute less_imp_le)
  then have "\<bar>x / pow2 ?g\<bar> \<le> of_int (2 ^ 53)"
    by (simp add: pow2_add divide_le_eq pow2_nat [of 53, simplified] abs_divide)
  then have "x / pow2 ?g \<le> of_int (2 ^ 53)" "- (x / pow2 ?g) \<le> of_int (2 ^ 53)"
    unfolding abs_le_iff by simp_all
  from round_half_even_le_int [OF this(1)] round_half_even_le_int [OF this(2)]
  have r: "\<bar>?r\<bar> \<le> 2 ^ 53" by (simp add: round_half_even_uminus abs_le_iff)
  show ?thesis
  proof (cases "\<bar>?r\<bar> < 2 ^ 53")
    case True
    from round53_exact [OF this g] show ?thesis by (simp only: round53_def)
  next
    case False
    with r have "?r = 2 ^ 53 \<or> ?r = - (2 ^ 53)" by linarith
    then have "round53 x = pow2 (53 + ?g) \<or> round53 x = - pow2 (53 + ?g)"
      by (auto simp: round53_def pow2_add pow2_nat [of 53, simplified])
    then show ?thesis using round53_pow2 [of "53 + ?g"] g by (auto simp: round53_uminus)
  qed
qed

lemma round53_error:
  assumes "\<bar>x\<bar> \<le> pow2 b" "- 1021 \<le> b"
  shows "\<bar>round53 x - x\<bar> \<le> pow2 (b - 53)"
proof (cases "x = 0 \<or> \<bar>x\<bar> = pow2 b")
  case True
  then have "round53 x = x"
    using round53_pow2 [of b] assms(2)
    by (auto simp: abs_if round53_uminus split: if_splits) (metis minus_minus round53_uminus)
  then show ?thesis by (simp add: less_imp_le)
next
  case False
  let ?g = "grid_exp x"
  have "pow2 (ilog2 \<bar>x\<bar>) < pow2 b"
    using ilog2_bounds(1) [of "\<bar>x\<bar>"] False assms(1) by fastforce
  from pow2_less_imp [OF this] have g: "?g \<le> b - 53"
    using False assms(2) by (simp add: grid_exp_def)
  have g1: "?g - 1 \<le> b - 53" using g by simp
  have "round53 x - x = (of_int (round_half_even (x / pow2 ?g)) - x / pow2 ?g) * pow2 ?g"
    by (simp add: round53_def left_diff_distrib)
  then have "\<bar>round53 x - x\<bar> = \<bar>of_int (round_half_even (x / pow2 ?g)) - x / pow2 ?g\<bar> * pow2 ?g"
    by (simp add: abs_mult less_imp_le)
  also have "\<dots> \<le> 1 / 2 * pow2 ?g"
    by (intro mult_right_mono round_half_even_error) (simp add: less_imp_le)
  also have "\<dots> \<le> pow2 (b - 53)"
    using pow2_mono [OF g] pow2_pos [of ?g] by linarith
  finally show ?thesis .
qed

section \<open>Values and operations\<close>

datatype float64 = NaN | PInf | NInf | Fin rat

text \<open>The overflow threshold, kept folded: it has 309 decimal digits.\<close>

definition f64_limit :: rat where "f64_limit = 2 ^ 1024"

lemma f64_limit_pos [simp]: "0 < f64_limit" "- f64_limit < 0" "\<not> f64_limit \<le> 0"
  by (simp_all add: f64_limit_def)

lemma two_pow_less_limit: "k < 1024 \<Longrightarrow> 2 ^ k < f64_limit"
  unfolding f64_limit_def by (rule power_strict_increasing) simp_all

definition rnd :: "rat \<Rightarrow> float64" where
  "rnd x = (let y = round53 x in
     if f64_limit \<le> y then PInf else if y \<le> - f64_limit then NInf else Fin y)"

fun f64_le :: "float64 \<Rightarrow> float64 \<Rightarrow> bool" where
  "f64_le NaN b = False"
| "f64_le a NaN = False"
| "f64_le NInf b = True"
| "f64_le a PInf = True"
| "f64_le (Fin x) (Fin y) = (x \<le> y)"
| "f64_le a b = False"

definition f64_less :: "float64 \<Rightarrow> float64 \<Rightarrow> bool" where
  "f64_less a b = (f64_le a b \<and> a \<noteq> b)"

fun f64_neg :: "float64 \<Rightarrow> float64" where
  "f64_neg NaN = NaN"
| "f64_neg PInf = NInf"
| "f64_neg NInf = PInf"
| "f64_neg (Fin x) = Fin (- x)"

fun f64_add :: "float64 \<Rightarrow> float64 \<Rightarrow> float64" where
  "f64_add (Fin x) (Fin y) = rnd (x + y)"
| "f64_add NaN b = NaN"
| "f64_add a NaN = NaN"
| "f64_add PInf NInf = NaN"
| "f64_add NInf PInf = NaN"
| "f64_add PInf b = PInf"
| "f64_add NInf b = NInf"
| "f64_add a b = b"

definition f64_sub :: "float64 \<Rightarrow> float64 \<Rightarrow> float64" where
  "f64_sub a b = f64_add a (f64_neg b)"

definition f64_inf :: "bool \<Rightarrow> float64" where
  "f64_inf neg = (if neg then NInf else PInf)"

fun f64_negative :: "float64 \<Rightarrow> bool" where
  "f64_negative NInf = True"
| "f64_negative (Fin x) = (x < 0)"
| "f64_negative a = False"

fun f64_mul :: "float64 \<Rightarrow> float64 \<Rightarrow> float64" where
  "f64_mul (Fin x) (Fin y) = rnd (x * y)"
| "f64_mul NaN b = NaN"
| "f64_mul a NaN = NaN"
| "f64_mul a b = (if a = Fin 0 \<or> b = Fin 0 then NaN
                  else f64_inf (f64_negative a \<noteq> f64_negative b))"

fun f64_div :: "float64 \<Rightarrow> float64 \<Rightarrow> float64" where
  "f64_div (Fin x) (Fin y) =
     (if y = 0 then (if x = 0 then NaN else f64_inf (x < 0)) else rnd (x / y))"
| "f64_div NaN b = NaN"
| "f64_div a NaN = NaN"
| "f64_div (Fin x) b = Fin 0"
| "f64_div a (Fin y) = f64_inf (f64_negative a \<noteq> (y < 0))"
| "f64_div a b = NaN"

text \<open>Go's built-in \<open>min\<close>: NaN if either argument is NaN.\<close>

definition f64_min :: "float64 \<Rightarrow> float64 \<Rightarrow> float64" where
  "f64_min a b = (if a = NaN \<or> b = NaN then NaN else if f64_le a b then a else b)"

text \<open>\<open>float64(n)\<close> of an integer, and \<open>int(x)\<close>, which truncates towards zero.\<close>

definition f64_of_int :: "int \<Rightarrow> float64" where
  "f64_of_int n = rnd (of_int n)"

definition rat_trunc :: "rat \<Rightarrow> int" where
  "rat_trunc x = (if 0 \<le> x then \<lfloor>x\<rfloor> else \<lceil>x\<rceil>)"

text \<open>The values that are numbers of the format (what every operation returns).\<close>

fun f64_ok :: "float64 \<Rightarrow> bool" where
  "f64_ok (Fin x) = (round53 x = x \<and> \<bar>x\<bar> < f64_limit)"
| "f64_ok a = True"

section \<open>Laws\<close>

lemma f64_le_refl [simp]: "a \<noteq> NaN \<Longrightarrow> f64_le a a"
  by (cases a) auto

lemma f64_le_trans: "f64_le a b \<Longrightarrow> f64_le b c \<Longrightarrow> f64_le a c"
  by (cases a; cases b; cases c) auto

lemma f64_le_antisym: "f64_le a b \<Longrightarrow> f64_le b a \<Longrightarrow> a = b"
  by (cases a; cases b) auto

lemma f64_le_not_NaN: "f64_le a b \<Longrightarrow> a \<noteq> NaN \<and> b \<noteq> NaN"
  by (cases a; cases b) auto

lemma f64_less_Fin [simp]: "f64_less (Fin x) (Fin y) = (x < y)"
  by (auto simp: f64_less_def)

lemma f64_not_less: "a \<noteq> NaN \<Longrightarrow> b \<noteq> NaN \<Longrightarrow> \<not> f64_less a b \<longleftrightarrow> f64_le b a"
  by (cases a; cases b) (auto simp: f64_less_def)

lemma f64_less_NaN [simp]: "\<not> f64_less NaN b" "\<not> f64_less a NaN"
  by (cases a; simp add: f64_less_def)+

lemma rnd_not_NaN [simp]: "rnd x \<noteq> NaN"
  by (simp add: rnd_def Let_def)

lemma rnd_ok [simp]: "f64_ok (rnd x)"
  by (auto simp: rnd_def Let_def round53_idem abs_less_iff)

lemma rnd_mono: "x \<le> y \<Longrightarrow> f64_le (rnd x) (rnd y)"
  using round53_mono [of x y] by (auto simp: rnd_def Let_def)

lemma rnd_exact: "f64_ok (Fin x) \<Longrightarrow> rnd x = Fin x"
  by (auto simp: rnd_def abs_less_iff)

lemma f64_ok_0 [simp]: "f64_ok (Fin 0)"
  by simp

lemma rnd_0 [simp]: "rnd 0 = Fin 0"
  by (simp add: rnd_exact)

lemma rnd_uminus: "rnd (- x) = f64_neg (rnd x)"
proof -
  have "\<not> f64_limit \<le> - round53 x" if "f64_limit \<le> round53 x"
    using that f64_limit_pos(1) by linarith
  then show ?thesis by (simp add: rnd_def Let_def round53_uminus)
qed

lemma f64_ok_of_small_int: "\<bar>n\<bar> < 2 ^ 53 \<Longrightarrow> f64_ok (Fin (of_int n))"
proof -
  assume n: "\<bar>n\<bar> < 2 ^ 53"
  then have "\<bar>of_int n :: rat\<bar> < 2 ^ 53"
    by (metis of_int_abs of_int_less_iff of_int_numeral of_int_power)
  moreover have "(2 :: rat) ^ 53 < f64_limit" by (rule two_pow_less_limit) simp
  ultimately show ?thesis using round53_of_int [OF n] by simp
qed

lemma f64_of_small_int: "\<bar>n\<bar> < 2 ^ 53 \<Longrightarrow> f64_of_int n = Fin (of_int n)"
  unfolding f64_of_int_def by (rule rnd_exact [OF f64_ok_of_small_int])

lemma f64_neg_ok [simp]: "f64_ok (f64_neg a) = f64_ok a"
  by (cases a) (auto simp: round53_uminus)

lemma f64_add_ok: "f64_ok a \<Longrightarrow> f64_ok b \<Longrightarrow> f64_ok (f64_add a b)"
  by (cases a; cases b) auto

lemma f64_mul_ok [simp]: "f64_ok (f64_mul a b)"
  by (cases a; cases b) (auto simp: f64_inf_def simp del: f64_ok.simps(1))

lemma f64_sub_ok: "f64_ok a \<Longrightarrow> f64_ok b \<Longrightarrow> f64_ok (f64_sub a b)"
  by (simp add: f64_sub_def f64_add_ok)

lemma f64_min_ok: "f64_ok a \<Longrightarrow> f64_ok b \<Longrightarrow> f64_ok (f64_min a b)"
  by (simp add: f64_min_def)

lemma f64_min_le1: "a \<noteq> NaN \<Longrightarrow> b \<noteq> NaN \<Longrightarrow> f64_le (f64_min a b) a"
  using f64_not_less [of a b] by (auto simp: f64_min_def f64_less_def)

lemma f64_min_le2: "a \<noteq> NaN \<Longrightarrow> b \<noteq> NaN \<Longrightarrow> f64_le (f64_min a b) b"
  by (simp add: f64_min_def)

text \<open>Subtracting a non-negative amount never increases a value, rounding included.\<close>

lemma f64_sub_le:
  assumes "f64_ok a" "a \<noteq> NaN" "f64_le (Fin 0) c" "f64_sub a c \<noteq> NaN"
  shows "f64_le (f64_sub a c) a"
proof (cases "\<exists>x y. a = Fin x \<and> c = Fin y")
  case True
  then obtain x y where "a = Fin x" "c = Fin y" by blast
  with assms rnd_mono [of "x - y" x] show ?thesis by (simp add: f64_sub_def rnd_exact)
next
  case False
  with assms show ?thesis by (cases a; cases c) (auto simp: f64_sub_def)
qed

text \<open>Subtracting no more than what is there leaves a non-negative amount.\<close>

lemma f64_sub_nonneg:
  assumes "f64_le c a" "f64_sub a c \<noteq> NaN"
  shows "f64_le (Fin 0) (f64_sub a c)"
proof (cases "\<exists>x y. a = Fin x \<and> c = Fin y")
  case True
  then obtain x y where "a = Fin x" "c = Fin y" by blast
  with assms rnd_mono [of 0 "x - y"] show ?thesis by (simp add: f64_sub_def)
next
  case False
  with assms show ?thesis by (cases a; cases c) (auto simp: f64_sub_def)
qed

section \<open>Evaluating on concrete numbers\<close>

lemma rat_floor_numeral [simp]:
  "\<lfloor>numeral a / numeral b :: rat\<rfloor> = numeral a div numeral b"
  "\<lfloor>1 / numeral b :: rat\<rfloor> = 1 div numeral b"
  "\<lfloor>- (numeral a / numeral b) :: rat\<rfloor> = - numeral a div numeral b"
  "\<lfloor>- (1 / numeral b) :: rat\<rfloor> = - 1 div numeral b"
  using floor_divide_of_int_eq [of "numeral a" "numeral b", where 'a = rat]
    floor_divide_of_int_eq [of 1 "numeral b", where 'a = rat]
    floor_divide_of_int_eq [of "- numeral a" "numeral b", where 'a = rat]
    floor_divide_of_int_eq [of "- 1" "numeral b", where 'a = rat]
  by simp_all

lemmas rnd_eval = rnd_def f64_limit_def round53_def Let_def grid_exp_def ilog2_def compute_floorlog
  round_half_even_def pow2_def ceiling_def

text \<open>Small integers, as the evaluation of concrete costs meets them.\<close>

lemma rnd_small [simp]:
  "(numeral n :: int) < 2 ^ 53 \<Longrightarrow> rnd (numeral n) = Fin (numeral n)"
  "rnd 0 = Fin 0" "rnd 1 = Fin 1"
  using f64_of_small_int [of "numeral n"] f64_of_small_int [of 0] f64_of_small_int [of 1]
  by (simp_all add: f64_of_int_def)

lemma f64_of_int_small [simp]:
  "(numeral n :: int) < 2 ^ 53 \<Longrightarrow> f64_of_int (numeral n) = Fin (numeral n)"
  "f64_of_int 0 = Fin 0" "f64_of_int 1 = Fin 1"
  using f64_of_small_int [of "numeral n"] f64_of_small_int [of 0] f64_of_small_int [of 1]
  by simp_all

lemma small_representable [simp]:
  "(numeral n :: int) < 2 ^ 53 \<Longrightarrow> round53 (numeral n) = numeral n"
  "(numeral n :: int) < 2 ^ 53 \<Longrightarrow> numeral n < f64_limit"
  "round53 0 = 0" "round53 1 = 1" "1 < f64_limit" "0 < f64_limit"
  using f64_ok_of_small_int [of "numeral n"] f64_ok_of_small_int [of 0] f64_ok_of_small_int [of 1]
  by simp_all

end
