(* ===== verification/Go_Std.thy ===== *)
theory Go_Std
  imports Go_Float64
begin

text \<open>
  The parts of Go's standard library the server relies on, as far as it uses them:
  \<open>time\<close> (readings of the clock, differences, seconds of a duration), \<open>strings\<close>
  (splitting and joining at a byte, trimming), \<open>path/filepath\<close> (\<open>Clean\<close>, \<open>Join\<close>) and
  \<open>encoding/hex\<close>.
\<close>

section \<open>time\<close>

text \<open>
  A \<open>time.Time\<close> is a wall-clock reading in nanoseconds since the Unix epoch and, when it
  comes from \<open>time.Now\<close>, a monotonic reading too. \<open>Sub\<close> uses the monotonic readings when
  both sides have one, and saturates at the bounds of a 64-bit \<open>Duration\<close>.
\<close>

record gotime =
  wall_ns :: int
  mono_ns :: "int option"

definition clamp64 :: "int \<Rightarrow> int" where
  "clamp64 d = (if d < - (2 ^ 63) then - (2 ^ 63) else if 2 ^ 63 \<le> d then 2 ^ 63 - 1 else d)"

definition time_Sub :: "gotime \<Rightarrow> gotime \<Rightarrow> int" where
  "time_Sub t u = clamp64
     (case (mono_ns t, mono_ns u) of
        (Some a, Some b) \<Rightarrow> a - b
      | _ \<Rightarrow> wall_ns t - wall_ns u)"

definition time_Unix_sec :: "gotime \<Rightarrow> int" where
  "time_Unix_sec t = wall_ns t div 10 ^ 9"

definition time_of_Unix :: "int \<Rightarrow> gotime" where
  "time_of_Unix s = \<lparr>wall_ns = s * 10 ^ 9, mono_ns = None\<rparr>"

definition Nanosecond :: int where "Nanosecond = 1"
definition Second :: int where "Second = 10 ^ 9"
definition Minute :: int where "Minute = 60 * Second"
definition Hour :: int where "Hour = 60 * Minute"

lemmas duration_units = Nanosecond_def Second_def Minute_def Hour_def

text \<open>\<open>Duration.Seconds\<close>: whole seconds plus the remaining nanoseconds over \<open>1e9\<close>.\<close>

definition duration_Seconds :: "int \<Rightarrow> float64" where
  "duration_Seconds d =
     f64_add (f64_of_int (go_div d Second)) (f64_div (f64_of_int (go_mod d Second)) (Fin (10 ^ 9)))"

lemma clamp64_bounds: "- (2 ^ 63) \<le> clamp64 d" "clamp64 d < 2 ^ 63"
  by (simp_all add: clamp64_def)

lemma clamp64_nonneg: "0 \<le> d \<Longrightarrow> 0 \<le> clamp64 d"
  by (simp add: clamp64_def)

lemma clamp64_id: "- (2 ^ 63) \<le> d \<Longrightarrow> d < 2 ^ 63 \<Longrightarrow> clamp64 d = d"
  by (simp add: clamp64_def)

lemma time_Sub_self [simp]: "time_Sub t t = 0"
  by (simp add: time_Sub_def clamp64_def split: option.splits)

lemma time_Unix_of_Unix [simp]: "time_Unix_sec (time_of_Unix s) = s"
  by (simp add: time_Unix_sec_def time_of_Unix_def)

lemma f64_add_nonneg:
  "f64_le (Fin 0) a \<Longrightarrow> f64_le (Fin 0) b \<Longrightarrow> f64_le (Fin 0) (f64_add a b)"
  using rnd_mono [of 0] by (cases a; cases b) auto

lemma f64_mul_nonneg_Fin: "0 \<le> x \<Longrightarrow> 0 \<le> y \<Longrightarrow> f64_le (Fin 0) (f64_mul (Fin x) (Fin y))"
  using rnd_mono [of 0 "x * y"] by simp

lemma rnd_le_exact: "f64_ok (Fin b) \<Longrightarrow> x \<le> b \<Longrightarrow> 0 \<le> x \<Longrightarrow> \<exists>y. rnd x = Fin y \<and> 0 \<le> y \<and> y \<le> b"
  using rnd_mono [of x b] rnd_mono [of 0 x] by (cases "rnd x") (auto simp: rnd_exact)

text \<open>A non-negative duration is a finite, non-negative number of seconds.\<close>

lemma duration_Seconds_nonneg:
  assumes "0 \<le> d" "d \<le> 2 ^ 63"
  shows "\<exists>s. duration_Seconds d = Fin s \<and> 0 \<le> s \<and> s \<le> 2 ^ 34"
proof -
  let ?q = "d div 10 ^ 9" and ?r = "d mod 10 ^ 9"
  have q: "0 \<le> ?q" "?q < 2 ^ 34 - 1" and r: "0 \<le> ?r" "?r < 10 ^ 9"
    using assms by (simp_all add: div_less_iff_less_mult) 
  have f: "f64_of_int ?q = Fin (of_int ?q)" "f64_of_int ?r = Fin (of_int ?r)"
    using q r by (auto intro!: f64_of_small_int)
  have one: "f64_ok (Fin 1)" using f64_ok_of_small_int [of 1] by simp
  have top: "f64_ok (Fin (2 ^ 34))" using f64_ok_of_small_int [of "2 ^ 34"] by simp
  have "of_int ?r / 10 ^ 9 \<le> (1 :: rat)" "0 \<le> of_int ?r / (10 ^ 9 :: rat)"
    using r by (simp_all add: divide_le_eq) 
  from rnd_le_exact [OF one this] obtain y where
    y: "rnd (of_int ?r / 10 ^ 9) = Fin y" "0 \<le> y" "y \<le> 1" by blast
  have "of_int ?q \<le> (2 ^ 34 - 1 :: rat)" "0 \<le> (of_int ?q :: rat)"
    using q of_int_le_iff [of ?q "2 ^ 34 - 1", where 'a = rat] by simp_all
  then have "of_int ?q + y \<le> 2 ^ 34" "0 \<le> of_int ?q + y" using y by simp_all
  from rnd_le_exact [OF top this] show ?thesis
    using assms f y by (simp add: duration_Seconds_def Second_def)
qed

lemma go_div_uminus: "0 \<le> a \<Longrightarrow> 0 < b \<Longrightarrow> go_div (- a) b = - (a div b)"
  by (cases "a = 0") (simp_all add: go_div_def)

lemma go_mod_uminus: "0 \<le> a \<Longrightarrow> 0 < b \<Longrightarrow> go_mod (- a) b = - (a mod b)"
  by (simp add: go_mod_def go_div_uminus) (metis minus_div_mult_eq_mod minus_diff_eq uminus_add_conv_diff)

lemma duration_Seconds_uminus:
  assumes "0 \<le> d" "d \<le> 2 ^ 63"
  shows "duration_Seconds (- d) = f64_neg (duration_Seconds d)"
proof -
  let ?q = "d div 10 ^ 9" and ?r = "d mod 10 ^ 9"
  have "\<bar>?q\<bar> < 2 ^ 53" "\<bar>?r\<bar> < 2 ^ 53"
    using assms by (simp_all add: div_less_iff_less_mult pos_imp_zdiv_nonneg_iff abs_less_iff)
  then have f: "f64_of_int ?q = Fin (of_int ?q)" "f64_of_int ?r = Fin (of_int ?r)"
    "f64_of_int (- ?q) = Fin (- of_int ?q)" "f64_of_int (- ?r) = Fin (- of_int ?r)"
    using f64_of_small_int [of ?q] f64_of_small_int [of ?r]
      f64_of_small_int [of "- ?q"] f64_of_small_int [of "- ?r"] by simp_all
  have "f64_add (Fin (- a)) (f64_neg b) = f64_neg (f64_add (Fin a) b)" for a b
    using rnd_uminus by (cases b) (simp_all, metis (no_types) minus_add_distrib add_uminus_conv_diff)
  then show ?thesis
    using assms f rnd_uminus [of "of_int ?r / 10 ^ 9"]
    by (simp add: duration_Seconds_def Second_def go_div_uminus go_mod_uminus)
qed

lemma duration_Seconds_finite:
  assumes "- (2 ^ 63) \<le> d" "d \<le> 2 ^ 63"
  shows "\<exists>s. duration_Seconds d = Fin s \<and> \<bar>s\<bar> \<le> 2 ^ 34"
proof (cases "0 \<le> d")
  case True
  with duration_Seconds_nonneg [of d] assms show ?thesis by fastforce
next
  case False
  then have d: "0 \<le> - d" "- d \<le> 2 ^ 63" using assms by simp_all
  from duration_Seconds_nonneg [OF d] obtain s where
    "duration_Seconds (- d) = Fin s" "0 \<le> s" "s \<le> 2 ^ 34" by blast
  with duration_Seconds_uminus [OF d] show ?thesis by auto
qed

section \<open>strings\<close>

text \<open>\<open>strings.Split(s, sep)\<close> and \<open>strings.SplitSeq\<close> for a one-byte separator.\<close>

fun split_on :: "char \<Rightarrow> string \<Rightarrow> string list" where
  "split_on c [] = [[]]"
| "split_on c (x # xs) =
     (if x = c then [] # split_on c xs
      else (case split_on c xs of [] \<Rightarrow> [[x]] | y # ys \<Rightarrow> (x # y) # ys))"

fun join_with :: "char \<Rightarrow> string list \<Rightarrow> string" where
  "join_with c [] = []"
| "join_with c [x] = x"
| "join_with c (x # y # ys) = x @ c # join_with c (y # ys)"

lemma split_on_not_Nil [simp]: "split_on c s \<noteq> []"
  by (induction s) (auto split: list.splits)

lemma split_on_free: "c \<notin> set s \<Longrightarrow> split_on c s = [s]"
  by (induction s) auto

lemma split_on_append_sep: "c \<notin> set s \<Longrightarrow> split_on c (s @ c # t) = s # split_on c t"
  by (induction s) auto

lemma split_join:
  "xs \<noteq> [] \<Longrightarrow> (\<And>x. x \<in> set xs \<Longrightarrow> c \<notin> set x) \<Longrightarrow> split_on c (join_with c xs) = xs"
  by (induction xs rule: join_with.induct) (auto simp: split_on_free split_on_append_sep)

lemma split_on_elems: "x \<in> set (split_on c s) \<Longrightarrow> c \<notin> set x"
  by (induction s arbitrary: x) (auto split: list.splits if_splits)

lemma split_on_append:
  "split_on c (s @ c # t) = split_on c s @ split_on c t"
  by (induction s) (auto split: list.splits)

lemma join_with_snoc: "xs \<noteq> [] \<Longrightarrow> join_with c (xs @ [x]) = join_with c xs @ c # x"
  by (induction xs rule: join_with.induct) auto

text \<open>\<open>strings.HasPrefix\<close> and \<open>strings.TrimPrefix\<close>.\<close>

fun has_prefix :: "string \<Rightarrow> string \<Rightarrow> bool" where
  "has_prefix s [] = True"
| "has_prefix [] (p # ps) = False"
| "has_prefix (x # xs) (p # ps) = (x = p \<and> has_prefix xs ps)"

definition trim_prefix :: "string \<Rightarrow> string \<Rightarrow> string" where
  "trim_prefix s p = (if has_prefix s p then drop (length p) s else s)"

lemma has_prefix_iff: "has_prefix s p \<longleftrightarrow> (\<exists>t. s = p @ t)"
  by (induction s p rule: has_prefix.induct) auto

lemma trim_prefix_append [simp]: "trim_prefix (p @ t) p = t"
  by (auto simp: trim_prefix_def has_prefix_iff)

end
