(* ===== verification/Rate_Limiter.thy ===== *)
theory Rate_Limiter
  imports Go_Std
begin

text \<open>
  \<open>server/rate-limiter.go\<close>: the per-tenant token bucket and the cost model of requests.
  A bucket holds a balance of byte-equivalents. \<open>Consume\<close> grants a cost only when the
  balance covers it; \<open>Charge\<close> takes a cost unconditionally, so the balance may become
  negative. Each operation first credits the time elapsed since the last one, capped at the
  capacity. The mutex of the source makes each operation atomic, as it is here.
\<close>

section \<open>Configuration and costs\<close>

record rate_limit_config =
  CapacityBytes :: float64
  RefillBytesPerSec :: float64
  FlatOverheadBytes :: float64
  WriteByteWeight :: float64
  ReadByteWeight :: float64

definition PutCost :: "rate_limit_config \<Rightarrow> int \<Rightarrow> float64" where
  "PutCost rl valueLen =
     f64_add (FlatOverheadBytes rl) (f64_mul (f64_of_int valueLen) (WriteByteWeight rl))"

definition FlatCost :: "rate_limit_config \<Rightarrow> float64" where
  "FlatCost rl = FlatOverheadBytes rl"

definition ReadCost :: "rate_limit_config \<Rightarrow> int \<Rightarrow> float64" where
  "ReadCost rl n = f64_mul (f64_of_int n) (ReadByteWeight rl)"

section \<open>The bucket\<close>

record token_bucket =
  tb_tokens :: float64
  tb_capacity :: float64
  tb_refillPerSec :: float64
  tb_last :: gotime

text \<open>The argument \<open>now\<close> is the reading of \<open>time.Now()\<close>.\<close>

definition NewTokenBucket :: "gotime \<Rightarrow> rate_limit_config \<Rightarrow> token_bucket" where
  "NewTokenBucket now rl =
     \<lparr>tb_tokens = CapacityBytes rl, tb_capacity = CapacityBytes rl,
      tb_refillPerSec = RefillBytesPerSec rl, tb_last = now\<rparr>"

definition tb_refill :: "gotime \<Rightarrow> token_bucket \<Rightarrow> token_bucket" where
  "tb_refill now b =
     (let elapsed = duration_Seconds (time_Sub now (tb_last b)) in
      b\<lparr>tb_tokens := f64_min (tb_capacity b)
                     (f64_add (tb_tokens b) (f64_mul elapsed (tb_refillPerSec b))),
        tb_last := now\<rparr>)"

definition tb_Consume :: "gotime \<Rightarrow> float64 \<Rightarrow> token_bucket \<Rightarrow> bool \<times> token_bucket" where
  "tb_Consume now cost b =
     (let b' = tb_refill now b in
      if f64_less (tb_tokens b') cost then (False, b')
      else (True, b'\<lparr>tb_tokens := f64_sub (tb_tokens b') cost\<rparr>))"

definition tb_Charge :: "gotime \<Rightarrow> float64 \<Rightarrow> token_bucket \<Rightarrow> token_bucket" where
  "tb_Charge now cost b =
     (let b' = tb_refill now b in b'\<lparr>tb_tokens := f64_sub (tb_tokens b') cost\<rparr>)"

lemmas tb_defs = tb_refill_def tb_Consume_def tb_Charge_def NewTokenBucket_def

lemma tb_refill_fields [simp, frame_simps]:
  "tb_capacity (tb_refill now b) = tb_capacity b"
  "tb_refillPerSec (tb_refill now b) = tb_refillPerSec b"
  "tb_last (tb_refill now b) = now"
  by (simp_all add: tb_refill_def Let_def)

lemma tb_Consume_fields [simp, frame_simps]:
  "tb_capacity (snd (tb_Consume now c b)) = tb_capacity b"
  "tb_refillPerSec (snd (tb_Consume now c b)) = tb_refillPerSec b"
  "tb_last (snd (tb_Consume now c b)) = now"
  by (simp_all add: tb_Consume_def Let_def)

lemma tb_Charge_fields [simp, frame_simps]:
  "tb_capacity (tb_Charge now c b) = tb_capacity b"
  "tb_refillPerSec (tb_Charge now c b) = tb_refillPerSec b"
  "tb_last (tb_Charge now c b) = now"
  by (simp_all add: tb_Charge_def Let_def)

section \<open>Sane configurations and the invariant\<close>

text \<open>
  A configuration is sane when its five numbers are finite, non-negative numbers of the
  format, and the refill rate stays below \<open>2^900\<close> (so that no elapsed time makes the credit
  overflow). The flags and the administration endpoint do not check this.
\<close>

definition fin_nonneg :: "float64 \<Rightarrow> bool" where
  "fin_nonneg a = (f64_ok a \<and> (case a of Fin x \<Rightarrow> 0 \<le> x | _ \<Rightarrow> False))"

definition sane_rate :: "float64 \<Rightarrow> bool" where
  "sane_rate r = (fin_nonneg r \<and> f64_le r (Fin (2 ^ 900)))"

definition sane_config :: "rate_limit_config \<Rightarrow> bool" where
  "sane_config rl =
     (fin_nonneg (CapacityBytes rl) \<and> sane_rate (RefillBytesPerSec rl) \<and>
      fin_nonneg (FlatOverheadBytes rl) \<and> fin_nonneg (WriteByteWeight rl) \<and>
      fin_nonneg (ReadByteWeight rl))"

text \<open>
  The invariant of a bucket: a finite, non-negative capacity and refill rate, and a balance
  that is a number of the format, never NaN and never above the capacity.
\<close>

definition tb_inv :: "token_bucket \<Rightarrow> bool" where
  "tb_inv b =
     (fin_nonneg (tb_capacity b) \<and> sane_rate (tb_refillPerSec b) \<and>
      f64_ok (tb_tokens b) \<and> f64_le (tb_tokens b) (tb_capacity b))"

lemma fin_nonneg_iff: "fin_nonneg a \<longleftrightarrow> (\<exists>x. a = Fin x \<and> 0 \<le> x \<and> f64_ok (Fin x))"
  by (cases a) (auto simp: fin_nonneg_def)

lemma fin_nonneg_le: "fin_nonneg a \<Longrightarrow> f64_le (Fin 0) a"
  by (auto simp: fin_nonneg_iff)

lemma f64_of_int_nonneg: "0 \<le> n \<Longrightarrow> f64_le (Fin 0) (f64_of_int n)"
  unfolding f64_of_int_def using rnd_mono [of 0 "of_int n"] by simp

lemma f64_mul_nonneg: 
  assumes "f64_le (Fin 0) a" "fin_nonneg b" "a \<noteq> PInf"
  shows "f64_le (Fin 0) (f64_mul a b)"
  using assms by (cases a) (auto simp: fin_nonneg_iff f64_mul_nonneg_Fin simp del: f64_mul.simps)

lemma f64_of_int_bounded:
  assumes "0 \<le> n" "n \<le> 2 ^ 66"
  shows "\<exists>x. f64_of_int n = Fin x \<and> 0 \<le> x"
proof -
  have "f64_ok (Fin (pow2 66))"
    using round53_pow2 [of 66] two_pow_less_limit [of 66] by (simp add: pow2_def)
  moreover have "of_int n \<le> pow2 66"
    using assms of_int_le_iff [of n "2 ^ 66", where 'a = rat] by (simp add: pow2_def)
  ultimately show ?thesis
    using assms rnd_le_exact [of "pow2 66" "of_int n"] by (auto simp: f64_of_int_def)
qed

text \<open>The costs of a sane configuration are non-negative.\<close>

lemma FlatCost_nonneg: "sane_config rl \<Longrightarrow> f64_le (Fin 0) (FlatCost rl)"
  by (simp add: FlatCost_def sane_config_def fin_nonneg_le)

lemma ReadCost_nonneg:
  "sane_config rl \<Longrightarrow> 0 \<le> n \<Longrightarrow> n \<le> 2 ^ 66 \<Longrightarrow> f64_le (Fin 0) (ReadCost rl n)"
  using f64_of_int_bounded [of n]
  by (auto simp: ReadCost_def sane_config_def intro!: f64_mul_nonneg)

lemma PutCost_nonneg:
  "sane_config rl \<Longrightarrow> 0 \<le> n \<Longrightarrow> n \<le> 2 ^ 66 \<Longrightarrow> f64_le (Fin 0) (PutCost rl n)"
  using f64_of_int_bounded [of n]
  by (auto simp: PutCost_def sane_config_def fin_nonneg_le intro!: f64_add_nonneg f64_mul_nonneg)

lemma cost_ok [simp]:
  "sane_config rl \<Longrightarrow> f64_ok (FlatCost rl)"
  "f64_ok (ReadCost rl n)"
  "sane_config rl \<Longrightarrow> f64_ok (PutCost rl n)"
  by (auto simp: FlatCost_def ReadCost_def PutCost_def sane_config_def fin_nonneg_def
      intro!: f64_add_ok f64_mul_ok)

section \<open>Every operation keeps the invariant\<close>

text \<open>The credit for the elapsed time is always a finite number.\<close>

definition tb_credit :: "gotime \<Rightarrow> token_bucket \<Rightarrow> float64" where
  "tb_credit now b = f64_mul (duration_Seconds (time_Sub now (tb_last b))) (tb_refillPerSec b)"

lemma tb_refill_tokens:
  "tb_tokens (tb_refill now b) = f64_min (tb_capacity b) (f64_add (tb_tokens b) (tb_credit now b))"
  by (simp add: tb_refill_def Let_def tb_credit_def)

lemma rnd_bounded_finite:
  assumes "\<bar>x\<bar> \<le> 2 ^ k" "k < 1024"
  shows "\<exists>y. rnd x = Fin y \<and> \<bar>y\<bar> \<le> 2 ^ k"
proof -
  have "f64_ok (Fin (2 ^ k))" "f64_ok (Fin (- (2 ^ k)))"
    using assms(2) round53_pow2 [of "int k"] two_pow_less_limit [of k]
    by (simp_all add: pow2_nat round53_uminus)
  then have "rnd (2 ^ k) = Fin (2 ^ k)" "rnd (- (2 ^ k)) = Fin (- (2 ^ k))"
    by (simp_all add: rnd_exact del: f64_ok.simps)
  moreover have "f64_le (rnd x) (rnd (2 ^ k))" "f64_le (rnd (- (2 ^ k))) (rnd x)"
    using assms(1) by (auto intro!: rnd_mono simp: abs_le_iff)
  ultimately show ?thesis by (cases "rnd x") (auto simp: abs_le_iff)
qed

lemma tb_credit_finite:
  assumes "sane_rate (tb_refillPerSec b)"
  shows "\<exists>x. tb_credit now b = Fin x"
proof -
  from assms obtain r where r: "tb_refillPerSec b = Fin r" "0 \<le> r" "r \<le> 2 ^ 900"
    by (auto simp: sane_rate_def fin_nonneg_iff)
  have "- (2 ^ 63) \<le> time_Sub now (tb_last b)" "time_Sub now (tb_last b) \<le> 2 ^ 63"
    using clamp64_bounds by (simp_all add: time_Sub_def less_imp_le)
  from duration_Seconds_finite [OF this] obtain s where
    s: "duration_Seconds (time_Sub now (tb_last b)) = Fin s" "\<bar>s\<bar> \<le> 2 ^ 34" by blast
  have "\<bar>s * r\<bar> \<le> 2 ^ 34 * 2 ^ 900"
    unfolding abs_mult using r s(2) by (intro mult_mono) simp_all
  then have "\<bar>s * r\<bar> \<le> 2 ^ 934" by (simp flip: power_add)
  from rnd_bounded_finite [OF this] show ?thesis by (auto simp: tb_credit_def s r)
qed

lemma tb_inv_New:
  "sane_config rl \<Longrightarrow> tb_inv (NewTokenBucket now rl)"
  by (auto simp: tb_inv_def NewTokenBucket_def sane_config_def fin_nonneg_iff)

lemma tb_inv_refill:
  assumes "tb_inv b"
  shows "tb_inv (tb_refill now b)"
proof -
  from assms obtain c where c: "tb_capacity b = Fin c" "f64_ok (Fin c)"
    by (auto simp: tb_inv_def fin_nonneg_iff)
  have t: "f64_ok (tb_tokens b)" "tb_tokens b \<noteq> NaN" "tb_tokens b \<noteq> PInf"
    using assms by (auto simp: tb_inv_def fin_nonneg_iff)
  from assms obtain x where x: "tb_credit now b = Fin x"
    using tb_credit_finite [of b now] by (auto simp: tb_inv_def)
  have "f64_add (tb_tokens b) (Fin x) \<noteq> NaN" "f64_ok (f64_add (tb_tokens b) (Fin x))"
    using t by (cases "tb_tokens b"; simp)+
  with assms c show ?thesis
    by (simp add: tb_inv_def tb_refill_tokens x f64_min_le1 f64_min_ok del: f64_ok.simps)
qed

lemma tb_inv_spend:
  assumes "tb_inv b" "f64_le (Fin 0) c" "f64_ok c"
  shows "tb_inv (b\<lparr>tb_tokens := f64_sub (tb_tokens b) c\<rparr>)"
proof -
  from assms(1) have t: "f64_ok (tb_tokens b)" "tb_tokens b \<noteq> NaN" "tb_tokens b \<noteq> PInf"
    "f64_le (tb_tokens b) (tb_capacity b)"
    by (auto simp: tb_inv_def fin_nonneg_iff)
  from t(2,3) assms(2) have n: "f64_sub (tb_tokens b) c \<noteq> NaN"
    by (cases "tb_tokens b"; cases c) (auto simp: f64_sub_def)
  have "f64_le (f64_sub (tb_tokens b) c) (tb_capacity b)"
    using f64_sub_le [OF t(1,2) assms(2) n] t(4) by (rule f64_le_trans)
  with assms(1) t assms(3) show ?thesis by (simp add: tb_inv_def f64_sub_ok)
qed

lemma tb_inv_Consume:
  "tb_inv b \<Longrightarrow> f64_le (Fin 0) c \<Longrightarrow> f64_ok c \<Longrightarrow> tb_inv (snd (tb_Consume now c b))"
  by (simp add: tb_Consume_def Let_def tb_inv_refill tb_inv_spend)

lemma tb_inv_Charge:
  "tb_inv b \<Longrightarrow> f64_le (Fin 0) c \<Longrightarrow> f64_ok c \<Longrightarrow> tb_inv (tb_Charge now c b)"
  by (simp add: tb_Charge_def Let_def tb_inv_refill tb_inv_spend)

text \<open>A granted \<open>Consume\<close> never overdraws: the balance it leaves is not negative.\<close>

lemma tb_Consume_no_overdraft:
  assumes "tb_inv b" "f64_le (Fin 0) c" "tb_Consume now c b = (True, b')"
  shows "f64_le (Fin 0) (tb_tokens b')"
proof -
  let ?r = "tb_refill now b"
  from assms(3) have b': "tb_tokens b' = f64_sub (tb_tokens ?r) c" "\<not> f64_less (tb_tokens ?r) c"
    by (auto simp: tb_Consume_def Let_def split: if_splits)
  have t: "tb_tokens ?r \<noteq> NaN" "tb_tokens ?r \<noteq> PInf"
    using tb_inv_refill [OF assms(1), of now] by (auto simp: tb_inv_def fin_nonneg_iff)
  then have le: "f64_le c (tb_tokens ?r)"
    using b'(2) f64_le_not_NaN [OF assms(2)] by (simp add: f64_not_less)
  then have "f64_sub (tb_tokens ?r) c \<noteq> NaN"
    using t assms(2) by (cases "tb_tokens ?r"; cases c) (auto simp: f64_sub_def)
  with f64_sub_nonneg [OF le] show ?thesis by (simp add: b')
qed

text \<open>A refused \<open>Consume\<close> takes nothing: the bucket is only refilled.\<close>

lemma tb_Consume_refused:
  "tb_Consume now c b = (False, b') \<Longrightarrow> b' = tb_refill now b \<and> f64_less (tb_tokens b') c"
  by (auto simp: tb_Consume_def Let_def split: if_splits)

section \<open>The budget of a sequence of requests\<close>





fun run_end :: "('t \<Rightarrow> 'c \<Rightarrow> 'b \<Rightarrow> bool \<times> 'b) \<Rightarrow> ('t \<times> 'c) list \<Rightarrow> 'b \<Rightarrow> 'b" where
  "run_end step [] b = b"
| "run_end step ((t, c) # ops) b = run_end step ops (snd (step t c b))"

fun run_ok :: "('t \<Rightarrow> 'c \<Rightarrow> 'b \<Rightarrow> bool \<times> 'b) \<Rightarrow> ('t \<Rightarrow> 'c \<Rightarrow> 'b \<Rightarrow> bool) \<Rightarrow> ('t \<times> 'c) list \<Rightarrow> 'b \<Rightarrow> bool" where
  "run_ok step ok [] b = True"
| "run_ok step ok ((t, c) # ops) b = (ok t c b \<and> run_ok step ok ops (snd (step t c b)))"

lemma run_end_append [simp]: "run_end step (ops @ ops') b = run_end step ops' (run_end step ops b)"
  by (induction ops arbitrary: b) auto

lemma run_ok_append [simp]:
  "run_ok step ok (ops @ ops') b \<longleftrightarrow> run_ok step ok ops b \<and> run_ok step ok ops' (run_end step ops b)"
  by (induction ops arbitrary: b) auto


text \<open>A bucket whose capacity and whose debt, if it has one, are at most \<open>2^k\<close>.\<close>

definition tb_bounded :: "nat \<Rightarrow> token_bucket \<Rightarrow> bool" where
  "tb_bounded k b =
     (tb_inv b \<and> k < 1024 \<and> f64_le (Fin (- (2 ^ k))) (tb_tokens b) \<and>
      f64_le (tb_capacity b) (Fin (2 ^ k)))"









section \<open>Properties\<close>

lemma f64_min_ge:
  "f64_le a b \<Longrightarrow> f64_le a c \<Longrightarrow> f64_le a (f64_min b c)"
  by (cases a; cases b; cases c) (auto simp: f64_min_def)

definition ex_bucket :: token_bucket where
  "ex_bucket = \<lparr>tb_tokens = Fin 100, tb_capacity = Fin 100, tb_refillPerSec = Fin 8,
     tb_last = \<lparr>wall_ns = 0, mono_ns = Some 0\<rparr>\<rparr>"

definition ex_time :: "int \<Rightarrow> gotime" where
  "ex_time s = \<lparr>wall_ns = s * 10 ^ 9, mono_ns = Some (s * 10 ^ 9)\<rparr>"

lemma ex_elapsed:
  "duration_Seconds (time_Sub (ex_time 0) (tb_last ex_bucket)) = Fin 0"
  "duration_Seconds (time_Sub (ex_time 2) (ex_time 0)) = Fin 2"
  "duration_Seconds (time_Sub (ex_time 4) (ex_time 2)) = Fin 2"
  by (simp_all add: ex_time_def ex_bucket_def time_Sub_def clamp64_def duration_Seconds_def
      Second_def go_div_def go_mod_def)

definition ex_spent_bucket :: token_bucket where
  "ex_spent_bucket = ex_bucket\<lparr>tb_tokens := Fin 40, tb_last := ex_time 0\<rparr>"

lemma ex_consume:
  "tb_Consume (ex_time 0) (Fin 60) ex_bucket = (True, ex_spent_bucket)"
  "tb_Consume (ex_time 2) (Fin 60) ex_spent_bucket =
     (False, ex_spent_bucket\<lparr>tb_tokens := Fin 56, tb_last := ex_time 2\<rparr>)"
  using ex_elapsed
  by (simp_all add: tb_Consume_def tb_refill_def Let_def f64_min_def f64_sub_def
      ex_bucket_def ex_spent_bucket_def)

lemma ex_bounded: "tb_bounded 7 ex_bucket"
  by (simp add: tb_bounded_def tb_inv_def fin_nonneg_def sane_rate_def ex_bucket_def rnd_eval)

lemmas ex_bucket_inv = ex_bounded [unfolded tb_bounded_def, THEN conjunct1]







text \<open>
  C21. The balance of a bucket stays a proper number. Whatever the readings of the clock, even
  when it goes back, \<open>Consume\<close> and \<open>Charge\<close> of a non-negative cost keep the balance free of
  NaN and at or below the capacity, and a granted \<open>Consume\<close> leaves a balance that is not
  negative.
\<close>

theorem limiter_balance_invariant:
  assumes "tb_inv b" "f64_le (Fin 0) c" "f64_ok c"
  shows "tb_inv (snd (tb_Consume now c b)) \<and> tb_inv (tb_Charge now c b) \<and>
    (fst (tb_Consume now c b) \<longrightarrow> f64_le (Fin 0) (tb_tokens (snd (tb_Consume now c b))))"
  using assms tb_Consume_no_overdraft [OF assms(1,2), of now "snd (tb_Consume now c b)"]
  by (auto simp: tb_inv_Consume tb_inv_Charge prod_eq_iff)

lemma limiter_balance_invariant_witness:
  "fst (tb_Consume (ex_time 0) (Fin 60) ex_bucket) \<and>
   tb_tokens (snd (tb_Consume (ex_time 0) (Fin 60) ex_bucket)) = Fin 40 \<and>
   tb_inv (snd (tb_Consume (ex_time 0) (Fin 60) ex_bucket))"
  using limiter_balance_invariant [of ex_bucket "Fin 60" "ex_time 0"] ex_bucket_inv
  by (simp add: ex_consume ex_spent_bucket_def)

text \<open>
  C22. A client that waits is served. When the exact balance plus the credit for the elapsed
  time covers a cost, and the cost does not exceed the capacity, the next \<open>Consume\<close> grants it:
  rounding never turns a covered request down.
\<close>

theorem limiter_grants_when_covered:
  assumes "tb_inv b" "tb_tokens b = Fin t" "tb_credit now b = Fin x"
    and "f64_ok (Fin y)" "f64_le (Fin y) (tb_capacity b)" "y \<le> t + x"
  shows "fst (tb_Consume now (Fin y) b)"
proof -
  have "f64_le (rnd y) (rnd (t + x))" using assms(6) by (rule rnd_mono)
  then have "f64_le (Fin y) (f64_add (tb_tokens b) (tb_credit now b))"
    using assms(2,3,4) by (simp add: rnd_exact del: f64_ok.simps)
  then have "f64_le (Fin y) (tb_tokens (tb_refill now b))"
    unfolding tb_refill_tokens using assms(5) by (intro f64_min_ge)
  then have "\<not> f64_less (tb_tokens (tb_refill now b)) (Fin y)"
    by (cases "tb_tokens (tb_refill now b)") (auto simp: f64_less_def)
  then show ?thesis by (simp add: tb_Consume_def Let_def)
qed

lemma limiter_grants_when_covered_witness:
  "\<not> fst (tb_Consume (ex_time 2) (Fin 60) ex_spent_bucket) \<and>
   fst (tb_Consume (ex_time 2) (Fin 56) ex_spent_bucket)"
proof -
  have inv: "tb_inv ex_spent_bucket"
    using limiter_balance_invariant_witness by (simp add: ex_consume)
  have c: "tb_credit (ex_time 2) ex_spent_bucket = Fin 16" "tb_tokens ex_spent_bucket = Fin 40"
    "tb_capacity ex_spent_bucket = Fin 100"
    using ex_elapsed(2) by (simp_all add: tb_credit_def ex_spent_bucket_def ex_bucket_def)
  show ?thesis
    using limiter_grants_when_covered [OF inv c(2,1), of 56] c(3)
    by (simp add: ex_consume)
qed

end
