(* ===== verification/Engine_Cgo.thy ===== *)
theory Engine_Cgo
  imports Go_Std
begin

text \<open>
  \<open>server/engine_cgo.go\<close>: the cgo wrapper around the storage engine. The engine itself (the
  C library behind \<open>fredb_c.h\<close>) is not part of the repository: its functions are the record
  \<open>fredb_api\<close>, a parameter of every definition that calls it. \<open>'h\<close> is the type of engine
  handles (a null handle is \<open>None\<close>), \<open>'w\<close> everything the engine keeps, in memory and in the
  files of its directories. A Go \<open>error\<close> is represented by its text. The outer option of a
  result is \<open>None\<close> when the Go code panics.
\<close>

unbundle bit_operations_syntax

section \<open>The engine's C interface\<close>

record ('h, 'w) fredb_api =
  fredb_open :: "string \<Rightarrow> 'w \<Rightarrow> 'h option \<times> 'w"
  fredb_close :: "'h \<Rightarrow> 'w \<Rightarrow> 'w"
  fredb_get :: "'h \<Rightarrow> string \<Rightarrow> 'w \<Rightarrow> int \<times> string \<times> 'w"
  fredb_put :: "'h \<Rightarrow> string \<Rightarrow> string \<Rightarrow> 'w \<Rightarrow> int \<times> 'w"
  fredb_remove :: "'h \<Rightarrow> string \<Rightarrow> 'w \<Rightarrow> int \<times> 'w"
  fredb_total_size :: "'h \<Rightarrow> 'w \<Rightarrow> int \<times> 'w"
  fredb_get_range :: "'h \<Rightarrow> string \<Rightarrow> string \<Rightarrow> 'w \<Rightarrow> int \<times> byte list \<times> 'w"
  fredb_last_error :: "'w \<Rightarrow> string"
  fredb_dir_removed :: "bool \<Rightarrow> string \<Rightarrow> 'w \<Rightarrow> 'w"

text \<open>
  \<open>fredb_dir_removed\<close> is not a C function: it is what the removal of a directory by
  \<open>os.RemoveAll\<close> does to the engine files in it; the flag tells whether the removal went
  through or stopped half-way with an error.
\<close>

section \<open>Opening, closing, and the operations on one key\<close>

definition lastError :: "('h, 'w) fredb_api \<Rightarrow> 'w \<Rightarrow> string" where
  "lastError api w = fredb_last_error api w"

definition OpenCgoEngine ::
  "('h, 'w) fredb_api \<Rightarrow> string \<Rightarrow> 'w \<Rightarrow> (string + 'h) \<times> 'w" where
  "OpenCgoEngine api dir w =
     (case fredb_open api dir w of
        (None, w') \<Rightarrow> (Inl (lastError api w'), w')
      | (Some h, w') \<Rightarrow> (Inr h, w'))"

definition cgo_Close :: "('h, 'w) fredb_api \<Rightarrow> 'h \<Rightarrow> 'w \<Rightarrow> 'w" where
  "cgo_Close api h w = fredb_close api h w"

text \<open>\<open>C.int(n)\<close> keeps the low 32 bits as a signed number.\<close>

definition C_int :: "int \<Rightarrow> int" where
  "C_int n = (n + 2 ^ 31) mod 2 ^ 32 - 2 ^ 31"

text \<open>\<open>C.GoStringN\<close> copies \<open>n\<close> bytes; a negative length is a run-time failure.\<close>

definition GoStringN :: "string \<Rightarrow> int \<Rightarrow> string option" where
  "GoStringN out n = (if 0 \<le> n \<and> nat n \<le> length out then Some (take (nat n) out) else None)"

definition cgo_Get ::
  "('h, 'w) fredb_api \<Rightarrow> 'h \<Rightarrow> string \<Rightarrow> 'w \<Rightarrow> (string + string \<times> bool) option \<times> 'w" where
  "cgo_Get api h key w =
     (case fredb_get api h key w of
        (rc, out, w') \<Rightarrow>
          if rc < 0 then (Some (Inl (lastError api w')), w')
          else if rc = 0 then (Some (Inr ('''', False)), w')
          else (map_option (\<lambda>s. Inr (s, True)) (GoStringN out (C_int (int (length out)))), w'))"

definition cgo_Put ::
  "('h, 'w) fredb_api \<Rightarrow> 'h \<Rightarrow> string \<Rightarrow> string \<Rightarrow> 'w \<Rightarrow> (string + unit) \<times> 'w" where
  "cgo_Put api h key val w =
     (case fredb_put api h key val w of
        (rc, w') \<Rightarrow> if rc \<noteq> 0 then (Inl (lastError api w'), w') else (Inr (), w'))"

definition cgo_Delete ::
  "('h, 'w) fredb_api \<Rightarrow> 'h \<Rightarrow> string \<Rightarrow> 'w \<Rightarrow> (string + unit) \<times> 'w" where
  "cgo_Delete api h key w =
     (case fredb_remove api h key w of
        (rc, w') \<Rightarrow> if rc \<noteq> 0 then (Inl (lastError api w'), w') else (Inr (), w'))"

definition cgo_TotalSize ::
  "('h, 'w) fredb_api \<Rightarrow> 'h \<Rightarrow> 'w \<Rightarrow> (string + 64 word) \<times> 'w" where
  "cgo_TotalSize api h w =
     (case fredb_total_size api h w of
        (sz, w') \<Rightarrow>
          if sz < 0 then (Inl (lastError api w'), w') else (Inr (word_of_int sz), w'))"

section \<open>Decoding a range buffer\<close>

record kv =
  kv_Key :: string
  kv_Value :: string

text \<open>\<open>le32\<close> indexes four bytes: on a shorter buffer the index panics.\<close>

fun le32 :: "byte list \<Rightarrow> 32 word option" where
  "le32 (b0 # b1 # b2 # b3 # bs) =
     Some (ucast b0 OR push_bit 8 (ucast b1) OR push_bit 16 (ucast b2) OR push_bit 24 (ucast b3))"
| "le32 bs = None"

definition string_of_bytes :: "byte list \<Rightarrow> string" where
  "string_of_bytes bs = map (\<lambda>b. char_of (unat b)) bs"

definition bytes_of_string :: "string \<Rightarrow> byte list" where
  "bytes_of_string s = map (\<lambda>c. of_nat (of_char c)) s"

text \<open>
  One length-prefixed field. The test compares \<open>uint32(len(buf))\<close>, the length cut to 32 bits,
  with the announced length; the slice \<open>buf[:n]\<close> after it panics when \<open>n\<close> exceeds the real
  length (the capacity of the buffer is its length).
\<close>

definition decode_field ::
  "string \<Rightarrow> string \<Rightarrow> byte list \<Rightarrow> (string + string \<times> byte list) option" where
  "decode_field len_msg msg buf =
     (if length buf < 4 then Some (Inl len_msg)
      else case le32 buf of
        None \<Rightarrow> None
      | Some n \<Rightarrow>
          (let buf' = drop 4 buf in
           if (of_nat (length buf') :: 32 word) < n then Some (Inl msg)
           else if unat n \<le> length buf'
                then Some (Inr (string_of_bytes (take (unat n) buf'), drop (unat n) buf'))
                else None))"

text \<open>The loop \<open>for range count\<close>, with the pairs appended so far.\<close>

fun decode_pairs :: "nat \<Rightarrow> byte list \<Rightarrow> kv list \<Rightarrow> (string + kv list) option" where
  "decode_pairs 0 buf pairs = Some (Inr pairs)"
| "decode_pairs (Suc n) buf pairs =
     (case decode_field ''range buffer truncated (key length)'' ''range buffer truncated (key)'' buf of
        None \<Rightarrow> None
      | Some (Inl e) \<Rightarrow> Some (Inl e)
      | Some (Inr (key, buf1)) \<Rightarrow>
          (case decode_field ''range buffer truncated (value length)''
                  ''range buffer truncated (value)'' buf1 of
             None \<Rightarrow> None
           | Some (Inl e) \<Rightarrow> Some (Inl e)
           | Some (Inr (value, buf2)) \<Rightarrow>
               decode_pairs n buf2 (pairs @ [\<lparr>kv_Key = key, kv_Value = value\<rparr>])))"

definition decodeRangeBuf :: "byte list \<Rightarrow> (string + kv list) option" where
  "decodeRangeBuf buf =
     (if length buf < 4 then Some (Inl ''range buffer too short'')
      else case le32 buf of
        None \<Rightarrow> None
      | Some count \<Rightarrow> decode_pairs (unat count) (drop 4 buf) [])"

definition cgo_Range ::
  "('h, 'w) fredb_api \<Rightarrow> 'h \<Rightarrow> string \<Rightarrow> string \<Rightarrow> 'w \<Rightarrow> (string + kv list) option \<times> 'w" where
  "cgo_Range api h start end' w =
     (case fredb_get_range api h start end' w of
        (rc, out, w') \<Rightarrow>
          if rc \<noteq> 0 then (Some (Inl (lastError api w')), w')
          else (decodeRangeBuf out, w'))"

section \<open>No slice of the decoder is out of range\<close>

lemma le32_ex: "4 \<le> length buf \<Longrightarrow> \<exists>n. le32 buf = Some n"
  by (cases buf rule: le32.cases) auto

lemma uint32_len_guard:
  assumes "\<not> (of_nat k :: 32 word) < n"
  shows "unat n \<le> k"
proof -
  from assms have "unat n \<le> unat (of_nat k :: 32 word)" by (simp add: word_less_nat_alt)
  also have "\<dots> \<le> k" by (simp add: unat_of_nat)
  finally show ?thesis .
qed

lemma decode_field_no_panic: "decode_field m1 m2 buf \<noteq> None"
  using le32_ex [of buf] uint32_len_guard
  by (auto simp: decode_field_def Let_def not_less)

lemma decode_pairs_no_panic: "decode_pairs n buf acc \<noteq> None"
  by (induction n arbitrary: buf acc)
     (auto simp: decode_field_no_panic simp del: not_None_eq split: option.splits sum.splits)

lemma decodeRangeBuf_total: "decodeRangeBuf buf \<noteq> None"
  using le32_ex [of buf] decode_pairs_no_panic
  by (auto simp: decodeRangeBuf_def not_less)

section \<open>The wire format and the round trip\<close>

definition le32_bytes :: "32 word \<Rightarrow> byte list" where
  "le32_bytes n = [ucast n, ucast (drop_bit 8 n), ucast (drop_bit 16 n), ucast (drop_bit 24 n)]"

definition encode_field :: "string \<Rightarrow> byte list" where
  "encode_field s = le32_bytes (of_nat (length s)) @ bytes_of_string s"

definition encode_pairs :: "kv list \<Rightarrow> byte list" where
  "encode_pairs kvs = concat (map (\<lambda>p. encode_field (kv_Key p) @ encode_field (kv_Value p)) kvs)"

definition encodeRangeBuf :: "kv list \<Rightarrow> byte list" where
  "encodeRangeBuf kvs = le32_bytes (of_nat (length kvs)) @ encode_pairs kvs"

lemma le32_le32_bytes: "le32 (le32_bytes n @ bs) = Some n"
proof -
  have "ucast (ucast n :: byte) OR push_bit 8 (ucast (ucast (drop_bit 8 n) :: byte)) OR
      push_bit 16 (ucast (ucast (drop_bit 16 n) :: byte)) OR
      push_bit 24 (ucast (ucast (drop_bit 24 n) :: byte)) = n"
  proof (rule bit_word_eqI)
    fix i
    assume "i < LENGTH(32)"
    then consider "i < 8" | "8 \<le> i \<and> i < 16" | "16 \<le> i \<and> i < 24" | "24 \<le> i \<and> i < 32"
      by (simp, linarith)
    then show "bit (ucast (ucast n :: byte) OR push_bit 8 (ucast (ucast (drop_bit 8 n) :: byte)) OR
      push_bit 16 (ucast (ucast (drop_bit 16 n) :: byte)) OR
      push_bit 24 (ucast (ucast (drop_bit 24 n) :: byte)) :: 32 word) i \<longleftrightarrow> bit n i"
      by cases (auto simp: bit_or_iff bit_push_bit_iff bit_unsigned_iff bit_drop_bit_eq)
  qed
  then show ?thesis by (simp add: le32_bytes_def)
qed

lemma length_le32_bytes [simp]: "length (le32_bytes n) = 4"
  by (simp add: le32_bytes_def)

lemma string_of_bytes_of_string [simp]: "string_of_bytes (bytes_of_string s) = s"
proof -
  have "char_of (unat (of_nat (of_char c) :: byte)) = c" for c :: char
  proof -
    have "(of_char c :: nat) < 256" by simp
    then show ?thesis by (simp add: unat_of_nat)
  qed
  then show ?thesis by (simp add: string_of_bytes_def bytes_of_string_def o_def)
qed

lemma length_bytes_of_string [simp]: "length (bytes_of_string s) = length s"
  by (simp add: bytes_of_string_def)

lemma length_string_of_bytes [simp]: "length (string_of_bytes bs) = length bs"
  by (simp add: string_of_bytes_def)

lemma drop_le32_bytes [simp]: "drop 4 (le32_bytes n @ bs) = bs"
  by (simp add: le32_bytes_def)

lemma unat_of_nat_32: "k < 2 ^ 32 \<Longrightarrow> unat (of_nat k :: 32 word) = k"
  by (simp add: unat_of_nat)

lemma length_encode_field [simp]: "length (encode_field s) = 4 + length s"
  by (simp add: encode_field_def)

text \<open>One encoded field at the head of a buffer shorter than \<open>2^32\<close> is read back.\<close>

lemma decode_field_encode:
  assumes "length s + length bs < 2 ^ 32"
  shows "decode_field m1 m2 (encode_field s @ bs) = Some (Inr (s, bs))"
proof -
  have l: "unat (of_nat (length s) :: 32 word) = length s"
    "unat (of_nat (length s + length bs) :: 32 word) = length s + length bs"
    using assms by (simp_all add: unat_of_nat_32 del: of_nat_add)
  then have "\<not> (of_nat (length s + length bs) :: 32 word) < of_nat (length s)"
    by (simp add: word_less_nat_alt)
  then show ?thesis
    using l(1) by (simp add: decode_field_def encode_field_def le32_le32_bytes Let_def)
qed

lemma decode_pairs_encode:
  "length (encode_pairs kvs @ bs) < 2 ^ 32 \<Longrightarrow>
   decode_pairs (length kvs) (encode_pairs kvs @ bs) acc = Some (Inr (acc @ kvs))"
proof (induction kvs arbitrary: acc)
  case Nil
  then show ?case by (simp add: encode_pairs_def)
next
  case (Cons p kvs)
  have buf: "encode_pairs (p # kvs) @ bs =
      encode_field (kv_Key p) @ encode_field (kv_Value p) @ encode_pairs kvs @ bs"
    by (simp add: encode_pairs_def)
  have len: "length (encode_field (kv_Key p) @ encode_field (kv_Value p) @ encode_pairs kvs @ bs)
      < 2 ^ 32"
    using Cons.prems unfolding buf by simp
  have p: "\<lparr>kv_Key = kv_Key p, kv_Value = kv_Value p\<rparr> = p" by simp
  show ?case
    unfolding buf using len Cons.IH [of "acc @ [p]"]
    by (simp add: decode_field_encode p)
qed

lemma decodeRangeBuf_encode:
  assumes "length (encodeRangeBuf kvs @ bs) < 2 ^ 32" "length kvs < 2 ^ 32"
  shows "decodeRangeBuf (encodeRangeBuf kvs @ bs) = Some (Inr kvs)"
  using assms decode_pairs_encode [of kvs bs "[]"]
  by (simp add: decodeRangeBuf_def encodeRangeBuf_def le32_le32_bytes unat_of_nat_32)

text \<open>Conversely, what decodes is the encoding of the result, followed by ignored bytes.\<close>

lemma le32_bytes_le32:
  assumes "le32 buf = Some n"
  shows "buf = le32_bytes n @ drop 4 buf"
proof (cases buf rule: le32.cases)
  case (1 b0 b1 b2 b3 bs)
  with assms have n: "n = ucast b0 OR push_bit 8 (ucast b1) OR push_bit 16 (ucast b2)
      OR push_bit 24 (ucast b3)" by simp
  have "ucast n = b0" "ucast (drop_bit 8 n) = b1" "ucast (drop_bit 16 n) = b2"
    "ucast (drop_bit 24 n) = b3"
    unfolding n
    by (rule bit_word_eqI;
        auto simp: bit_or_iff bit_push_bit_iff bit_unsigned_iff bit_drop_bit_eq
             dest: bit_imp_le_length)+
  then show ?thesis using 1 by (simp add: le32_bytes_def)
qed (use assms in simp_all)

lemma bytes_of_string_of_bytes [simp]: "bytes_of_string (string_of_bytes bs) = bs"
proof -
  have "of_nat (of_char (char_of (unat b) :: char)) = b" for b :: byte
  proof -
    have "unat b < 256" using unsigned_less [of b] by simp
    then show ?thesis by (simp add: of_char_of)
  qed
  then show ?thesis by (simp add: string_of_bytes_def bytes_of_string_def o_def)
qed

lemma decode_field_sound:
  assumes "decode_field m1 m2 buf = Some (Inr (s, bs))"
  shows "buf = encode_field s @ bs"
proof -
  from assms obtain n where n: "le32 buf = Some n" and
    r: "unat n \<le> length (drop 4 buf)" "s = string_of_bytes (take (unat n) (drop 4 buf))"
      "bs = drop (unat n) (drop 4 buf)"
    by (auto simp: decode_field_def Let_def split: if_splits option.splits)
  have "length s = unat n" using r by simp
  then have "(of_nat (length s) :: 32 word) = n" by simp
  then have "encode_field s @ bs = le32_bytes n @ drop 4 buf"
    using append_take_drop_id [of "unat n" "drop 4 buf"] unfolding encode_field_def r(2,3)
    by (simp del: append_take_drop_id)
  then show ?thesis using le32_bytes_le32 [OF n] by simp
qed

lemma decode_pairs_sound:
  "decode_pairs n buf acc = Some (Inr kvs) \<Longrightarrow>
   \<exists>ps bs. kvs = acc @ ps \<and> length ps = n \<and> buf = encode_pairs ps @ bs"
proof (induction n arbitrary: buf acc)
  case 0
  then show ?case by (simp add: encode_pairs_def)
next
  case (Suc n)
  from Suc.prems obtain key buf1 val buf2 where
    f: "decode_field ''range buffer truncated (key length)'' ''range buffer truncated (key)'' buf
          = Some (Inr (key, buf1))"
       "decode_field ''range buffer truncated (value length)''
          ''range buffer truncated (value)'' buf1 = Some (Inr (val, buf2))" and
    rest: "decode_pairs n buf2 (acc @ [\<lparr>kv_Key = key, kv_Value = val\<rparr>]) = Some (Inr kvs)"
    by (auto split: option.splits sum.splits)
  from Suc.IH [OF rest] obtain ps bs where
    "kvs = acc @ \<lparr>kv_Key = key, kv_Value = val\<rparr> # ps" "length ps = n" "buf2 = encode_pairs ps @ bs"
    by auto
  with f [THEN decode_field_sound] show ?case
    by (intro exI [of _ "\<lparr>kv_Key = key, kv_Value = val\<rparr> # ps"] exI [of _ bs])
       (simp add: encode_pairs_def)
qed

lemma decodeRangeBuf_sound:
  assumes "decodeRangeBuf buf = Some (Inr kvs)"
  shows "\<exists>bs. buf = encodeRangeBuf kvs @ bs"
proof -
  from assms obtain n where n: "le32 buf = Some n" and
    d: "decode_pairs (unat n) (drop 4 buf) [] = Some (Inr kvs)"
    by (auto simp: decodeRangeBuf_def split: if_splits option.splits)
  from decode_pairs_sound [OF d] obtain bs where
    "length kvs = unat n" "drop 4 buf = encode_pairs kvs @ bs" by auto
  moreover from this(1) have "(of_nat (length kvs) :: 32 word) = n" by simp
  ultimately show ?thesis using le32_bytes_le32 [OF n] by (auto simp: encodeRangeBuf_def)
qed

text \<open>The bytes of the decoded pairs are bytes of the buffer.\<close>

definition kvs_total :: "kv list \<Rightarrow> int" where
  "kvs_total kvs = foldl (\<lambda>total p. total + int (length (kv_Key p)) + int (length (kv_Value p))) 0 kvs"

lemma kvs_total_sum:
  "kvs_total kvs = (\<Sum>p \<leftarrow> kvs. int (length (kv_Key p)) + int (length (kv_Value p)))"
proof -
  have "foldl (\<lambda>total p. total + int (length (kv_Key p)) + int (length (kv_Value p))) a kvs =
      a + (\<Sum>p \<leftarrow> kvs. int (length (kv_Key p)) + int (length (kv_Value p)))" for a
    by (induction kvs arbitrary: a) simp_all
  then show ?thesis by (simp add: kvs_total_def)
qed

lemma kvs_total_le_buf:
  assumes "decodeRangeBuf buf = Some (Inr kvs)"
  shows "0 \<le> kvs_total kvs" "kvs_total kvs \<le> int (length buf)"
proof -
  have "int (length (encode_pairs kvs)) =
      kvs_total kvs + 8 * int (length kvs)"
    by (induction kvs) (simp_all add: encode_pairs_def kvs_total_sum)
  with decodeRangeBuf_sound [OF assms] show "kvs_total kvs \<le> int (length buf)"
    by (auto simp: encodeRangeBuf_def)
  show "0 \<le> kvs_total kvs" unfolding kvs_total_sum by (intro sum_list_nonneg) auto
qed

lemma decode_field_len:
  assumes "decode_field m1 m2 buf = Some (Inr (s, bs))"
  shows "int (length s) < 2 ^ 32"
proof -
  from assms obtain n :: "32 word" where "length s = unat n"
    by (auto simp: decode_field_def Let_def split: if_splits option.splits)
  then show ?thesis using unsigned_less [of n] by simp
qed

lemma kvs_total_append:
  "kvs_total (ps @ [p]) = kvs_total ps + int (length (kv_Key p)) + int (length (kv_Value p))"
  by (simp add: kvs_total_sum)

lemma decode_pairs_total:
  "decode_pairs n buf acc = Some (Inr kvs) \<Longrightarrow> kvs_total kvs \<le> kvs_total acc + 2 ^ 33 * int n"
proof (induction n arbitrary: buf acc)
  case 0
  then show ?case by simp
next
  case (Suc n)
  from Suc.prems obtain key buf1 val buf2 where
    f: "decode_field ''range buffer truncated (key length)'' ''range buffer truncated (key)'' buf
          = Some (Inr (key, buf1))"
       "decode_field ''range buffer truncated (value length)''
          ''range buffer truncated (value)'' buf1 = Some (Inr (val, buf2))" and
    rest: "decode_pairs n buf2 (acc @ [\<lparr>kv_Key = key, kv_Value = val\<rparr>]) = Some (Inr kvs)"
    by (auto split: option.splits sum.splits)
  from Suc.IH [OF rest] f [THEN decode_field_len] show ?case by (simp add: kvs_total_append)
qed

lemma decodeRangeBuf_total_bound:
  assumes "decodeRangeBuf buf = Some (Inr kvs)"
  shows "kvs_total kvs \<le> 2 ^ 66"
proof -
  from assms obtain n :: "32 word" where "decode_pairs (unat n) (drop 4 buf) [] = Some (Inr kvs)"
    by (auto simp: decodeRangeBuf_def split: if_splits option.splits)
  moreover have "int (unat n) < 2 ^ 32" using unsigned_less [of n, where 'a = int] by simp
  ultimately show ?thesis using decode_pairs_total [of "unat n" "drop 4 buf" "[]" kvs]
    by (simp add: kvs_total_sum)
qed

section \<open>Values longer than the conversions allow\<close>

lemma C_int_small: "0 \<le> n \<Longrightarrow> n < 2 ^ 31 \<Longrightarrow> C_int n = n"
  by (simp add: C_int_def)

lemma C_int_less: "C_int n < 2 ^ 31"
proof -
  have "(n + 2 ^ 31) mod 2 ^ 32 < 2 ^ 32" by simp
  then show ?thesis by (simp add: C_int_def)
qed

lemma GoStringN_len: "GoStringN out n = Some s \<Longrightarrow> int (length s) = n"
  by (auto simp: GoStringN_def split: if_splits)

lemma C_int_le: "0 \<le> n \<Longrightarrow> C_int n \<le> n"
proof -
  assume n: "0 \<le> n"
  have "(n + 2 ^ 31) mod 2 ^ 32 \<le> n + 2 ^ 31" using n by (intro zmod_le_nonneg_dividend) simp
  then show ?thesis by (simp add: C_int_def)
qed

lemma GoStringN_all: "length s < 2 ^ 31 \<Longrightarrow> GoStringN s (C_int (int (length s))) = Some s"
  by (simp add: GoStringN_def C_int_small)

section \<open>Properties\<close>

text \<open>The texts of the decoder's errors.\<close>

definition range_errors :: "string set" where
  "range_errors = {''range buffer too short'', ''range buffer truncated (key length)'',
     ''range buffer truncated (key)'', ''range buffer truncated (value length)'',
     ''range buffer truncated (value)''}"

lemma decode_field_error: "decode_field m1 m2 buf = Some (Inl e) \<Longrightarrow> e = m1 \<or> e = m2"
  by (auto simp: decode_field_def Let_def split: if_splits option.splits)

lemma decode_pairs_error: "decode_pairs n buf acc = Some (Inl e) \<Longrightarrow> e \<in> range_errors"
  by (induction n arbitrary: buf acc)
     (auto simp: range_errors_def split: option.splits sum.splits dest!: decode_field_error)

lemma length_encode_pairs: "length kvs \<le> length (encode_pairs kvs)"
  by (induction kvs) (simp_all add: encode_pairs_def)

lemma length_encodeRangeBuf: "length kvs \<le> length (encodeRangeBuf kvs)"
  using length_encode_pairs [of kvs] by (simp add: encodeRangeBuf_def)

text \<open>
  C23. The range decoder is memory safe: on every byte string, of any length and content, each
  index and slice expression of \<open>decodeRangeBuf\<close> is in bounds, and the result is a list of
  pairs or one of its five errors. (The memory that \<open>make\<close> reserves for the announced number
  of pairs is not modelled.)
\<close>

theorem range_decoder_never_panics:
  "\<exists>r. decodeRangeBuf buf = Some r \<and> (case r of Inl e \<Rightarrow> e \<in> range_errors | Inr kvs \<Rightarrow> length kvs < 2 ^ 32)"
proof -
  obtain r where r: "decodeRangeBuf buf = Some r" using decodeRangeBuf_total by blast
  show ?thesis
  proof (cases r)
    case (Inl e)
    with r have "e = ''range buffer too short'' \<or> (\<exists>n. decode_pairs n (drop 4 buf) [] = Some (Inl e))"
      by (auto simp: decodeRangeBuf_def split: if_splits option.splits)
    then have "e \<in> range_errors"
      by (elim disjE exE) (simp add: range_errors_def, rule decode_pairs_error)
    with r Inl show ?thesis by simp
  next
    case (Inr kvs)
    with r obtain n :: "32 word" where "decode_pairs (unat n) (drop 4 buf) [] = Some (Inr kvs)"
      by (auto simp: decodeRangeBuf_def split: if_splits option.splits)
    from decode_pairs_sound [OF this] have "length kvs = unat n" by auto
    then have "length kvs < 2 ^ 32" using unsigned_less [of n, where 'a = nat] by simp
    with r Inr show ?thesis by simp
  qed
qed

text \<open>
  C15. The range decoder inverts the wire format: a buffer below 4 GiB decodes to a list of
  pairs exactly when it is the encoding of that list, possibly followed by ignored bytes.
\<close>

theorem range_decoder_exact:
  assumes "length buf < 2 ^ 32"
  shows "decodeRangeBuf buf = Some (Inr kvs) \<longleftrightarrow> (\<exists>bs. buf = encodeRangeBuf kvs @ bs)"
proof
  show "decodeRangeBuf buf = Some (Inr kvs) \<Longrightarrow> \<exists>bs. buf = encodeRangeBuf kvs @ bs"
    by (rule decodeRangeBuf_sound)
  assume "\<exists>bs. buf = encodeRangeBuf kvs @ bs"
  then obtain bs where b: "buf = encodeRangeBuf kvs @ bs" ..
  have "length kvs < 2 ^ 32" using assms length_encodeRangeBuf [of kvs] by (simp add: b)
  then show "decodeRangeBuf buf = Some (Inr kvs)"
    using decodeRangeBuf_encode [of kvs bs] assms by (simp add: b)
qed

lemma range_decoder_exact_witness:
  "decodeRangeBuf [1, 0, 0, 0, 1, 0, 0, 0, 97, 2, 0, 0, 0, 98, 99] =
     Some (Inr [\<lparr>kv_Key = ''a'', kv_Value = ''bc''\<rparr>])"
  using range_decoder_exact [of "[1, 0, 0, 0, 1, 0, 0, 0, 97, 2, 0, 0, 0, 98, 99]"
      "[\<lparr>kv_Key = ''a'', kv_Value = ''bc''\<rparr>]"]
  by (simp add: encodeRangeBuf_def encode_pairs_def encode_field_def le32_bytes_def bytes_of_string_def)

text \<open>
  C24. A truncated range buffer is never accepted: cutting any bytes off the end of an encoding
  below 4 GiB makes the decoder report an error, never a shorter list.
\<close>

theorem range_decoder_rejects_truncation:
  assumes "length (encodeRangeBuf kvs) < 2 ^ 32" "n < length (encodeRangeBuf kvs)"
  shows "\<exists>e. decodeRangeBuf (take n (encodeRangeBuf kvs)) = Some (Inl e)"
proof (rule ccontr)
  assume "\<nexists>e. decodeRangeBuf (take n (encodeRangeBuf kvs)) = Some (Inl e)"
  then obtain kvs' where d: "decodeRangeBuf (take n (encodeRangeBuf kvs)) = Some (Inr kvs')"
    using decodeRangeBuf_total by (metis old.sum.exhaust not_None_eq)
  from decodeRangeBuf_sound [OF d] obtain bs where
    "take n (encodeRangeBuf kvs) = encodeRangeBuf kvs' @ bs" ..
  then have e: "encodeRangeBuf kvs = encodeRangeBuf kvs' @ bs @ drop n (encodeRangeBuf kvs)"
    by (metis append.assoc append_take_drop_id)
  then have "length (encodeRangeBuf kvs) = length (encodeRangeBuf kvs' @ bs @ drop n (encodeRangeBuf kvs))"
    by (rule arg_cong)
  then have "length (encodeRangeBuf kvs') \<le> length (encodeRangeBuf kvs)" by simp
  then have l: "length kvs < 2 ^ 32" "length kvs' < 2 ^ 32"
    using assms(1) length_encodeRangeBuf [of kvs] length_encodeRangeBuf [of kvs'] by simp_all
  have "decodeRangeBuf (encodeRangeBuf kvs) = Some (Inr kvs')"
    using decodeRangeBuf_encode [of kvs' "bs @ drop n (encodeRangeBuf kvs)"] l(2) assms(1)
    unfolding e [symmetric] by blast
  moreover have "decodeRangeBuf (encodeRangeBuf kvs) = Some (Inr kvs)"
    using decodeRangeBuf_encode [of kvs "[]"] l(1) assms(1) by simp
  ultimately have "kvs' = kvs" by simp
  then have "encodeRangeBuf kvs @ bs @ drop n (encodeRangeBuf kvs) = encodeRangeBuf kvs @ []"
    using e by (simp only: append_Nil2)
  then have "drop n (encodeRangeBuf kvs) = []" by (simp only: same_append_eq append_is_Nil_conv)
  then show False using assms(2) by simp
qed

lemma range_decoder_rejects_truncation_witness:
  "\<exists>e. decodeRangeBuf (take 9 (encodeRangeBuf [\<lparr>kv_Key = ''a'', kv_Value = ''bc''\<rparr>])) = Some (Inl e)"
  by (rule range_decoder_rejects_truncation) (simp_all add: encodeRangeBuf_def encode_pairs_def)

text \<open>
  A stored value of 2 GiB or more is a run-time failure of \<open>Get\<close>, not a value: its length
  does not fit the C \<open>int\<close> the conversion takes, and the negative length panics.
\<close>

lemma long_value_panics:
  assumes "fredb_get api h key w = (rc, out, w')" "0 < rc"
    and "2 ^ 31 \<le> length out" "length out < 2 ^ 32"
  shows "cgo_Get api h key w = (None, w')"
proof -
  have l: "2 ^ 31 \<le> int (length out)" "int (length out) < 2 ^ 32" using assms(3,4) by simp_all
  have "(int (length out) + 2 ^ 31) mod 2 ^ 32 = (int (length out) - 2 ^ 31 + 2 ^ 32) mod 2 ^ 32"
    by (rule arg_cong [of _ _ "\<lambda>x. x mod 2 ^ 32"]) simp
  also have "\<dots> = (int (length out) - 2 ^ 31) mod 2 ^ 32" by (rule mod_add_self2)
  also have "\<dots> = int (length out) - 2 ^ 31" using l by (intro mod_pos_pos_trivial) simp_all
  finally have "C_int (int (length out)) < 0" using l by (simp add: C_int_def)
  then show ?thesis using assms(1,2) by (simp add: cgo_Get_def GoStringN_def)
qed

definition long_value :: string where
  "long_value = replicate (2 ^ 31) CHR ''x''"

lemma length_long_value: "length long_value = 2 ^ 31"
  unfolding long_value_def by (rule length_replicate)

definition long_value_api :: "(unit, unit) fredb_api" where
  "long_value_api =
     \<lparr>fredb_open = (\<lambda>d w. (Some (), w)), fredb_close = (\<lambda>h w. w),
      fredb_get = (\<lambda>h k w. (1, long_value, w)), fredb_put = (\<lambda>h k v w. (0, w)),
      fredb_remove = (\<lambda>h k w. (0, w)), fredb_total_size = (\<lambda>h w. (2 ^ 31, w)),
      fredb_get_range = (\<lambda>h s e w. (0, [], w)), fredb_last_error = (\<lambda>w. ''''),
      fredb_dir_removed = (\<lambda>b d w. w)\<rparr>"

lemma long_value_panics_witness: "cgo_Get long_value_api () ''k'' () = (None, ())"
proof -
  have "fredb_get long_value_api () ''k'' () = (1, long_value, ())" by (simp add: long_value_api_def)
  then show ?thesis by (rule long_value_panics) (simp_all add: length_long_value)
qed

end
