(* ===== verification/Go_Path.thy ===== *)
theory Go_Path
  imports Go_Std
begin

text \<open>
  \<open>path/filepath\<close> on Unix: \<open>Clean\<close> resolves empty, \<open>.\<close> and \<open>..\<close> elements, \<open>Join\<close>
  cleans the concatenation. The lemmas show that tenant directories named by distinct
  plain names are distinct and do not lie inside one another.
\<close>

abbreviation (input) slash :: char where "slash \<equiv> CHR ''/''"
abbreviation (input) newline :: char where "newline \<equiv> CHR 0x0A"

section \<open>Clean and Join\<close>

text \<open>One element of the path, on the stack of elements kept so far (innermost first).\<close>

definition clean_step :: "bool \<Rightarrow> string list \<Rightarrow> string \<Rightarrow> string list" where
  "clean_step rooted st c =
     (if c = '''' \<or> c = ''.'' then st
      else if c = ''..'' then
        (case st of
           [] \<Rightarrow> if rooted then [] else [''..'']
         | t # ts \<Rightarrow> if t = ''..'' then ''..'' # st else ts)
      else c # st)"

definition path_rooted :: "string \<Rightarrow> bool" where
  "path_rooted p = (p \<noteq> [] \<and> hd p = slash)"

definition path_comps :: "string \<Rightarrow> string list" where
  "path_comps p = rev (foldl (clean_step (path_rooted p)) [] (split_on slash p))"

definition path_render :: "bool \<Rightarrow> string list \<Rightarrow> string" where
  "path_render rooted cs =
     (if rooted then slash # join_with slash cs
      else if cs = [] then ''.'' else join_with slash cs)"

definition path_Clean :: "string \<Rightarrow> string" where
  "path_Clean p = (if p = '''' then ''.'' else path_render (path_rooted p) (path_comps p))"

definition path_Join :: "string \<Rightarrow> string \<Rightarrow> string" where
  "path_Join a b =
     (if a \<noteq> '''' then path_Clean (a @ slash # b)
      else if b \<noteq> '''' then path_Clean b else '''')"

section \<open>Joining a plain name\<close>

text \<open>A plain name is one that \<open>Clean\<close> keeps as a single element.\<close>

definition plain_name :: "string \<Rightarrow> bool" where
  "plain_name k = (k \<noteq> '''' \<and> k \<noteq> ''.'' \<and> k \<noteq> ''..'' \<and> slash \<notin> set k)"

lemma clean_step_plain: "plain_name k \<Longrightarrow> clean_step r st k = k # st"
  by (simp add: clean_step_def plain_name_def)

lemma path_rooted_append [simp]: "a \<noteq> [] \<Longrightarrow> path_rooted (a @ b) = path_rooted a"
  by (simp add: path_rooted_def)

lemma path_rooted_plain: "plain_name k \<Longrightarrow> \<not> path_rooted k"
  by (cases k) (auto simp: plain_name_def path_rooted_def)

lemma path_comps_append_plain:
  "a \<noteq> [] \<Longrightarrow> plain_name k \<Longrightarrow> path_comps (a @ slash # k) = path_comps a @ [k]"
  by (simp add: path_comps_def split_on_append split_on_free clean_step_plain)
     (simp add: plain_name_def split_on_free clean_step_def)

definition join_comps :: "string \<Rightarrow> string list" where
  "join_comps rt = (if rt = '''' then [] else path_comps rt)"

lemma path_Join_plain:
  assumes "plain_name k"
  shows "path_Join rt k = path_render (path_rooted rt) (join_comps rt @ [k])"
proof (cases "rt = ''''")
  case True
  have "path_comps k = [k]"
    using assms path_rooted_plain [OF assms]
    by (simp add: path_comps_def plain_name_def split_on_free clean_step_def)
  moreover have "k \<noteq> []" using assms by (simp add: plain_name_def)
  ultimately show ?thesis
    using True path_rooted_plain [OF assms]
    by (simp add: path_Join_def path_Clean_def join_comps_def path_rooted_def)
next
  case False
  then show ?thesis
    using assms
    by (simp add: path_Join_def path_Clean_def path_comps_append_plain join_comps_def)
qed

lemma clean_step_no_slash:
  "(\<forall>x \<in> set st. slash \<notin> set x) \<Longrightarrow> slash \<notin> set c \<Longrightarrow> x \<in> set (clean_step r st c) \<Longrightarrow> slash \<notin> set x"
  by (auto simp: clean_step_def split: if_splits list.splits)

lemma foldl_clean_no_slash:
  "(\<forall>x \<in> set st. slash \<notin> set x) \<Longrightarrow> (\<forall>x \<in> set cs. slash \<notin> set x) \<Longrightarrow>
   x \<in> set (foldl (clean_step r) st cs) \<Longrightarrow> slash \<notin> set x"
proof (induction cs arbitrary: st)
  case Nil
  then show ?case by simp
next
  case (Cons c cs)
  have "\<forall>x \<in> set (clean_step r st c). slash \<notin> set x"
    using Cons.prems clean_step_no_slash [of st c _ r] by auto
  from Cons.IH [OF this] Cons.prems show ?case by simp
qed

lemma join_comps_no_slash: "x \<in> set (join_comps rt) \<Longrightarrow> slash \<notin> set x"
  using foldl_clean_no_slash [of "[]" "split_on slash rt" x] split_on_elems [of _ slash rt]
  by (auto simp: join_comps_def path_comps_def split: if_splits)

text \<open>The directory part under which all tenant directories of a rt lie.\<close>

definition path_base :: "string \<Rightarrow> string" where
  "path_base rt =
     (if path_rooted rt
      then slash # concat (map (\<lambda>c. c @ [slash]) (join_comps rt))
      else concat (map (\<lambda>c. c @ [slash]) (join_comps rt)))"

lemma join_with_concat: "join_with slash (xs @ [k]) = concat (map (\<lambda>c. c @ [slash]) xs) @ k"
proof (induction xs)
  case Nil
  then show ?case by simp
next
  case (Cons x xs)
  then show ?case by (cases "xs @ [k]") simp_all
qed

lemma path_Join_base: "plain_name k \<Longrightarrow> path_Join rt k = path_base rt @ k"
  by (simp add: path_Join_plain path_render_def path_base_def join_with_concat)

lemma path_Join_inj:
  "plain_name k1 \<Longrightarrow> plain_name k2 \<Longrightarrow> path_Join rt k1 = path_Join rt k2 \<longleftrightarrow> k1 = k2"
  by (simp add: path_Join_base)

section \<open>Clean is idempotent\<close>

text \<open>The stacks \<open>Clean\<close> builds: \<open>..\<close> only at the bottom, and only in a relative path.\<close>

fun clean_ok :: "bool \<Rightarrow> string list \<Rightarrow> bool" where
  "clean_ok r [] = True"
| "clean_ok r (c # st) =
     (c \<noteq> '''' \<and> c \<noteq> ''.'' \<and> slash \<notin> set c \<and>
      (c = ''..'' \<longrightarrow> \<not> r \<and> (\<forall>x \<in> set st. x = ''..'')) \<and> clean_ok r st)"

lemma clean_step_ok: "clean_ok r st \<Longrightarrow> slash \<notin> set c \<Longrightarrow> clean_ok r (clean_step r st c)"
  by (cases st) (auto simp: clean_step_def)

lemma clean_fold_ok:
  "clean_ok r st \<Longrightarrow> (\<forall>c \<in> set cs. slash \<notin> set c) \<Longrightarrow> clean_ok r (foldl (clean_step r) st cs)"
  by (induction cs arbitrary: st) (simp_all add: clean_step_ok)

lemma clean_ok_comps: "clean_ok (path_rooted p) (rev (path_comps p))"
  by (simp add: path_comps_def clean_fold_ok split_on_elems)

lemma clean_step_push: "clean_ok r (c # st) \<Longrightarrow> clean_step r st c = c # st"
  by (cases "c = ''..''"; cases st) (simp_all add: clean_step_def)

lemma clean_fold_id: "clean_ok r st \<Longrightarrow> foldl (clean_step r) [] (rev st) = st"
proof (induction st)
  case Nil
  then show ?case by simp
next
  case (Cons c st)
  then have "clean_ok r st" by simp
  from Cons.IH [OF this] clean_step_push [OF Cons.prems] show ?case by simp
qed

lemma clean_ok_elems: "clean_ok r st \<Longrightarrow> x \<in> set st \<Longrightarrow> x \<noteq> '''' \<and> slash \<notin> set x"
  by (induction st) auto

lemma join_with_Cons_ex: "\<exists>t. join_with c (x # xs) = x @ t"
  by (cases xs) auto

lemma join_with_hd:
  assumes "cs \<noteq> []" "\<forall>x \<in> set cs. x \<noteq> '''' \<and> slash \<notin> set x"
  shows "join_with slash cs \<noteq> ''''" "hd (join_with slash cs) \<noteq> slash"
proof -
  obtain y ys where cs: "cs = y # ys" using assms(1) by (cases cs) auto
  obtain t where t: "join_with slash cs = y @ t" using join_with_Cons_ex cs by blast
  have "y \<noteq> ''''" "hd y \<noteq> slash" using assms(2) cs by (cases y; auto)+
  then show "join_with slash cs \<noteq> ''''" "hd (join_with slash cs) \<noteq> slash" by (simp_all add: t)
qed

lemma path_render_inverse:
  assumes "clean_ok r (rev cs)"
  shows "path_rooted (path_render r cs) = r" "path_comps (path_render r cs) = cs"
proof -
  have el: "x \<noteq> '''' \<and> slash \<notin> set x" if "x \<in> set cs" for x
    using clean_ok_elems [OF assms] that by simp
  have sp: "split_on slash (join_with slash cs) = cs" if "cs \<noteq> []"
    using that el by (intro split_join) auto
  have hd: "hd (join_with slash cs) \<noteq> slash" if "cs \<noteq> []"
    using join_with_hd(2) [OF that] el by blast
  show rt: "path_rooted (path_render r cs) = r"
    using hd by (auto simp: path_render_def path_rooted_def)
  have fold: "foldl (clean_step r) [] cs = rev cs" using clean_fold_id [OF assms] by simp
  have nil: "clean_step True [] '''' = []" "clean_step False [] ''.'' = []"
    by (simp_all add: clean_step_def)
  have un: "path_comps (path_render r cs) =
      rev (foldl (clean_step r) [] (split_on slash (path_render r cs)))"
    by (simp add: path_comps_def rt)
  show "path_comps (path_render r cs) = cs"
  proof (cases "cs = []")
    case True
    then show ?thesis unfolding un by (cases r) (simp_all add: path_render_def nil)
  next
    case False
    then show ?thesis
      unfolding un using fold by (cases r) (simp_all add: path_render_def sp nil)
  qed
qed

lemma path_Clean_render: "p \<noteq> '''' \<Longrightarrow> path_Clean p = path_render (path_rooted p) (path_comps p)"
  by (simp add: path_Clean_def)

lemma path_render_nonempty: "clean_ok r (rev cs) \<Longrightarrow> path_render r cs \<noteq> ''''"
proof -
  assume ok: "clean_ok r (rev cs)"
  have "x \<noteq> ''''" if "x \<in> set cs" for x using clean_ok_elems [OF ok] that by simp
  have "slash \<notin> set x" if "x \<in> set cs" for x using clean_ok_elems [OF ok] that by simp
  with \<open>\<And>x. x \<in> set cs \<Longrightarrow> x \<noteq> ''''\<close> show ?thesis
    using join_with_hd(1) [of cs] by (cases "cs = []") (auto simp: path_render_def)
qed

lemma path_Clean_render_id: "clean_ok r (rev cs) \<Longrightarrow> path_Clean (path_render r cs) = path_render r cs"
  by (simp add: path_Clean_render path_render_nonempty path_render_inverse)

lemma path_Clean_idem: "path_Clean (path_Clean p) = path_Clean p"
proof (cases "p = ''''")
  case True
  then show ?thesis by (simp add: path_Clean_def path_rooted_def path_comps_def clean_step_def
        path_render_def)
next
  case False
  then show ?thesis by (simp add: path_Clean_render path_Clean_render_id clean_ok_comps)
qed

lemma path_Clean_Join:
  assumes "plain_name k"
  shows "path_Clean (path_Join rt k) = path_Join rt k" "path_Join rt k \<noteq> ''''"
proof -
  have "clean_ok (path_rooted rt) (rev (join_comps rt @ [k]))"
    using clean_ok_comps [of rt] assms by (auto simp: join_comps_def plain_name_def)
  then show "path_Clean (path_Join rt k) = path_Join rt k" "path_Join rt k \<noteq> ''''"
    by (simp_all add: path_Join_plain [OF assms] path_Clean_render_id path_render_nonempty)
qed

section \<open>Being inside a directory\<close>

definition path_under :: "string \<Rightarrow> string \<Rightarrow> bool" where
  "path_under d p = (p = d \<or> has_prefix p (d @ [slash]))"

lemma path_under_self [simp]: "path_under d d"
  by (simp add: path_under_def)

lemma path_under_sub: "path_under d (d @ slash # x)"
  by (simp add: path_under_def has_prefix_iff)

lemma plain_not_under:
  assumes "plain_name k1" "plain_name k2" "k1 \<noteq> k2"
  shows "\<not> path_under (path_Join rt k1) (path_Join rt k2 )"
    and "\<not> path_under (path_Join rt k1) (path_Join rt k2 @ slash # x)"
proof -
  have s: "slash \<notin> set k1" "slash \<notin> set k2" using assms by (auto simp: plain_name_def)
  show "\<not> path_under (path_Join rt k1) (path_Join rt k2)"
    using assms s by (auto simp: path_under_def has_prefix_iff path_Join_base)
  show "\<not> path_under (path_Join rt k1) (path_Join rt k2 @ slash # x)"
  proof
    assume "path_under (path_Join rt k1) (path_Join rt k2 @ slash # x)"
    then have "k2 @ slash # x = k1 \<or> (\<exists>t. k2 @ slash # x = k1 @ slash # t)"
      using assms by (auto simp: path_under_def has_prefix_iff path_Join_base)
    then show False
    proof
      assume "k2 @ slash # x = k1"
      then have "slash \<in> set k1" by auto
      then show False using s by simp
    next
      assume "\<exists>t. k2 @ slash # x = k1 @ slash # t"
      then obtain t where "split_on slash (k2 @ slash # x) = split_on slash (k1 @ slash # t)"
        by auto
      then show False using s assms(3) by (simp add: split_on_append_sep)
    qed
  qed
qed

section \<open>encoding/hex\<close>

definition hex_digit :: "nat \<Rightarrow> char" where
  "hex_digit n = ''0123456789abcdef'' ! n"

definition hex_EncodeToString :: "byte list \<Rightarrow> string" where
  "hex_EncodeToString bs =
     concat (map (\<lambda>b. [hex_digit (unat b div 16), hex_digit (unat b mod 16)]) bs)"

definition hex_chars :: "char set" where
  "hex_chars = set ''0123456789abcdef''"

lemma hex_digit_in: "n < 16 \<Longrightarrow> hex_digit n \<in> hex_chars"
  unfolding hex_digit_def hex_chars_def by (rule nth_mem) simp

lemma hex_digit_inj: "m < 16 \<Longrightarrow> n < 16 \<Longrightarrow> hex_digit m = hex_digit n \<longleftrightarrow> m = n"
  unfolding hex_digit_def by (subst nth_eq_iff_index_eq) simp_all

lemma unat_byte_lt: "unat (b :: byte) < 256"
  using unsigned_less [of b] by simp

lemma length_hex [simp]: "length (hex_EncodeToString bs) = 2 * length bs"
  by (induction bs) (simp_all add: hex_EncodeToString_def)

lemma set_hex: "set (hex_EncodeToString bs) \<subseteq> hex_chars"
  using unat_byte_lt
  by (induction bs)
     (auto simp: hex_EncodeToString_def less_mult_imp_div_less intro!: hex_digit_in)

lemma hex_EncodeToString_inj: "hex_EncodeToString as = hex_EncodeToString bs \<Longrightarrow> as = bs"
proof (induction as arbitrary: bs)
  case Nil
  then show ?case by (cases bs) (simp_all add: hex_EncodeToString_def)
next
  case (Cons a as)
  then obtain b bs' where bs: "bs = b # bs'"
    by (cases bs) (simp_all add: hex_EncodeToString_def)
  have lt: "unat a div 16 < 16" "unat b div 16 < 16"
    using unat_byte_lt [of a] unat_byte_lt [of b] by auto
  from Cons.prems have "unat a div 16 = unat b div 16" "unat a mod 16 = unat b mod 16"
    and rest: "hex_EncodeToString as = hex_EncodeToString bs'"
    using lt by (simp_all add: bs hex_EncodeToString_def hex_digit_inj)
  then have "unat a = unat b" by (metis div_mult_mod_eq)
  then show ?case using Cons.IH [OF rest] by (simp add: bs word_unat_eq_iff)
qed

lemma hex_plain:
  assumes "bs \<noteq> []"
  shows "plain_name (hex_EncodeToString bs)" "newline \<notin> set (hex_EncodeToString bs)"
proof -
  have "slash \<notin> hex_chars" "newline \<notin> hex_chars" "CHR ''.'' \<notin> hex_chars"
    by (simp_all add: hex_chars_def)
  then have s: "slash \<notin> set (hex_EncodeToString bs)" "newline \<notin> set (hex_EncodeToString bs)"
    "CHR ''.'' \<notin> set (hex_EncodeToString bs)"
    using set_hex [of bs] by blast+
  then show "newline \<notin> set (hex_EncodeToString bs)" by simp
  have "hex_EncodeToString bs \<noteq> []"
    using assms length_hex [of bs] by (metis length_0_conv mult_is_0 zero_neq_numeral)
  moreover from s(3) have "hex_EncodeToString bs \<noteq> ''.''" "hex_EncodeToString bs \<noteq> ''..''"
    by auto
  ultimately show "plain_name (hex_EncodeToString bs)"
    using s by (simp add: plain_name_def)
qed

end
