(* ===== verification/Go_Os.thy ===== *)
theory Go_Os
  imports Go_Path
begin

text \<open>
  The environment of a call into the server: what the clock, the random source and the
  operating system answer, and the file system with the calls of package \<open>os\<close> the server
  makes. Paths are cleaned and there are no symbolic links. A call may fail for reasons of its
  own (no space, no permission, an I/O error): that is a fault chosen by the environment, per
  call and path.
\<close>

section \<open>Errors, calls, faults\<close>

text \<open>Go errors with their text; \<open>os.IsNotExist\<close> recognises the first kind.\<close>

datatype os_error = NotExist string | OsFail string

fun os_text :: "os_error \<Rightarrow> string" where
  "os_text (NotExist s) = s"
| "os_text (OsFail s) = s"

datatype os_call =
    C_MkdirAll string
  | C_Stat string
  | C_ReadFile string
  | C_OpenAppend string
  | C_WriteString string
  | C_WriteFile string
  | C_Chtimes string
  | C_Rename string string
  | C_RemoveAll string

text \<open>
  A failing write may have written the first \<open>fault_wrote\<close> bytes (\<open>None\<close>: the file was
  not even opened). A failing \<open>RemoveAll\<close> removes some of the paths below its argument and
  leaves those of \<open>fault_left\<close>; it has not removed the path itself, since that is its last step.
\<close>

record os_fault =
  fault_text :: string
  fault_wrote :: "nat option"
  fault_left :: "string \<Rightarrow> bool"

record env =
  clk :: "nat \<Rightarrow> gotime"
  os_clock :: int
  os_faults :: "os_call \<Rightarrow> os_fault option"
  os_dir_mtime :: "string \<Rightarrow> int"
  rand_Read :: "nat \<Rightarrow> string + byte list"

text \<open>
  \<open>clk ev n\<close> is the \<open>n\<close>-th reading of \<open>time.Now\<close> of the call, \<open>os_clock\<close> the kernel's
  time for file modification stamps, \<open>os_dir_mtime\<close> that of the directories, \<open>rand_Read n\<close> the \<open>n\<close>-th draw of 24 random bytes.
\<close>

section \<open>The file system\<close>

datatype node = NDir | NFile string int

record 'w world =
  nodes :: "(string, node) fmap"
  engw :: 'w

definition path_parent :: "string \<Rightarrow> string" where
  "path_parent p = rev (drop 1 (dropWhile (\<lambda>c. c \<noteq> slash) (rev p)))"

definition parent_ok :: "'w world \<Rightarrow> string \<Rightarrow> bool" where
  "parent_ok w p =
     (path_parent p = '''' \<or> fmlookup (nodes w) (path_parent p) = Some NDir)"

text \<open>The directories \<open>MkdirAll\<close> creates on the way to \<open>p\<close>, and \<open>p\<close>.\<close>

definition path_ancestors :: "string \<Rightarrow> string list" where
  "path_ancestors p =
     filter (\<lambda>a. a \<noteq> '''') (map (\<lambda>i. take i p)
       (filter (\<lambda>i. i = length p \<or> p ! i = slash) [0..<Suc (length p)]))"

definition is_file :: "node option \<Rightarrow> bool" where
  "is_file n = (case n of Some (NFile _ _) \<Rightarrow> True | _ \<Rightarrow> False)"

definition os_Stat :: "env \<Rightarrow> string \<Rightarrow> 'w world \<Rightarrow> os_error + node" where
  "os_Stat ev p w =
     (case os_faults ev (C_Stat p) of
        Some f \<Rightarrow> Inl (OsFail (fault_text f))
      | None \<Rightarrow>
          (case fmlookup (nodes w) p of
             None \<Rightarrow> Inl (NotExist (''stat '' @ p @ '': no such file or directory''))
           | Some n \<Rightarrow> Inr n))"

definition os_ReadFile :: "env \<Rightarrow> string \<Rightarrow> 'w world \<Rightarrow> os_error + string" where
  "os_ReadFile ev p w =
     (case os_faults ev (C_ReadFile p) of
        Some f \<Rightarrow> Inl (OsFail (fault_text f))
      | None \<Rightarrow>
          (case fmlookup (nodes w) p of
             None \<Rightarrow> Inl (NotExist (''open '' @ p @ '': no such file or directory''))
           | Some NDir \<Rightarrow> Inl (OsFail (''read '' @ p @ '': is a directory''))
           | Some (NFile c m) \<Rightarrow> Inr c))"

definition os_MkdirAll :: "env \<Rightarrow> string \<Rightarrow> 'w world \<Rightarrow> (os_error + unit) \<times> 'w world" where
  "os_MkdirAll ev path w =
     (let p = path_Clean path in
      case os_faults ev (C_MkdirAll p) of
        Some f \<Rightarrow> (Inl (OsFail (fault_text f)), w)
      | None \<Rightarrow>
          if list_ex (\<lambda>a. is_file (fmlookup (nodes w) a)) (path_ancestors p)
          then (Inl (OsFail (''mkdir '' @ p @ '': not a directory'')), w)
          else (Inr (), w\<lparr>nodes := foldl (\<lambda>m a. fmupd a NDir m) (nodes w) (path_ancestors p)\<rparr>))"

definition set_node :: "string \<Rightarrow> node \<Rightarrow> 'w world \<Rightarrow> 'w world" where
  "set_node p n w = w\<lparr>nodes := fmupd p n (nodes w)\<rparr>"

definition os_WriteFile ::
  "env \<Rightarrow> string \<Rightarrow> string \<Rightarrow> 'w world \<Rightarrow> (os_error + unit) \<times> 'w world" where
  "os_WriteFile ev p content w =
     (if fmlookup (nodes w) p = Some NDir
      then (Inl (OsFail (''open '' @ p @ '': is a directory'')), w)
      else if \<not> parent_ok w p
      then (Inl (NotExist (''open '' @ p @ '': no such file or directory'')), w)
      else case os_faults ev (C_WriteFile p) of
        None \<Rightarrow> (Inr (), set_node p (NFile content (os_clock ev)) w)
      | Some f \<Rightarrow>
          (Inl (OsFail (fault_text f)),
           case fault_wrote f of
             None \<Rightarrow> w
           | Some n \<Rightarrow> set_node p (NFile (take n content) (os_clock ev)) w))"

text \<open>\<open>OpenFile\<close> with \<open>O_APPEND|O_CREATE|O_WRONLY\<close>, then \<open>WriteString\<close> on the file.\<close>

definition os_OpenAppend :: "env \<Rightarrow> string \<Rightarrow> 'w world \<Rightarrow> (os_error + unit) \<times> 'w world" where
  "os_OpenAppend ev p w =
     (case os_faults ev (C_OpenAppend p) of
        Some f \<Rightarrow> (Inl (OsFail (fault_text f)), w)
      | None \<Rightarrow>
          (case fmlookup (nodes w) p of
             Some NDir \<Rightarrow> (Inl (OsFail (''open '' @ p @ '': is a directory'')), w)
           | Some (NFile c m) \<Rightarrow> (Inr (), w)
           | None \<Rightarrow>
               if parent_ok w p then (Inr (), set_node p (NFile '''' (os_clock ev)) w)
               else (Inl (NotExist (''open '' @ p @ '': no such file or directory'')), w)))"

definition os_WriteString ::
  "env \<Rightarrow> string \<Rightarrow> string \<Rightarrow> 'w world \<Rightarrow> (os_error + unit) \<times> 'w world" where
  "os_WriteString ev p s w =
     (let old = (case fmlookup (nodes w) p of Some (NFile c m) \<Rightarrow> c | _ \<Rightarrow> '''') in
      case os_faults ev (C_WriteString p) of
        None \<Rightarrow> (Inr (), set_node p (NFile (old @ s) (os_clock ev)) w)
      | Some f \<Rightarrow>
          (Inl (OsFail (fault_text f)),
           case fault_wrote f of
             None \<Rightarrow> w
           | Some n \<Rightarrow> set_node p (NFile (old @ take n s) (os_clock ev)) w))"

definition os_Chtimes ::
  "env \<Rightarrow> string \<Rightarrow> gotime \<Rightarrow> 'w world \<Rightarrow> (os_error + unit) \<times> 'w world" where
  "os_Chtimes ev p t w =
     (case os_faults ev (C_Chtimes p) of
        Some f \<Rightarrow> (Inl (OsFail (fault_text f)), w)
      | None \<Rightarrow>
          (case fmlookup (nodes w) p of
             None \<Rightarrow> (Inl (NotExist (''chtimes '' @ p @ '': no such file or directory'')), w)
           | Some NDir \<Rightarrow> (Inr (), w)
           | Some (NFile c m) \<Rightarrow> (Inr (), set_node p (NFile c (wall_ns t)) w)))"

definition os_Rename ::
  "env \<Rightarrow> string \<Rightarrow> string \<Rightarrow> 'w world \<Rightarrow> (os_error + unit) \<times> 'w world" where
  "os_Rename ev a b w =
     (case os_faults ev (C_Rename a b) of
        Some f \<Rightarrow> (Inl (OsFail (fault_text f)), w)
      | None \<Rightarrow>
          (case fmlookup (nodes w) a of
             None \<Rightarrow> (Inl (NotExist (''rename '' @ a @ '' '' @ b @ '': no such file or directory'')), w)
           | Some n \<Rightarrow>
               if fmlookup (nodes w) b = Some NDir
               then (Inl (OsFail (''rename '' @ a @ '' '' @ b @ '': file exists'')), w)
               else (Inr (), w\<lparr>nodes := fmupd b n (fmdrop a (nodes w))\<rparr>)))"

text \<open>\<open>gone\<close> is the effect of the removal on the engine files below the path.\<close>

definition os_RemoveAll ::
  "(bool \<Rightarrow> string \<Rightarrow> 'w \<Rightarrow> 'w) \<Rightarrow> env \<Rightarrow> string \<Rightarrow> 'w world \<Rightarrow> (os_error + unit) \<times> 'w world" where
  "os_RemoveAll gone ev p w =
     (case os_faults ev (C_RemoveAll p) of
        Some f \<Rightarrow>
          (Inl (OsFail (fault_text f)),
           w\<lparr>nodes := fmfilter (\<lambda>q. path_under p q \<longrightarrow> q = p \<or> fault_left f q) (nodes w),
             engw := gone False p (engw w)\<rparr>)
      | None \<Rightarrow>
          (Inr (),
           w\<lparr>nodes := fmfilter (\<lambda>q. \<not> path_under p q) (nodes w), engw := gone True p (engw w)\<rparr>))"

section \<open>What the calls leave alone\<close>

lemma set_node_lookup [simp]:
  "fmlookup (nodes (set_node p n w)) q = (if p = q then Some n else fmlookup (nodes w) q)"
  by (simp add: set_node_def)

lemma set_node_engw [simp]: "engw (set_node p n w) = engw w"
  by (simp add: set_node_def)

lemma os_WriteFile_frame [frame_simps]:
  "engw (snd (os_WriteFile ev p c w)) = engw w"
  "q \<noteq> p \<Longrightarrow> fmlookup (nodes (snd (os_WriteFile ev p c w))) q = fmlookup (nodes w) q"
  by (auto simp: os_WriteFile_def split: option.splits)

lemma os_OpenAppend_frame [frame_simps]:
  "engw (snd (os_OpenAppend ev p w)) = engw w"
  "q \<noteq> p \<Longrightarrow> fmlookup (nodes (snd (os_OpenAppend ev p w))) q = fmlookup (nodes w) q"
  by (auto simp: os_OpenAppend_def split: option.splits node.splits)

lemma os_WriteString_frame [frame_simps]:
  "engw (snd (os_WriteString ev p c w)) = engw w"
  "q \<noteq> p \<Longrightarrow> fmlookup (nodes (snd (os_WriteString ev p c w))) q = fmlookup (nodes w) q"
  by (auto simp: os_WriteString_def Let_def split: option.splits node.splits)

lemma os_Chtimes_frame [frame_simps]:
  "engw (snd (os_Chtimes ev p t w)) = engw w"
  "q \<noteq> p \<Longrightarrow> fmlookup (nodes (snd (os_Chtimes ev p t w))) q = fmlookup (nodes w) q"
  by (auto simp: os_Chtimes_def split: option.splits node.splits)

lemma os_Rename_frame [frame_simps]:
  "engw (snd (os_Rename ev a b w)) = engw w"
  "q \<noteq> a \<Longrightarrow> q \<noteq> b \<Longrightarrow> fmlookup (nodes (snd (os_Rename ev a b w))) q = fmlookup (nodes w) q"
  by (auto simp: os_Rename_def split: option.splits)

lemma os_RemoveAll_frame [frame_simps]:
  "\<not> path_under p q \<Longrightarrow> fmlookup (nodes (snd (os_RemoveAll g ev p w))) q = fmlookup (nodes w) q"
  by (auto simp: os_RemoveAll_def split: option.splits)

lemma os_RemoveAll_failed:
  "os_RemoveAll g ev p w = (Inl e, w') \<Longrightarrow> fmlookup (nodes w') p = fmlookup (nodes w) p"
  by (auto simp: os_RemoveAll_def split: option.splits)

lemma os_RemoveAll_gone:
  "os_RemoveAll g ev p w = (Inr (), w') \<Longrightarrow> path_under p q \<Longrightarrow> fmlookup (nodes w') q = None"
  by (auto simp: os_RemoveAll_def split: option.splits)

lemma foldl_mkdir_lookup:
  "fmlookup (foldl (\<lambda>m a. fmupd a NDir m) m as) q =
     (if q \<in> set as then Some NDir else fmlookup m q)"
  by (induction as arbitrary: m) auto

lemma os_MkdirAll_engw [frame_simps]: "engw (snd (os_MkdirAll ev p w)) = engw w"
  by (auto simp: os_MkdirAll_def Let_def split: option.splits)

text \<open>\<open>MkdirAll\<close> never removes or changes a node that is there.\<close>

lemma os_MkdirAll_keeps:
  "fmlookup (nodes w) q = Some n \<Longrightarrow> fmlookup (nodes (snd (os_MkdirAll ev p w))) q = Some n"
  by (cases n)
     (auto simp: os_MkdirAll_def Let_def foldl_mkdir_lookup list_ex_iff is_file_def
       split: option.splits)

lemma path_ancestors_self: "p \<noteq> '''' \<Longrightarrow> p \<in> set (path_ancestors p)"
  by (auto simp: path_ancestors_def intro!: image_eqI [of _ _ "length p"])

lemma os_MkdirAll_dir:
  "os_MkdirAll ev p w = (Inr (), w') \<Longrightarrow> path_Clean p \<noteq> '''' \<Longrightarrow>
   fmlookup (nodes w') (path_Clean p) = Some NDir"
  by (auto simp: os_MkdirAll_def Let_def foldl_mkdir_lookup path_ancestors_self
      split: option.splits if_splits)

text \<open>No call but \<open>Rename\<close> and \<open>RemoveAll\<close> makes a path disappear.\<close>

definition nodes_grow :: "'w world \<Rightarrow> 'w world \<Rightarrow> bool" where
  "nodes_grow w w' = (\<forall>q. fmlookup (nodes w) q \<noteq> None \<longrightarrow> fmlookup (nodes w') q \<noteq> None)"

lemma nodes_grow_refl [simp]: "nodes_grow w w"
  by (simp add: nodes_grow_def)

lemma nodes_grow_trans: "nodes_grow w w1 \<Longrightarrow> nodes_grow w1 w2 \<Longrightarrow> nodes_grow w w2"
  by (simp add: nodes_grow_def)

lemma nodes_grow_eq [intro]: "nodes w' = nodes w \<Longrightarrow> nodes_grow w w'"
  by (simp add: nodes_grow_def)

lemma nodes_grow_set [simp]: "nodes_grow w (set_node p n w)"
  by (simp add: nodes_grow_def)

lemma os_nodes_grow [frame_simps]:
  "nodes_grow w (snd (os_WriteFile ev p c w))"
  "nodes_grow w (snd (os_OpenAppend ev p w))"
  "nodes_grow w (snd (os_WriteString ev p c w))"
  "nodes_grow w (snd (os_Chtimes ev p t w))"
  by (auto simp: os_WriteFile_def os_OpenAppend_def os_WriteString_def os_Chtimes_def Let_def
      split: option.splits node.splits)

lemma os_MkdirAll_grow [frame_simps]: "nodes_grow w (snd (os_MkdirAll ev p w))"
  by (auto simp: nodes_grow_def dest: os_MkdirAll_keeps [of _ _ _ ev p])

end
