(* ===== verification/Database.thy ===== *)
theory Database
  imports Rate_Limiter Engine_Cgo Go_Os
begin

text \<open>
  \<open>server/database.go\<close>: one tenant. A tenant starts pending, without a directory or an
  engine; the first \<open>Put\<close> materializes it. Every operation is modelled with all its guards
  and effects: the token bucket, the activity stamp, the engine call and the error it maps to.
  An operation takes the API of the engine, the environment of the call, the world (file
  system and engine state) and the tenant, and returns its result, the world and the tenant.
\<close>

section \<open>Errors\<close>

record store_error =
  se_Status :: int
  se_Message :: string

text \<open>A result is a value, a \<open>*StoreError\<close>, or a panic of the Go code.\<close>

datatype 'a result = Ok 'a | Err store_error | Crash

definition store_err :: "int \<Rightarrow> string \<Rightarrow> store_error" where
  "store_err status msg = \<lparr>se_Status = status, se_Message = msg\<rparr>"

definition errUnavailable :: "string \<Rightarrow> store_error" where
  "errUnavailable e = store_err 503 e"

definition errInternal :: "string \<Rightarrow> store_error" where
  "errInternal e = store_err 500 e"

definition errNotProvisioned :: "string \<Rightarrow> store_error" where
  "errNotProvisioned apiKey = store_err 404 (''not provisioned: '' @ apiKey)"

definition ErrTooLarge :: store_error where
  "ErrTooLarge = store_err 413 ''value too large''"
definition errStorageFull :: store_error where
  "errStorageFull = store_err 507 ''storage limit exceeded''"
definition ErrRateLimited :: store_error where
  "ErrRateLimited = store_err 429 ''rate limit exceeded''"
definition errEmptyKey :: store_error where
  "errEmptyKey = store_err 400 ''missing key''"
definition errEmptyRangeBounds :: store_error where
  "errEmptyRangeBounds = store_err 400 ''start and end required''"
definition ErrUnknownAPIKey :: store_error where
  "ErrUnknownAPIKey = store_err 401 ''unknown api key''"
definition errGone :: store_error where
  "errGone = store_err 503 ''database unavailable''"

lemmas error_defs = errUnavailable_def errInternal_def errNotProvisioned_def ErrTooLarge_def
  errStorageFull_def ErrRateLimited_def errEmptyKey_def errEmptyRangeBounds_def
  ErrUnknownAPIKey_def errGone_def store_err_def

section \<open>The tenant\<close>

datatype tenant_state = tenantPending | tenantActive

record 'h database =
  db_APIKey :: string
  db_dataDirPath :: string
  db_maxValueBytes :: int
  db_maxStorageBytes :: "64 word"
  db_bucket :: "token_bucket option"
  db_state :: tenant_state
  db_lastActive :: int
  db_rateLimit :: rate_limit_config
  db_engine :: "'h option"

definition TouchActivity :: "gotime \<Rightarrow> 'h database \<Rightarrow> 'h database" where
  "TouchActivity now db = db\<lparr>db_lastActive := time_Unix_sec now\<rparr>"

definition LastActive :: "'h database \<Rightarrow> gotime" where
  "LastActive db = time_of_Unix (db_lastActive db)"

definition IsPending :: "'h database \<Rightarrow> bool" where
  "IsPending db = (db_state db = tenantPending)"

text \<open>The two times are the readings in \<open>NewTokenBucket\<close> and in \<open>TouchActivity\<close>.\<close>

definition NewDatabase ::
  "gotime \<Rightarrow> gotime \<Rightarrow> string \<Rightarrow> string \<Rightarrow> int \<Rightarrow> 64 word \<Rightarrow> rate_limit_config \<Rightarrow> 'h database" where
  "NewDatabase t1 t2 apiKey dataDirPath maxValueBytes maxStorageBytes rl =
     TouchActivity t2
       \<lparr>db_APIKey = apiKey, db_dataDirPath = dataDirPath, db_maxValueBytes = maxValueBytes,
        db_maxStorageBytes = maxStorageBytes, db_bucket = Some (NewTokenBucket t1 rl),
        db_state = tenantPending, db_lastActive = 0, db_rateLimit = rl, db_engine = None\<rparr>"

text \<open>An engine call acts on the engine part of the world.\<close>

definition on_engine :: "('w \<Rightarrow> 'a \<times> 'w) \<Rightarrow> 'w world \<Rightarrow> 'a \<times> 'w world" where
  "on_engine f w = (case f (engw w) of (r, e) \<Rightarrow> (r, w\<lparr>engw := e\<rparr>))"

definition InitializeEngine ::
  "('h, 'w) fredb_api \<Rightarrow> 'w world \<Rightarrow> 'h database \<Rightarrow> (string + unit) \<times> 'w world \<times> 'h database" where
  "InitializeEngine api w db =
     (case on_engine (OpenCgoEngine api (db_dataDirPath db)) w of
        (Inl e, w') \<Rightarrow> (Inl e, w', db)
      | (Inr h, w') \<Rightarrow> (Inr (), w', db\<lparr>db_engine := Some h, db_state := tenantActive\<rparr>))"

definition LastActiveMarker :: string where
  "LastActiveMarker = ''.last-active''"

definition PersistActivity :: "env \<Rightarrow> 'w world \<Rightarrow> 'h database \<Rightarrow> (os_error + unit) \<times> 'w world" where
  "PersistActivity ev w db =
     (let marker = path_Join (db_dataDirPath db) LastActiveMarker in
      case os_WriteFile ev marker '''' w of
        (Inl e, w') \<Rightarrow> (Inl e, w')
      | (Inr _, w') \<Rightarrow> os_Chtimes ev marker (LastActive db) w')"

text \<open>A failure to write the activity marker is only logged.\<close>

definition materialize ::
  "('h, 'w) fredb_api \<Rightarrow> env \<Rightarrow> 'w world \<Rightarrow> 'h database \<Rightarrow>
   (string + unit) \<times> 'w world \<times> 'h database" where
  "materialize api ev w db =
     (case os_MkdirAll ev (db_dataDirPath db) w of
        (Inl e, w1) \<Rightarrow> (Inl (os_text e), w1, db)
      | (Inr _, w1) \<Rightarrow>
          (case InitializeEngine api w1 db of
             (Inl e, w2, db2) \<Rightarrow> (Inl e, w2, db2)
           | (Inr _, w2, db2) \<Rightarrow> (Inr (), snd (PersistActivity ev w2 db2), db2)))"

definition Destroy ::
  "('h, 'w) fredb_api \<Rightarrow> env \<Rightarrow> 'w world \<Rightarrow> 'h database \<Rightarrow>
   (os_error + unit) \<times> 'w world \<times> 'h database" where
  "Destroy api ev w db =
     (let (w1, db1) =
        (case db_engine db of
           None \<Rightarrow> (w, db)
         | Some h \<Rightarrow> (w\<lparr>engw := cgo_Close api h (engw w)\<rparr>, db\<lparr>db_engine := None\<rparr>));
        (r, w2) = os_RemoveAll (fredb_dir_removed api) ev (db_dataDirPath db1) w1
      in (r, w2, db1))"

definition SetRateLimitConfig :: "gotime \<Rightarrow> rate_limit_config \<Rightarrow> 'h database \<Rightarrow> 'h database" where
  "SetRateLimitConfig now cfg db =
     db\<lparr>db_rateLimit := cfg, db_bucket := Some (NewTokenBucket now cfg)\<rparr>"

section \<open>Requests on a tenant\<close>

text \<open>A tenant without a bucket is not limited.\<close>

definition bucket_Consume ::
  "gotime \<Rightarrow> float64 \<Rightarrow> token_bucket option \<Rightarrow> bool \<times> token_bucket option" where
  "bucket_Consume now cost bk =
     (case bk of
        None \<Rightarrow> (True, None)
      | Some b \<Rightarrow> (case tb_Consume now cost b of (ok, b') \<Rightarrow> (ok, Some b')))"

definition bucket_Charge :: "gotime \<Rightarrow> float64 \<Rightarrow> token_bucket option \<Rightarrow> token_bucket option" where
  "bucket_Charge now cost bk = map_option (tb_Charge now cost) bk"

definition charge_read :: "gotime \<Rightarrow> int \<Rightarrow> 'h database \<Rightarrow> 'h database" where
  "charge_read now n db =
     db\<lparr>db_bucket := bucket_Charge now (ReadCost (db_rateLimit db) n) (db_bucket db)\<rparr>"

definition db_Get ::
  "('h, 'w) fredb_api \<Rightarrow> env \<Rightarrow> string \<Rightarrow> 'w world \<Rightarrow> 'h database \<Rightarrow>
   (string \<times> bool) result \<times> 'w world \<times> 'h database" where
  "db_Get api ev key w db =
     (if key = '''' then (Err errEmptyKey, w, db)
      else case bucket_Consume (clk ev 0) (FlatCost (db_rateLimit db)) (db_bucket db) of (ok, bk) \<Rightarrow>
        let db1 = db\<lparr>db_bucket := bk\<rparr> in
        if \<not> ok then (Err ErrRateLimited, w, db1)
        else if db_state db1 = tenantPending then (Ok ('''', False), w, db1)
        else
          let db2 = TouchActivity (clk ev 1) db1 in
          case db_engine db2 of
            None \<Rightarrow> (Err errGone, w, db2)
          | Some h \<Rightarrow>
              (case on_engine (cgo_Get api h key) w of
                 (None, w') \<Rightarrow> (Crash, w', db2)
               | (Some (Inl e), w') \<Rightarrow> (Err (errUnavailable e), w', db2)
               | (Some (Inr (val, found)), w') \<Rightarrow>
                   (Ok (val, found), w',
                    if found then charge_read (clk ev 2) (int (length val)) db2 else db2)))"

definition db_Put ::
  "('h, 'w) fredb_api \<Rightarrow> env \<Rightarrow> string \<Rightarrow> string \<Rightarrow> 'w world \<Rightarrow> 'h database \<Rightarrow>
   unit result \<times> 'w world \<times> 'h database" where
  "db_Put api ev key value w db =
     (if key = '''' then (Err errEmptyKey, w, db)
      else if db_maxValueBytes db < int (length value) then (Err ErrTooLarge, w, db)
      else case (if db_state db = tenantPending then materialize api ev w db else (Inr (), w, db)) of
        (Inl e, w1, db1) \<Rightarrow> (Err (errInternal e), w1, db1)
      | (Inr _, w1, db1) \<Rightarrow>
          (case bucket_Consume (clk ev 0) (PutCost (db_rateLimit db1) (int (length value)))
                  (db_bucket db1) of (ok, bk) \<Rightarrow>
             let db2 = db1\<lparr>db_bucket := bk\<rparr> in
             if \<not> ok then (Err ErrRateLimited, w1, db2)
             else
               let db3 = TouchActivity (clk ev 1) db2 in
               case db_engine db3 of
                 None \<Rightarrow> (Err errGone, w1, db3)
               | Some h \<Rightarrow>
                   (case on_engine (cgo_TotalSize api h) w1 of
                      (Inl e, w2) \<Rightarrow> (Err (errUnavailable e), w2, db3)
                    | (Inr sz, w2) \<Rightarrow>
                        if db_maxStorageBytes db3 \<le> sz then (Err errStorageFull, w2, db3)
                        else (case on_engine (cgo_Put api h key value) w2 of
                                (Inl e, w3) \<Rightarrow> (Err (errUnavailable e), w3, db3)
                              | (Inr _, w3) \<Rightarrow> (Ok (), w3, db3)))))"

definition db_Delete ::
  "('h, 'w) fredb_api \<Rightarrow> env \<Rightarrow> string \<Rightarrow> 'w world \<Rightarrow> 'h database \<Rightarrow>
   unit result \<times> 'w world \<times> 'h database" where
  "db_Delete api ev key w db =
     (if key = '''' then (Err errEmptyKey, w, db)
      else case bucket_Consume (clk ev 0) (FlatCost (db_rateLimit db)) (db_bucket db) of (ok, bk) \<Rightarrow>
        let db1 = db\<lparr>db_bucket := bk\<rparr> in
        if \<not> ok then (Err ErrRateLimited, w, db1)
        else if db_state db1 = tenantPending then (Ok (), w, db1)
        else
          let db2 = TouchActivity (clk ev 1) db1 in
          case db_engine db2 of
            None \<Rightarrow> (Err errGone, w, db2)
          | Some h \<Rightarrow>
              (case on_engine (cgo_Delete api h key) w of
                 (Inl e, w') \<Rightarrow> (Err (errUnavailable e), w', db2)
               | (Inr _, w') \<Rightarrow> (Ok (), w', db2)))"

text \<open>The slice a \<open>Range\<close> returns: \<open>None\<close> is Go's nil slice.\<close>

definition db_Range ::
  "('h, 'w) fredb_api \<Rightarrow> env \<Rightarrow> string \<Rightarrow> string \<Rightarrow> 'w world \<Rightarrow> 'h database \<Rightarrow>
   kv list option result \<times> 'w world \<times> 'h database" where
  "db_Range api ev start end' w db =
     (if start = '''' \<or> end' = '''' then (Err errEmptyRangeBounds, w, db)
      else case bucket_Consume (clk ev 0) (FlatCost (db_rateLimit db)) (db_bucket db) of (ok, bk) \<Rightarrow>
        let db1 = db\<lparr>db_bucket := bk\<rparr> in
        if \<not> ok then (Err ErrRateLimited, w, db1)
        else if db_state db1 = tenantPending then (Ok None, w, db1)
        else
          let db2 = TouchActivity (clk ev 1) db1 in
          case db_engine db2 of
            None \<Rightarrow> (Err errGone, w, db2)
          | Some h \<Rightarrow>
              (case on_engine (cgo_Range api h start end') w of
                 (None, w') \<Rightarrow> (Crash, w', db2)
               | (Some (Inl e), w') \<Rightarrow> (Err (errUnavailable e), w', db2)
               | (Some (Inr pairs), w') \<Rightarrow>
                   (Ok (Some pairs), w', charge_read (clk ev 2) (kvs_total pairs) db2)))"

end
