(* ===== verification/Database_Laws.thy ===== *)
theory Database_Laws
  imports Database
begin

text \<open>
  Laws of the operations on one tenant: the identity of the tenant is never changed, the
  invariant (a sane configuration, a bucket in its own invariant, no engine while pending) is
  kept by every operation on every branch, reads and deletes never materialize a tenant, and
  what each operation may touch in the file system.
\<close>

lemmas db_ops = db_Get_def db_Put_def db_Delete_def db_Range_def

section \<open>Identity, state and engine of the tenant\<close>

definition db_ident :: "'h database \<Rightarrow> string \<times> string \<times> int \<times> 64 word \<times> rate_limit_config" where
  "db_ident db =
     (db_APIKey db, db_dataDirPath db, db_maxValueBytes db, db_maxStorageBytes db, db_rateLimit db)"

lemma db_ident_TouchActivity [frame_simps]: "db_ident (TouchActivity t db) = db_ident db"
  by (simp add: TouchActivity_def db_ident_def)

lemma TouchActivity_fields [frame_simps]:
  "db_state (TouchActivity t db) = db_state db"
  "db_engine (TouchActivity t db) = db_engine db"
  "db_bucket (TouchActivity t db) = db_bucket db"
  "db_rateLimit (TouchActivity t db) = db_rateLimit db"
  "db_dataDirPath (TouchActivity t db) = db_dataDirPath db"
  "db_maxStorageBytes (TouchActivity t db) = db_maxStorageBytes db"
  "db_maxValueBytes (TouchActivity t db) = db_maxValueBytes db"
  by (simp_all add: TouchActivity_def)

lemma charge_read_fields [frame_simps]:
  "db_ident (charge_read t n db) = db_ident db"
  "db_state (charge_read t n db) = db_state db"
  "db_engine (charge_read t n db) = db_engine db"
  "db_lastActive (charge_read t n db) = db_lastActive db"
  "db_dataDirPath (charge_read t n db) = db_dataDirPath db"
  by (simp_all add: charge_read_def db_ident_def)

lemma InitializeEngine_fields [frame_simps]:
  "db_ident (snd (snd (InitializeEngine api w db))) = db_ident db"
  "db_bucket (snd (snd (InitializeEngine api w db))) = db_bucket db"
  "db_lastActive (snd (snd (InitializeEngine api w db))) = db_lastActive db"
  "nodes (fst (snd (InitializeEngine api w db))) = nodes w"
  by (auto simp: InitializeEngine_def on_engine_def OpenCgoEngine_def db_ident_def
      split: prod.splits sum.splits option.splits)

lemma InitializeEngine_cases:
  "InitializeEngine api w db = (r, w', db') \<Longrightarrow>
   (case r of Inl e \<Rightarrow> db' = db
    | Inr u \<Rightarrow> \<exists>h. db' = db\<lparr>db_engine := Some h, db_state := tenantActive\<rparr>)"
  by (auto simp: InitializeEngine_def split: prod.splits sum.splits)

lemma materialize_cases:
  assumes "materialize api ev w db = (r, w', db')"
  shows "case r of Inl e \<Rightarrow> db' = db
    | Inr u \<Rightarrow> \<exists>h. db' = db\<lparr>db_engine := Some h, db_state := tenantActive\<rparr>"
  using assms by (auto simp: materialize_def dest!: InitializeEngine_cases
      split: prod.splits sum.splits)

lemma materialize_ident [frame_simps]:
  "materialize api ev w db = (r, w', db') \<Longrightarrow> db_ident db' = db_ident db"
  by (drule materialize_cases) (auto simp: db_ident_def split: sum.splits)

text \<open>
  The shape shared by all operations: the tenant after a request is the tenant before it,
  possibly materialized, with another bucket and another activity stamp.
\<close>

definition db_step :: "'h database \<Rightarrow> 'h database \<Rightarrow> bool" where
  "db_step db db' =
     (db_ident db' = db_ident db \<and>
      (db_state db' = db_state db \<and> db_engine db' = db_engine db \<or>
       db_state db = tenantPending \<and> db_state db' = tenantActive \<and> db_engine db' \<noteq> None))"

lemma db_step_refl [simp]: "db_step db db"
  by (simp add: db_step_def)

lemma db_step_bucket [simp]: "db_step db (db'\<lparr>db_bucket := b\<rparr>) = db_step db db'"
  by (simp add: db_step_def db_ident_def)

lemma db_step_touch [simp]: "db_step db (TouchActivity t db') = db_step db db'"
  by (simp add: db_step_def db_ident_def TouchActivity_def)

lemma db_step_charge [simp]: "db_step db (charge_read t n db') = db_step db db'"
  by (simp add: charge_read_def)

lemma db_step_materialize:
  "db_state db = tenantPending \<Longrightarrow> materialize api ev w db = (r, w', db') \<Longrightarrow> db_step db db'"
  by (drule materialize_cases) (auto simp: db_step_def db_ident_def split: sum.splits)

lemma db_Get_step: "db_Get api ev key w db = (r, w', db') \<Longrightarrow> db_step db db'"
  by (auto simp: db_Get_def Let_def split: if_splits prod.splits option.splits sum.splits)

lemma db_Delete_step: "db_Delete api ev key w db = (r, w', db') \<Longrightarrow> db_step db db'"
  by (auto simp: db_Delete_def Let_def split: if_splits prod.splits option.splits sum.splits)

lemma db_Range_step: "db_Range api ev s e w db = (r, w', db') \<Longrightarrow> db_step db db'"
  by (auto simp: db_Range_def Let_def split: if_splits prod.splits option.splits sum.splits)

lemma db_Put_step:
  assumes "db_Put api ev key val w db = (r, w', db')"
  shows "db_step db db'"
proof -
  let ?m = "if db_state db = tenantPending then materialize api ev w db else (Inr (), w, db)"
  obtain m w1 db1 where m: "?m = (m, w1, db1)" by (cases ?m)
  then have "db_step db db1" by (auto split: if_splits dest: db_step_materialize)
  with assms show ?thesis
    unfolding db_Put_def m
    by (auto simp: Let_def split: if_splits prod.splits option.splits sum.splits)
qed

section \<open>The invariant of a tenant\<close>

definition db_inv :: "'h database \<Rightarrow> bool" where
  "db_inv db =
     (sane_config (db_rateLimit db) \<and> db_maxValueBytes db < 2 ^ 63 \<and>
      (case db_bucket db of None \<Rightarrow> False | Some b \<Rightarrow> tb_inv b) \<and>
      (db_state db = tenantPending \<longrightarrow> db_engine db = None))"

lemma db_inv_New:
  "sane_config rl \<Longrightarrow> mv < 2 ^ 63 \<Longrightarrow> db_inv (NewDatabase t1 t2 k d mv ms rl)"
  by (simp add: db_inv_def NewDatabase_def TouchActivity_def tb_inv_New)

lemma db_inv_touch [simp]: "db_inv (TouchActivity t db) = db_inv db"
  by (simp add: db_inv_def TouchActivity_def)

lemma db_inv_consume:
  assumes "db_inv db" "f64_le (Fin 0) c" "f64_ok c" "bucket_Consume t c (db_bucket db) = (ok, bk)"
  shows "db_inv (db\<lparr>db_bucket := bk\<rparr>)"
proof -
  obtain b where b: "db_bucket db = Some b" "tb_inv b"
    using assms(1) by (auto simp: db_inv_def split: option.splits)
  with assms(4) have "bk = Some (snd (tb_Consume t c b))"
    by (auto simp: bucket_Consume_def split: prod.splits)
  then show ?thesis
    using assms(1) tb_inv_Consume [OF b(2) assms(2,3)] by (simp add: db_inv_def)
qed

lemma db_inv_charge:
  assumes "db_inv db" "0 \<le> n" "n \<le> 2 ^ 66"
  shows "db_inv (charge_read t n db)"
  using assms ReadCost_nonneg [of "db_rateLimit db" n]
  by (auto simp: db_inv_def charge_read_def bucket_Charge_def tb_inv_Charge split: option.splits)

lemma db_inv_materialize:
  assumes "db_inv db" "materialize api ev w db = (r, w', db')"
  shows "db_inv db'"
  using assms(1) materialize_cases [OF assms(2)] by (auto simp: db_inv_def split: sum.splits)

lemma db_inv_flat:
  assumes "db_inv db" "bucket_Consume t (FlatCost (db_rateLimit db)) (db_bucket db) = (ok, bk)"
  shows "db_inv (db\<lparr>db_bucket := bk\<rparr>)"
proof -
  have "sane_config (db_rateLimit db)" using assms(1) by (simp add: db_inv_def)
  then show ?thesis
    using db_inv_consume [OF assms(1) _ _ assms(2)] FlatCost_nonneg by simp
qed

text \<open>What a successful engine read returns is short enough to be charged.\<close>

lemma cgo_Get_len:
  assumes "cgo_Get api h key e = (Some (Inr (val, found)), e')"
  shows "int (length val) < 2 ^ 31"
proof -
  from assms have "val = '''' \<or> (\<exists>out n. GoStringN out (C_int n) = Some val)"
    by (auto simp: cgo_Get_def split: prod.splits if_splits)
  then have "int (length val) = 0 \<or> (\<exists>n. int (length val) = C_int n)"
    by (auto dest: GoStringN_len)
  then show ?thesis by (metis C_int_less zero_less_numeral zero_less_power)
qed

lemma cgo_Range_total:
  assumes "cgo_Range api h s e w = (Some (Inr kvs), w')"
  shows "0 \<le> kvs_total kvs" "kvs_total kvs \<le> 2 ^ 66"
  using assms kvs_total_le_buf decodeRangeBuf_total_bound
  by (auto simp: cgo_Range_def split: prod.splits if_splits)

lemma on_engine_result:
  "on_engine f w = (r, w') \<Longrightarrow> \<exists>e'. f (engw w) = (r, e') \<and> w' = w\<lparr>engw := e'\<rparr>"
  by (auto simp: on_engine_def split: prod.splits)

section \<open>Every request keeps the invariant\<close>

lemma db_inv_Get:
  assumes "db_inv db" "db_Get api ev key w db = (r, w', db')"
  shows "db_inv db'"
proof (cases "key = ''''")
  case True
  with assms show ?thesis by (simp add: db_Get_def)
next
  case False
  obtain ok bk where bk: "bucket_Consume (clk ev 0) (FlatCost (db_rateLimit db)) (db_bucket db) = (ok, bk)"
    by fastforce
  from db_inv_flat [OF assms(1) bk] have "db_inv (db\<lparr>db_bucket := bk\<rparr>)" .
  with assms(2) False bk show ?thesis
    by (auto simp: db_Get_def Let_def split: if_splits option.splits prod.splits sum.splits
        dest!: on_engine_result cgo_Get_len intro!: db_inv_charge)
qed

lemma db_inv_Delete:
  assumes "db_inv db" "db_Delete api ev key w db = (r, w', db')"
  shows "db_inv db'"
proof (cases "key = ''''")
  case True
  with assms show ?thesis by (simp add: db_Delete_def)
next
  case False
  obtain ok bk where bk: "bucket_Consume (clk ev 0) (FlatCost (db_rateLimit db)) (db_bucket db) = (ok, bk)"
    by fastforce
  from db_inv_flat [OF assms(1) bk] have "db_inv (db\<lparr>db_bucket := bk\<rparr>)" .
  with assms(2) False bk show ?thesis
    by (auto simp: db_Delete_def Let_def split: if_splits option.splits prod.splits sum.splits)
qed

lemma db_inv_Range:
  assumes "db_inv db" "db_Range api ev s e w db = (r, w', db')"
  shows "db_inv db'"
proof (cases "s = '''' \<or> e = ''''")
  case True
  with assms show ?thesis by (auto simp: db_Range_def)
next
  case False
  obtain ok bk where bk: "bucket_Consume (clk ev 0) (FlatCost (db_rateLimit db)) (db_bucket db) = (ok, bk)"
    by fastforce
  from db_inv_flat [OF assms(1) bk] have "db_inv (db\<lparr>db_bucket := bk\<rparr>)" .
  with assms(2) False bk show ?thesis
    by (auto simp: db_Range_def Let_def split: if_splits option.splits prod.splits sum.splits
        dest!: on_engine_result intro!: db_inv_charge dest: cgo_Range_total)
qed

lemma db_inv_Put:
  assumes "db_inv db" "db_Put api ev key val w db = (r, w', db')"
  shows "db_inv db'"
proof (cases "key = '''' \<or> db_maxValueBytes db < int (length val)")
  case True
  with assms show ?thesis by (auto simp: db_Put_def split: if_splits)
next
  case False
  let ?m = "if db_state db = tenantPending then materialize api ev w db else (Inr (), w, db)"
  obtain m w1 db1 where m: "?m = (m, w1, db1)" by (cases ?m)
  with assms(1) have i: "db_inv db1" and id: "db_ident db1 = db_ident db"
    by (auto split: if_splits dest: db_inv_materialize materialize_ident)
  obtain ok bk where bk: "bucket_Consume (clk ev 0)
      (PutCost (db_rateLimit db1) (int (length val))) (db_bucket db1) = (ok, bk)" by fastforce
  have "sane_config (db_rateLimit db1)" "int (length val) \<le> 2 ^ 66"
    using i False assms(1) by (auto simp: db_inv_def)
  then have "db_inv (db1\<lparr>db_bucket := bk\<rparr>)"
    by (intro db_inv_consume [OF i _ _ bk] PutCost_nonneg) simp_all
  with assms(2) i False bk show ?thesis
    unfolding db_Put_def m
    by (auto simp: Let_def split: if_splits option.splits prod.splits sum.splits)
qed

end
