(* ===== verification/Engine_Spec.thy ===== *)
theory Engine_Spec
  imports Database_Laws
begin

text \<open>
  What the server relies on in the storage engine, as a named hypothesis over two views of
  the engine's state: \<open>srv w h\<close> is the directory an open handle serves, \<open>dat w d\<close> the
  key-value map stored in a directory. The behaviour is the one the engine's test
  (\<open>server/engine_cgo_test.go\<close>) and the documentation of the site describe; which keys lie
  between two bounds is a parameter.
\<close>

type_synonym 'w eng_dat = "'w \<Rightarrow> string \<Rightarrow> string \<rightharpoonup> string"
type_synonym ('h, 'w) eng_at = "'w \<Rightarrow> 'h \<Rightarrow> string option"

section \<open>The order of keys\<close>

fun str_less :: "string \<Rightarrow> string \<Rightarrow> bool" where
  "str_less xs [] = False"
| "str_less [] (y # ys) = True"
| "str_less (x # xs) (y # ys) =
     ((of_char x :: nat) < of_char y \<or> x = y \<and> str_less xs ys)"

lemma str_less_irrefl [simp]: "\<not> str_less s s"
  by (induction s) auto

lemma str_less_trans: "str_less a b \<Longrightarrow> str_less b c \<Longrightarrow> str_less a c"
proof (induction a b arbitrary: c rule: str_less.induct)
  case (3 x xs y ys)
  then show ?case by (cases c) (auto dest: less_trans)
qed (case_tac c; auto)+

section \<open>The hypothesis\<close>

definition eng_same :: "('h, 'w) eng_at \<Rightarrow> 'w eng_dat \<Rightarrow> 'w \<Rightarrow> 'w \<Rightarrow> bool" where
  "eng_same srv dat w w' \<longleftrightarrow> srv w' = srv w \<and> dat w' = dat w"

definition eng_frame :: "('h, 'w) eng_at \<Rightarrow> 'w eng_dat \<Rightarrow> string \<Rightarrow> 'w \<Rightarrow> 'w \<Rightarrow> bool" where
  "eng_frame srv dat d w w' \<longleftrightarrow> srv w' = srv w \<and> (\<forall>d'. d' \<noteq> d \<longrightarrow> dat w' d' = dat w d')"

text \<open>The pairs of a map between two bounds, in increasing order of their keys.\<close>

definition is_range :: "(string \<Rightarrow> string \<Rightarrow> string \<Rightarrow> bool) \<Rightarrow> (string \<rightharpoonup> string) \<Rightarrow>
    string \<Rightarrow> string \<Rightarrow> kv list \<Rightarrow> bool" where
  "is_range inr m s e kvs \<longleftrightarrow>
     sorted_wrt (\<lambda>p q. str_less (kv_Key p) (kv_Key q)) kvs \<and>
     (\<forall>k v. \<lparr>kv_Key = k, kv_Value = v\<rparr> \<in> set kvs \<longleftrightarrow> m k = Some v \<and> inr s e k)"

text \<open>There is only one such list.\<close>

lemma kv_sorted_unique:
  "sorted_wrt (\<lambda>p q. str_less (kv_Key p) (kv_Key q)) xs \<Longrightarrow>
   sorted_wrt (\<lambda>p q. str_less (kv_Key p) (kv_Key q)) ys \<Longrightarrow> set xs = set ys \<Longrightarrow> xs = ys"
proof (induction xs arbitrary: ys)
  case Nil
  then show ?case by simp
next
  case (Cons x xs)
  then obtain y ys' where ys: "ys = y # ys'" by (cases ys) auto
  have nin: "x \<notin> set xs" "y \<notin> set ys'" using Cons.prems ys by auto
  have "x = y"
  proof (rule ccontr)
    assume "x \<noteq> y"
    then have "x \<in> set ys'" "y \<in> set xs" using Cons.prems(3) ys by auto
    then have "str_less (kv_Key y) (kv_Key x)" "str_less (kv_Key x) (kv_Key y)"
      using Cons.prems ys by auto
    then show False using str_less_trans str_less_irrefl by blast
  qed
  moreover from this have "set xs = set ys'" using Cons.prems(3) ys nin by auto
  ultimately show ?case using Cons.IH [of ys'] Cons.prems ys by simp
qed

lemma is_range_unique:
  assumes "is_range inr m s e ps" "is_range inr m s e qs"
  shows "ps = qs"
proof -
  have "set ps = set qs"
  proof (intro set_eqI)
    fix p :: kv
    show "p \<in> set ps \<longleftrightarrow> p \<in> set qs" using assms by (cases p) (simp add: is_range_def)
  qed
  with assms show ?thesis unfolding is_range_def by (blast intro: kv_sorted_unique)
qed

definition eng_get_ok :: "('h, 'w) fredb_api \<Rightarrow> ('h, 'w) eng_at \<Rightarrow> 'w eng_dat \<Rightarrow> bool" where
  "eng_get_ok api srv dat \<longleftrightarrow>
     (\<forall>w h d k rc out w'. srv w h = Some d \<longrightarrow> fredb_get api h k w = (rc, out, w') \<longrightarrow>
        eng_same srv dat w w' \<and> (rc = 0 \<longrightarrow> dat w d k = None) \<and> (0 < rc \<longrightarrow> dat w d k = Some out))"

definition eng_put_ok :: "('h, 'w) fredb_api \<Rightarrow> ('h, 'w) eng_at \<Rightarrow> 'w eng_dat \<Rightarrow> bool" where
  "eng_put_ok api srv dat \<longleftrightarrow>
     (\<forall>w h d k v rc w'. srv w h = Some d \<longrightarrow> fredb_put api h k v w = (rc, w') \<longrightarrow>
        eng_frame srv dat d w w' \<and> (rc = 0 \<longrightarrow> dat w' d = (dat w d)(k \<mapsto> v)))"

definition eng_remove_ok :: "('h, 'w) fredb_api \<Rightarrow> ('h, 'w) eng_at \<Rightarrow> 'w eng_dat \<Rightarrow> bool" where
  "eng_remove_ok api srv dat \<longleftrightarrow>
     (\<forall>w h d k rc w'. srv w h = Some d \<longrightarrow> fredb_remove api h k w = (rc, w') \<longrightarrow>
        eng_frame srv dat d w w' \<and> (rc = 0 \<longrightarrow> dat w' d = (dat w d)(k := None)))"

definition eng_size_ok :: "('h, 'w) fredb_api \<Rightarrow> ('h, 'w) eng_at \<Rightarrow> 'w eng_dat \<Rightarrow> bool" where
  "eng_size_ok api srv dat \<longleftrightarrow>
     (\<forall>w h d sz w'. srv w h = Some d \<longrightarrow> fredb_total_size api h w = (sz, w') \<longrightarrow>
        eng_same srv dat w w')"

definition eng_range_ok :: "('h, 'w) fredb_api \<Rightarrow> ('h, 'w) eng_at \<Rightarrow> 'w eng_dat \<Rightarrow>
    (string \<Rightarrow> string \<Rightarrow> string \<Rightarrow> bool) \<Rightarrow> bool" where
  "eng_range_ok api srv dat inr \<longleftrightarrow>
     (\<forall>w h d s e rc out w'. srv w h = Some d \<longrightarrow> fredb_get_range api h s e w = (rc, out, w') \<longrightarrow>
        eng_same srv dat w w' \<and>
        (rc = 0 \<longrightarrow> (\<exists>kvs. out = encodeRangeBuf kvs \<and> is_range inr (dat w d) s e kvs)))"

text \<open>Opening a directory disturbs no open handle and no data.\<close>

definition eng_open_ok :: "('h, 'w) fredb_api \<Rightarrow> ('h, 'w) eng_at \<Rightarrow> 'w eng_dat \<Rightarrow> bool" where
  "eng_open_ok api srv dat \<longleftrightarrow>
     (\<forall>w d r w'. fredb_open api d w = (r, w') \<longrightarrow>
        dat w' = dat w \<and> (\<forall>h d'. srv w h = Some d' \<longrightarrow> srv w' h = Some d') \<and>
        (\<forall>h. r = Some h \<longrightarrow> srv w' h = Some d))"

definition eng_close_ok :: "('h, 'w) fredb_api \<Rightarrow> ('h, 'w) eng_at \<Rightarrow> 'w eng_dat \<Rightarrow> bool" where
  "eng_close_ok api srv dat \<longleftrightarrow>
     (\<forall>w h. srv (fredb_close api h w) = (srv w)(h := None) \<and> dat (fredb_close api h w) = dat w)"

definition eng_removed_ok :: "('h, 'w) fredb_api \<Rightarrow> ('h, 'w) eng_at \<Rightarrow> 'w eng_dat \<Rightarrow> bool" where
  "eng_removed_ok api srv dat \<longleftrightarrow>
     (\<forall>b d w. srv (fredb_dir_removed api b d w) = srv w \<and>
        (\<forall>d'. \<not> path_under d d' \<longrightarrow> dat (fredb_dir_removed api b d w) d' = dat w d') \<and>
        (b \<or> dat w d = Map.empty \<longrightarrow> dat (fredb_dir_removed api b d w) d = Map.empty))"

definition engine_ok :: "('h, 'w) fredb_api \<Rightarrow> ('h, 'w) eng_at \<Rightarrow> 'w eng_dat \<Rightarrow>
    (string \<Rightarrow> string \<Rightarrow> string \<Rightarrow> bool) \<Rightarrow> bool" where
  "engine_ok api srv dat inr \<longleftrightarrow>
     eng_get_ok api srv dat \<and> eng_put_ok api srv dat \<and> eng_remove_ok api srv dat \<and>
     eng_size_ok api srv dat \<and> eng_range_ok api srv dat inr \<and>
     eng_open_ok api srv dat \<and> eng_close_ok api srv dat \<and> eng_removed_ok api srv dat"

lemma engine_ok_parts:
  assumes "engine_ok api srv dat inr"
  shows "eng_get_ok api srv dat" "eng_put_ok api srv dat" "eng_remove_ok api srv dat"
    "eng_size_ok api srv dat" "eng_range_ok api srv dat inr" "eng_open_ok api srv dat"
    "eng_close_ok api srv dat" "eng_removed_ok api srv dat"
  using assms by (simp_all add: engine_ok_def)

lemma engine_ok_getD:
  "engine_ok api srv dat inr \<Longrightarrow> srv w h = Some d \<Longrightarrow> fredb_get api h k w = (rc, out, w') \<Longrightarrow>
   eng_same srv dat w w' \<and> (rc = 0 \<longrightarrow> dat w d k = None) \<and> (0 < rc \<longrightarrow> dat w d k = Some out)"
  by (drule engine_ok_parts(1)) (unfold eng_get_ok_def, blast)

lemma engine_ok_putD:
  "engine_ok api srv dat inr \<Longrightarrow> srv w h = Some d \<Longrightarrow> fredb_put api h k v w = (rc, w') \<Longrightarrow>
   eng_frame srv dat d w w' \<and> (rc = 0 \<longrightarrow> dat w' d = (dat w d)(k \<mapsto> v))"
  by (drule engine_ok_parts(2)) (unfold eng_put_ok_def, blast)

lemma engine_ok_removeD:
  "engine_ok api srv dat inr \<Longrightarrow> srv w h = Some d \<Longrightarrow> fredb_remove api h k w = (rc, w') \<Longrightarrow>
   eng_frame srv dat d w w' \<and> (rc = 0 \<longrightarrow> dat w' d = (dat w d)(k := None))"
  by (drule engine_ok_parts(3)) (unfold eng_remove_ok_def, blast)

lemma engine_ok_sizeD:
  "engine_ok api srv dat inr \<Longrightarrow> srv w h = Some d \<Longrightarrow> fredb_total_size api h w = (sz, w') \<Longrightarrow>
   eng_same srv dat w w'"
  by (drule engine_ok_parts(4)) (unfold eng_size_ok_def, blast)

lemma engine_ok_rangeD:
  "engine_ok api srv dat inr \<Longrightarrow> srv w h = Some d \<Longrightarrow> fredb_get_range api h s e w = (rc, buf, w') \<Longrightarrow>
   eng_same srv dat w w' \<and>
   (rc = 0 \<longrightarrow> (\<exists>kvs. buf = encodeRangeBuf kvs \<and> is_range inr (dat w d) s e kvs))"
  by (drule engine_ok_parts(5)) (unfold eng_range_ok_def, blast)

lemma engine_ok_openD:
  assumes "engine_ok api srv dat inr" "fredb_open api d w = (r, w')"
  shows "dat w' = dat w \<and> (\<forall>h d'. srv w h = Some d' \<longrightarrow> srv w' h = Some d') \<and>
    (\<forall>h. r = Some h \<longrightarrow> srv w' h = Some d)"
  by (rule engine_ok_parts(6) [OF assms(1), unfolded eng_open_ok_def,
        THEN spec, THEN spec, THEN spec, THEN spec, THEN mp]) (rule assms(2))

lemma engine_ok_closeD:
  "engine_ok api srv dat inr \<Longrightarrow> srv (fredb_close api h w) = (srv w)(h := None)"
  "engine_ok api srv dat inr \<Longrightarrow> dat (fredb_close api h w) = dat w"
  by (drule engine_ok_parts(7), simp only: eng_close_ok_def)+

lemma engine_ok_removedD:
  assumes "engine_ok api srv dat inr"
  shows "srv (fredb_dir_removed api b d w) = srv w"
    and "\<not> path_under d d' \<Longrightarrow> dat (fredb_dir_removed api b d w) d' = dat w d'"
    and "dat (fredb_dir_removed api True d w) d = Map.empty"
    and "dat w d = Map.empty \<Longrightarrow> dat (fredb_dir_removed api b d w) d = Map.empty"
  using engine_ok_parts(8) [OF assms, unfolded eng_removed_ok_def] by simp_all

section \<open>What one tenant's requests may do to the engine\<close>

definition eng_step :: "('h, 'w) eng_at \<Rightarrow> 'w eng_dat \<Rightarrow> string \<Rightarrow> 'w world \<Rightarrow> 'w world \<Rightarrow> bool" where
  "eng_step srv dat d w w' \<longleftrightarrow>
     (\<forall>h d'. srv (engw w) h = Some d' \<longrightarrow> srv (engw w') h = Some d') \<and>
     (\<forall>d'. d' \<noteq> d \<longrightarrow> dat (engw w') d' = dat (engw w) d')"

lemma eng_step_refl [simp]: "eng_step srv dat d w w"
  by (simp add: eng_step_def)

lemma eng_step_trans: "eng_step srv dat d w w1 \<Longrightarrow> eng_step srv dat d w1 w2 \<Longrightarrow> eng_step srv dat d w w2"
  by (simp add: eng_step_def)

lemma eng_step_engw [intro]: "engw w' = engw w \<Longrightarrow> eng_step srv dat d w w'"
  by (simp add: eng_step_def)

lemma eng_step_same: "eng_same srv dat (engw w) (engw w') \<Longrightarrow> eng_step srv dat d w w'"
  by (simp add: eng_step_def eng_same_def)

lemma eng_step_frame: "eng_frame srv dat d (engw w) (engw w') \<Longrightarrow> eng_step srv dat d w w'"
  by (simp add: eng_step_def eng_frame_def)

section \<open>The calls of the wrapper, as steps on the data\<close>

lemma cgo_Get_spec:
  assumes ok: "engine_ok api srv dat inr" and srv: "srv (engw w) h = Some d"
    and call: "on_engine (cgo_Get api h key) w = (r, w')"
  shows "nodes w' = nodes w \<and> eng_same srv dat (engw w) (engw w') \<and>
    (\<forall>val. r = Some (Inr (val, False)) \<longrightarrow> val = '''' \<and> dat (engw w) d key = None) \<and>
    (\<forall>val. r = Some (Inr (val, True)) \<longrightarrow>
       (\<exists>out. dat (engw w) d key = Some out \<and> GoStringN out (C_int (int (length out))) = Some val))"
proof -
  obtain rc out e where g: "fredb_get api h key (engw w) = (rc, out, e)"
    by (cases "fredb_get api h key (engw w)") auto
  from engine_ok_getD [OF ok srv g] call g show ?thesis
    by (auto simp: on_engine_def cgo_Get_def split: if_splits)
qed

lemma cgo_Put_spec:
  assumes ok: "engine_ok api srv dat inr" and srv: "srv (engw w) h = Some d"
    and call: "on_engine (cgo_Put api h key val) w = (r, w')"
  shows "nodes w' = nodes w \<and> eng_frame srv dat d (engw w) (engw w') \<and>
    (r = Inr () \<longrightarrow> dat (engw w') d = (dat (engw w) d)(key \<mapsto> val))"
proof -
  obtain rc e where g: "fredb_put api h key val (engw w) = (rc, e)"
    by (cases "fredb_put api h key val (engw w)")
  from engine_ok_putD [OF ok srv g] call g show ?thesis
    by (auto simp: on_engine_def cgo_Put_def split: if_splits)
qed

lemma cgo_Delete_spec:
  assumes ok: "engine_ok api srv dat inr" and srv: "srv (engw w) h = Some d"
    and call: "on_engine (cgo_Delete api h key) w = (r, w')"
  shows "nodes w' = nodes w \<and> eng_frame srv dat d (engw w) (engw w') \<and>
    (r = Inr () \<longrightarrow> dat (engw w') d = (dat (engw w) d)(key := None))"
proof -
  obtain rc e where g: "fredb_remove api h key (engw w) = (rc, e)"
    by (cases "fredb_remove api h key (engw w)")
  from engine_ok_removeD [OF ok srv g] call g show ?thesis
    by (auto simp: on_engine_def cgo_Delete_def split: if_splits)
qed

lemma cgo_TotalSize_spec:
  assumes ok: "engine_ok api srv dat inr" and srv: "srv (engw w) h = Some d"
    and call: "on_engine (cgo_TotalSize api h) w = (r, w')"
  shows "nodes w' = nodes w \<and> eng_same srv dat (engw w) (engw w')"
proof -
  obtain sz e where g: "fredb_total_size api h (engw w) = (sz, e)"
    by (cases "fredb_total_size api h (engw w)")
  from engine_ok_sizeD [OF ok srv g] call g show ?thesis
    by (auto simp: on_engine_def cgo_TotalSize_def split: if_splits)
qed

lemma cgo_Range_spec:
  assumes ok: "engine_ok api srv dat inr" and srv: "srv (engw w) h = Some d"
    and call: "on_engine (cgo_Range api h s e) w = (r, w')"
  shows "nodes w' = nodes w \<and> eng_same srv dat (engw w) (engw w') \<and> r \<noteq> None \<and>
    (\<forall>kvs. r = Some (Inr kvs) \<longrightarrow>
       (\<exists>kvs'. is_range inr (dat (engw w) d) s e kvs' \<and>
          decodeRangeBuf (encodeRangeBuf kvs') = Some (Inr kvs)))"
proof -
  obtain rc out e' where g: "fredb_get_range api h s e (engw w) = (rc, out, e')"
    by (cases "fredb_get_range api h s e (engw w)") auto
  from engine_ok_rangeD [OF ok srv g] call g decodeRangeBuf_total show ?thesis
    by (auto simp: on_engine_def cgo_Range_def simp del: not_None_eq split: if_splits)
qed

lemma OpenCgoEngine_spec:
  assumes ok: "engine_ok api srv dat inr"
    and call: "on_engine (OpenCgoEngine api d) w = (r, w')"
  shows "nodes w' = nodes w \<and> dat (engw w') = dat (engw w) \<and>
    (\<forall>h d'. srv (engw w) h = Some d' \<longrightarrow> srv (engw w') h = Some d') \<and>
    (\<forall>h. r = Inr h \<longrightarrow> srv (engw w') h = Some d)"
proof -
  obtain ro e where g: "fredb_open api d (engw w) = (ro, e)"
    by (cases "fredb_open api d (engw w)")
  from engine_ok_openD [OF ok g] call g show ?thesis
    by (auto simp: on_engine_def OpenCgoEngine_def split: option.splits)
qed

end
