(* ===== verification/Database_Spec.thy ===== *)
theory Database_Spec
  imports Engine_Spec
begin

text \<open>
  The requests of one tenant as operations on a key-value map: under the engine hypothesis,
  a successful \<open>Put\<close> updates the tenant's map, a successful \<open>Delete\<close> removes the key,
  \<open>Get\<close> and \<open>Range\<close> report the map and leave it alone, and a refused request leaves it
  alone too. None of them touches the data of another directory.
\<close>

section \<open>The tenant's map and its well-formedness\<close>

definition db_view :: "'w eng_dat \<Rightarrow> 'w world \<Rightarrow> 'h database \<Rightarrow> string \<rightharpoonup> string" where
  "db_view dat w db = dat (engw w) (db_dataDirPath db)"

text \<open>
  The handle of the tenant serves its own directory, and a pending tenant has no data.
\<close>

definition db_linked :: "('h, 'w) eng_at \<Rightarrow> 'w eng_dat \<Rightarrow> 'w world \<Rightarrow> 'h database \<Rightarrow> bool" where
  "db_linked srv dat w db \<longleftrightarrow>
     (\<forall>h. db_engine db = Some h \<longrightarrow> srv (engw w) h = Some (db_dataDirPath db)) \<and>
     (db_state db = tenantPending \<longrightarrow> db_view dat w db = Map.empty)"

text \<open>Values the C interface can hand over: their length fits a C \<open>int\<close>.\<close>

definition short_values :: "(string \<rightharpoonup> string) \<Rightarrow> bool" where
  "short_values m \<longleftrightarrow> (\<forall>k v. m k = Some v \<longrightarrow> length v < 2 ^ 31)"

lemma db_ident_eq:
  "db_ident db' = db_ident db \<Longrightarrow> db_dataDirPath db' = db_dataDirPath db"
  by (simp add: db_ident_def)

lemma db_view_cong:
  "eng_same srv dat (engw w) (engw w') \<Longrightarrow> db_dataDirPath db' = db_dataDirPath db \<Longrightarrow>
   db_view dat w' db' = db_view dat w db"
  by (simp add: db_view_def eng_same_def)

lemma bucket_update_fields [frame_simps]:
  "db_engine (db\<lparr>db_bucket := b\<rparr>) = db_engine db"
  "db_state (db\<lparr>db_bucket := b\<rparr>) = db_state db"
  "db_dataDirPath (db\<lparr>db_bucket := b\<rparr>) = db_dataDirPath db"
  by simp_all

section \<open>Get\<close>

lemma db_Get_spec:
  assumes ok: "engine_ok api srv dat inr" and l: "db_linked srv dat w db"
    and sv: "short_values (db_view dat w db)"
    and call: "db_Get api ev key w db = (r, w', db')"
  shows "nodes w' = nodes w" "eng_same srv dat (engw w) (engw w')" "r \<noteq> Crash"
    "r = Ok (val, found) \<Longrightarrow> db_view dat w db key = (if found then Some val else None)"
proof -
  let ?goal = "nodes w' = nodes w \<and> eng_same srv dat (engw w) (engw w') \<and> r \<noteq> Crash \<and>
    (\<forall>val found. r = Ok (val, found) \<longrightarrow> db_view dat w db key = (if found then Some val else None))"
  have ?goal
  proof (cases "\<exists>h. db_engine db = Some h")
    case False
    with call l show ?thesis
      by (auto simp: db_Get_def Let_def frame_simps eng_same_def db_linked_def
          split: if_splits prod.splits option.splits)
  next
    case True
    then obtain h where h: "db_engine db = Some h" by blast
    with l have at: "srv (engw w) h = Some (db_dataDirPath db)" by (simp add: db_linked_def)
    obtain g w1 where g: "on_engine (cgo_Get api h key) w = (g, w1)" by fastforce
    have len: "GoStringN out (C_int (int (length out))) = Some out"
      if "dat (engw w) (db_dataDirPath db) key = Some out" for out
      using that sv by (intro GoStringN_all) (simp add: short_values_def db_view_def)
    obtain rc out e where c: "fredb_get api h key (engw w) = (rc, out, e)"
      by (cases "fredb_get api h key (engw w)") auto
    have "g \<noteq> None"
      using engine_ok_getD [OF ok at c] len g c
      by (auto simp: on_engine_def cgo_Get_def split: if_splits)
    with cgo_Get_spec [OF ok at g] len g h call l show ?thesis
      by (auto simp: db_Get_def Let_def frame_simps eng_same_def db_view_def db_linked_def
          split: if_splits prod.splits option.splits sum.splits)
  qed
  then show "nodes w' = nodes w" "eng_same srv dat (engw w) (engw w')" "r \<noteq> Crash"
    "r = Ok (val, found) \<Longrightarrow> db_view dat w db key = (if found then Some val else None)"
    by auto
qed

section \<open>Delete\<close>

lemma db_Delete_spec:
  assumes ok: "engine_ok api srv dat inr" and l: "db_linked srv dat w db"
    and call: "db_Delete api ev key w db = (r, w', db')"
  shows "nodes w' = nodes w" "eng_frame srv dat (db_dataDirPath db) (engw w) (engw w')"
    "r = Ok () \<Longrightarrow> db_view dat w' db' = (db_view dat w db)(key := None)"
proof -
  let ?goal = "nodes w' = nodes w \<and> eng_frame srv dat (db_dataDirPath db) (engw w) (engw w') \<and>
    (r = Ok () \<longrightarrow> db_view dat w' db' = (db_view dat w db)(key := None))"
  have ?goal
  proof (cases "\<exists>h. db_engine db = Some h")
    case False
    with call l show ?thesis
      by (auto simp: db_Delete_def Let_def frame_simps eng_frame_def db_linked_def db_view_def
          split: if_splits prod.splits option.splits)
  next
    case True
    then obtain h where h: "db_engine db = Some h" by blast
    with l have at: "srv (engw w) h = Some (db_dataDirPath db)" by (simp add: db_linked_def)
    obtain g w1 where g: "on_engine (cgo_Delete api h key) w = (g, w1)" by fastforce
    from cgo_Delete_spec [OF ok at g] g h call l show ?thesis
      by (auto simp: db_Delete_def Let_def frame_simps eng_frame_def db_view_def db_linked_def
          split: if_splits prod.splits option.splits sum.splits)
  qed
  then show "nodes w' = nodes w" "eng_frame srv dat (db_dataDirPath db) (engw w) (engw w')"
    "r = Ok () \<Longrightarrow> db_view dat w' db' = (db_view dat w db)(key := None)"
    by auto
qed

section \<open>Range\<close>

lemma db_Range_spec:
  assumes ok: "engine_ok api srv dat inr" and l: "db_linked srv dat w db"
    and call: "db_Range api ev s e w db = (r, w', db')"
  shows "nodes w' = nodes w" "eng_same srv dat (engw w) (engw w')" "r \<noteq> Crash"
    "r = Ok (Some kvs) \<Longrightarrow> \<exists>kvs'. is_range inr (db_view dat w db) s e kvs' \<and>
        decodeRangeBuf (encodeRangeBuf kvs') = Some (Inr kvs)"
    "r = Ok None \<Longrightarrow> db_view dat w db = Map.empty"
proof -
  let ?goal = "nodes w' = nodes w \<and> eng_same srv dat (engw w) (engw w') \<and> r \<noteq> Crash \<and>
    (\<forall>kvs. r = Ok (Some kvs) \<longrightarrow> (\<exists>kvs'. is_range inr (db_view dat w db) s e kvs' \<and>
        decodeRangeBuf (encodeRangeBuf kvs') = Some (Inr kvs))) \<and>
    (r = Ok None \<longrightarrow> db_view dat w db = Map.empty)"
  have ?goal
  proof (cases "\<exists>h. db_engine db = Some h")
    case False
    with call l show ?thesis
      by (auto simp: db_Range_def Let_def frame_simps eng_same_def db_linked_def
          split: if_splits prod.splits option.splits)
  next
    case True
    then obtain h where h: "db_engine db = Some h" by blast
    with l have at: "srv (engw w) h = Some (db_dataDirPath db)" by (simp add: db_linked_def)
    obtain g w1 where g: "on_engine (cgo_Range api h s e) w = (g, w1)" by fastforce
    from cgo_Range_spec [OF ok at g] g h call l show ?thesis
      by (auto simp: db_Range_def Let_def frame_simps eng_same_def db_view_def db_linked_def
          split: if_splits prod.splits option.splits sum.splits)
  qed
  then show "nodes w' = nodes w" "eng_same srv dat (engw w) (engw w')" "r \<noteq> Crash"
    "r = Ok (Some kvs) \<Longrightarrow> \<exists>kvs'. is_range inr (db_view dat w db) s e kvs' \<and>
        decodeRangeBuf (encodeRangeBuf kvs') = Some (Inr kvs)"
    "r = Ok None \<Longrightarrow> db_view dat w db = Map.empty"
    by auto
qed

text \<open>A range that fits the 4 GiB of the wire format is handed over unchanged.\<close>

definition range_fits :: "(string \<Rightarrow> string \<Rightarrow> string \<Rightarrow> bool) \<Rightarrow> (string \<rightharpoonup> string) \<Rightarrow> string \<Rightarrow> string \<Rightarrow> bool" where
  "range_fits inr m s e \<longleftrightarrow>
     (\<forall>kvs. is_range inr m s e kvs \<longrightarrow> length (encodeRangeBuf kvs) < 2 ^ 32 \<and> length kvs < 2 ^ 32)"

lemma range_decoded:
  assumes "range_fits inr m s e" "is_range inr m s e kvs'"
    "decodeRangeBuf (encodeRangeBuf kvs') = Some (Inr kvs)"
  shows "kvs = kvs'"
proof -
  from assms(1,2) have "length (encodeRangeBuf kvs') < 2 ^ 32" "length kvs' < 2 ^ 32"
    by (simp_all add: range_fits_def)
  then show ?thesis using decodeRangeBuf_encode [of kvs' "[]"] assms(3) by simp
qed

lemma is_range_empty: "is_range inr Map.empty s e []"
  by (simp add: is_range_def)

section \<open>Put\<close>

lemma InitializeEngine_spec:
  assumes ok: "engine_ok api srv dat inr" and call: "InitializeEngine api w db = (r, w', db')"
  shows "nodes w' = nodes w" "dat (engw w') = dat (engw w)"
    "srv (engw w) h = Some d \<Longrightarrow> srv (engw w') h = Some d"
    "r = Inr u \<Longrightarrow> \<exists>h. db' = db\<lparr>db_engine := Some h, db_state := tenantActive\<rparr> \<and>
        srv (engw w') h = Some (db_dataDirPath db)"
    "r = Inl e \<Longrightarrow> db' = db"
proof -
  obtain ro w1 where o: "on_engine (OpenCgoEngine api (db_dataDirPath db)) w = (ro, w1)" by fastforce
  from OpenCgoEngine_spec [OF ok o] o call show "nodes w' = nodes w" "dat (engw w') = dat (engw w)"
    "srv (engw w) h = Some d \<Longrightarrow> srv (engw w') h = Some d"
    "r = Inr u \<Longrightarrow> \<exists>h. db' = db\<lparr>db_engine := Some h, db_state := tenantActive\<rparr> \<and>
        srv (engw w') h = Some (db_dataDirPath db)"
    "r = Inl e \<Longrightarrow> db' = db"
    by (auto simp: InitializeEngine_def split: sum.splits)
qed

lemma PersistActivity_frame [frame_simps]:
  "engw (snd (PersistActivity ev w db)) = engw w"
  "q \<noteq> path_Join (db_dataDirPath db) LastActiveMarker \<Longrightarrow>
   fmlookup (nodes (snd (PersistActivity ev w db))) q = fmlookup (nodes w) q"
proof -
  let ?p = "path_Join (db_dataDirPath db) LastActiveMarker"
  obtain r w1 where w: "os_WriteFile ev ?p '''' w = (r, w1)" by fastforce
  have e: "engw w1 = engw w" "q \<noteq> ?p \<Longrightarrow> fmlookup (nodes w1) q = fmlookup (nodes w) q" for q
    using os_WriteFile_frame(1) [of ev ?p "''''" w] os_WriteFile_frame(2) [of q ?p ev "''''" w] w
    by simp_all
  show "engw (snd (PersistActivity ev w db)) = engw w"
    using w e by (simp add: PersistActivity_def Let_def frame_simps split: sum.splits)
  show "q \<noteq> ?p \<Longrightarrow> fmlookup (nodes (snd (PersistActivity ev w db))) q = fmlookup (nodes w) q"
    using w e by (simp add: PersistActivity_def Let_def frame_simps split: sum.splits)
qed

lemma materialize_spec:
  assumes ok: "engine_ok api srv dat inr" and call: "materialize api ev w db = (r, w', db')"
  shows "dat (engw w') = dat (engw w)"
    "srv (engw w) h = Some d \<Longrightarrow> srv (engw w') h = Some d"
    "r = Inr u \<Longrightarrow> \<exists>h. db' = db\<lparr>db_engine := Some h, db_state := tenantActive\<rparr> \<and>
        srv (engw w') h = Some (db_dataDirPath db)"
    "r = Inl e \<Longrightarrow> db' = db"
    "q \<noteq> path_Join (db_dataDirPath db) LastActiveMarker \<Longrightarrow> fmlookup (nodes w) q = Some n \<Longrightarrow>
       fmlookup (nodes w') q = Some n"
proof -
  let ?m = "os_MkdirAll ev (db_dataDirPath db) w"
  obtain m w1 where m: "?m = (m, w1)" by fastforce
  obtain i w2 db2 where i: "InitializeEngine api w1 db = (i, w2, db2)"
    by (cases "InitializeEngine api w1 db")
  have e1: "engw w1 = engw w" using os_MkdirAll_engw [of ev "db_dataDirPath db" w] m by simp
  have k1: "fmlookup (nodes w) q = Some n \<Longrightarrow> fmlookup (nodes w1) q = Some n" for q n
    using os_MkdirAll_keeps [of w q n ev "db_dataDirPath db"] m by simp
  have dd: "db_dataDirPath db2 = db_dataDirPath db"
    using InitializeEngine_fields(1) [of api w1 db] i by (simp add: db_ident_def)
  note I = InitializeEngine_spec [OF ok i]
  show "dat (engw w') = dat (engw w)"
    "srv (engw w) h = Some d \<Longrightarrow> srv (engw w') h = Some d"
    "r = Inr u \<Longrightarrow> \<exists>h. db' = db\<lparr>db_engine := Some h, db_state := tenantActive\<rparr> \<and>
        srv (engw w') h = Some (db_dataDirPath db)"
    "r = Inl e \<Longrightarrow> db' = db"
    using call m i e1 I(2-)
    by (auto simp: materialize_def frame_simps split: sum.splits)
  assume q: "q \<noteq> path_Join (db_dataDirPath db) LastActiveMarker" "fmlookup (nodes w) q = Some n"
  then show "fmlookup (nodes w') q = Some n"
    using call m i k1 [of q n] I(1) dd
    by (auto simp: materialize_def frame_simps split: sum.splits)
qed

text \<open>The tenant after the first, materializing half of a \<open>Put\<close>.\<close>

definition put_open ::
  "('h, 'w) fredb_api \<Rightarrow> env \<Rightarrow> 'w world \<Rightarrow> 'h database \<Rightarrow> (string + unit) \<times> 'w world \<times> 'h database" where
  "put_open api ev w db = (if db_state db = tenantPending then materialize api ev w db else (Inr (), w, db))"

lemma put_open_spec:
  assumes ok: "engine_ok api srv dat inr" and l: "db_linked srv dat w db"
    and call: "put_open api ev w db = (r, w', db')"
  shows "dat (engw w') = dat (engw w)"
    "srv (engw w) h = Some d \<Longrightarrow> srv (engw w') h = Some d"
    "db_linked srv dat w' db'"
    "db_ident db' = db_ident db"
    "q \<noteq> path_Join (db_dataDirPath db) LastActiveMarker \<Longrightarrow> fmlookup (nodes w) q = Some n \<Longrightarrow>
       fmlookup (nodes w') q = Some n"
    "r = Inr u \<Longrightarrow> db_state db' = tenantActive"
proof -
  have "dat (engw w') = dat (engw w) \<and>
    (\<forall>h d. srv (engw w) h = Some d \<longrightarrow> srv (engw w') h = Some d) \<and>
    db_linked srv dat w' db' \<and> db_ident db' = db_ident db \<and>
    (\<forall>q n. q \<noteq> path_Join (db_dataDirPath db) LastActiveMarker \<longrightarrow>
       fmlookup (nodes w) q = Some n \<longrightarrow> fmlookup (nodes w') q = Some n) \<and>
    (\<forall>u. r = Inr u \<longrightarrow> db_state db' = tenantActive)"
  proof (cases "db_state db = tenantPending")
    case True
    with call have M: "materialize api ev w db = (r, w', db')" by (simp add: put_open_def)
    note S = materialize_spec [OF ok M]
    have "db_linked srv dat w' db'"
    proof (cases r)
      case (Inl e)
      with S(1,2) S(4) [OF Inl] l show ?thesis by (simp add: db_linked_def db_view_def)
    next
      case (Inr u)
      from S(3) [OF Inr] show ?thesis by (auto simp: db_linked_def)
    qed
    with S(1,2,3,5) materialize_ident [OF M] show ?thesis by fastforce
  next
    case False
    with call l show ?thesis by (cases "db_state db") (auto simp: put_open_def)
  qed
  then show "dat (engw w') = dat (engw w)" "srv (engw w) h = Some d \<Longrightarrow> srv (engw w') h = Some d"
    "db_linked srv dat w' db'" "db_ident db' = db_ident db"
    "q \<noteq> path_Join (db_dataDirPath db) LastActiveMarker \<Longrightarrow> fmlookup (nodes w) q = Some n \<Longrightarrow>
       fmlookup (nodes w') q = Some n"
    "r = Inr u \<Longrightarrow> db_state db' = tenantActive"
    by blast+
qed

lemma db_Put_unfold:
  "db_Put api ev key value w db =
     (if key = '''' then (Err errEmptyKey, w, db)
      else if db_maxValueBytes db < int (length value) then (Err ErrTooLarge, w, db)
      else case put_open api ev w db of
        (Inl e, w1, db1) \<Rightarrow> (Err (errInternal e), w1, db1)
      | (Inr _, w1, db1) \<Rightarrow>
          (case bucket_Consume (clk ev 0) (PutCost (db_rateLimit db1) (int (length value)))
                  (db_bucket db1) of (ok, bk) \<Rightarrow>
             let db2 = db1\<lparr>db_bucket := bk\<rparr> in
             if \<not> ok then (Err ErrRateLimited, w1, db2)
             else
               let db3 = TouchActivity (clk ev 1) db2 in
               case db_engine db3 of
                 None \<Rightarrow> (Err errGone, w1, db3)
               | Some h \<Rightarrow>
                   (case on_engine (cgo_TotalSize api h) w1 of
                      (Inl e, w2) \<Rightarrow> (Err (errUnavailable e), w2, db3)
                    | (Inr sz, w2) \<Rightarrow>
                        if db_maxStorageBytes db3 \<le> sz then (Err errStorageFull, w2, db3)
                        else (case on_engine (cgo_Put api h key value) w2 of
                                (Inl e, w3) \<Rightarrow> (Err (errUnavailable e), w3, db3)
                              | (Inr _, w3) \<Rightarrow> (Ok (), w3, db3)))))"
  unfolding db_Put_def put_open_def ..

text \<open>
  The second half of a \<open>Put\<close>, on a tenant that is not pending any more: what it may do to
  the engine, and what its results say about the data.
\<close>

lemma db_Put_engine:
  assumes ok: "engine_ok api srv dat inr"
    and h: "srv (engw w) h = Some d"
    and size: "on_engine (cgo_TotalSize api h) w = (sz, w1)"
  shows "nodes w1 = nodes w" "eng_same srv dat (engw w) (engw w1)" "srv (engw w1) h = Some d"
    "on_engine (cgo_Put api h key val) w1 = (p, w2) \<Longrightarrow> nodes w2 = nodes w \<and>
       eng_frame srv dat d (engw w) (engw w2) \<and>
       (p = Inr () \<longrightarrow> dat (engw w2) d = (dat (engw w) d)(key \<mapsto> val))"
proof -
  from cgo_TotalSize_spec [OF ok h size] show n: "nodes w1 = nodes w"
    and s: "eng_same srv dat (engw w) (engw w1)" by simp_all
  then show h1: "srv (engw w1) h = Some d" using h by (simp add: eng_same_def)
  show "on_engine (cgo_Put api h key val) w1 = (p, w2) \<Longrightarrow> nodes w2 = nodes w \<and>
       eng_frame srv dat d (engw w) (engw w2) \<and>
       (p = Inr () \<longrightarrow> dat (engw w2) d = (dat (engw w) d)(key \<mapsto> val))"
    using cgo_Put_spec [OF ok h1] n s by (simp add: eng_same_def eng_frame_def)
qed

lemma db_Put_spec:
  assumes ok: "engine_ok api srv dat inr" and l: "db_linked srv dat w db"
    and call: "db_Put api ev key val w db = (r, w', db')"
  shows "eng_step srv dat (db_dataDirPath db) w w'"
    "db_linked srv dat w' db'"
    "q \<noteq> path_Join (db_dataDirPath db) LastActiveMarker \<Longrightarrow> fmlookup (nodes w) q = Some n \<Longrightarrow>
       fmlookup (nodes w') q = Some n"
    "r = Ok () \<Longrightarrow> db_view dat w' db' = (db_view dat w db)(key \<mapsto> val)"
    "r = Err x \<Longrightarrow> se_Status x \<noteq> 503 \<Longrightarrow> db_view dat w' db' = db_view dat w db"
    "r \<noteq> Crash"
proof -
  let ?d = "db_dataDirPath db" and ?bad = "key = '''' \<or> db_maxValueBytes db < int (length val)"
  obtain m w1 db1 where m: "put_open api ev w db = (m, w1, db1)" by (cases "put_open api ev w db")
  note P = put_open_spec [OF ok l m]
  have d: "db_dataDirPath db1 = ?d" using P(4) by (rule db_ident_eq)
  have "eng_step srv dat ?d w w' \<and> db_linked srv dat w' db' \<and>
    (q \<noteq> path_Join ?d LastActiveMarker \<longrightarrow> fmlookup (nodes w) q = Some n \<longrightarrow>
       fmlookup (nodes w') q = Some n) \<and>
    (r = Ok () \<longrightarrow> db_view dat w' db' = (db_view dat w db)(key \<mapsto> val)) \<and>
    (\<forall>x. r = Err x \<longrightarrow> se_Status x \<noteq> 503 \<longrightarrow> db_view dat w' db' = db_view dat w db) \<and> r \<noteq> Crash"
    (is ?goal)
  proof (cases "?bad \<or> (\<exists>e. m = Inl e) \<or> db_engine db1 = None")
    case True
    with call m P(1-5) l d show ?thesis
      by (cases m) (auto simp: db_Put_unfold Let_def frame_simps eng_step_def db_view_def
          db_linked_def error_defs split: if_splits prod.splits option.splits)
  next
    case False
    then obtain u h where u: "m = Inr u" and h: "db_engine db1 = Some h" and nb: "\<not> ?bad"
      by (cases m) auto
    have act: "db_state db1 = tenantActive" using P(6) [OF u] .
    have h1: "srv (engw w1) h = Some ?d" using P(3) h d by (simp add: db_linked_def)
    obtain sz w2 where s: "on_engine (cgo_TotalSize api h) w1 = (sz, w2)" by fastforce
    obtain p w3 where p: "on_engine (cgo_Put api h key val) w2 = (p, w3)" by fastforce
    note E = db_Put_engine [OF ok h1 s] and E4 = db_Put_engine(4) [OF ok h1 s p]
    from call nb m u h s p consider
        "r = Err ErrRateLimited" "w' = w1" "db_engine db' = Some h" "db_state db' = tenantActive"
          "db_dataDirPath db' = ?d"
      | x where "r = Err x" "x = errStorageFull \<or> se_Status x = 503" "w' = w2"
          "db_engine db' = Some h" "db_state db' = tenantActive" "db_dataDirPath db' = ?d"
      | x where "r = Err x" "se_Status x = 503" "w' = w3" "db_engine db' = Some h"
          "db_state db' = tenantActive" "db_dataDirPath db' = ?d"
      | "r = Ok ()" "p = Inr ()" "w' = w3" "db_engine db' = Some h" "db_state db' = tenantActive"
          "db_dataDirPath db' = ?d"
      using act d
      by (auto simp: db_Put_unfold Let_def frame_simps errUnavailable_def store_err_def
          split: if_splits prod.splits option.splits sum.splits)
    then show ?goal
      using P(1,2,5) E(1-3) E4 h1 d
      by cases (auto simp: eng_step_def eng_same_def eng_frame_def db_linked_def db_view_def)
  qed
  then show "eng_step srv dat (db_dataDirPath db) w w'"
    "db_linked srv dat w' db'"
    "q \<noteq> path_Join (db_dataDirPath db) LastActiveMarker \<Longrightarrow> fmlookup (nodes w) q = Some n \<Longrightarrow>
       fmlookup (nodes w') q = Some n"
    "r = Ok () \<Longrightarrow> db_view dat w' db' = (db_view dat w db)(key \<mapsto> val)"
    "r = Err x \<Longrightarrow> se_Status x \<noteq> 503 \<Longrightarrow> db_view dat w' db' = db_view dat w db"
    "r \<noteq> Crash"
    by blast+
qed

section \<open>Frames that need no assumption on the values\<close>

lemma db_Get_frame:
  assumes ok: "engine_ok api srv dat inr" and l: "db_linked srv dat w db"
    and call: "db_Get api ev key w db = (r, w', db')"
  shows "nodes w' = nodes w \<and> eng_same srv dat (engw w) (engw w')"
proof (cases "db_engine db")
  case None
  with call show ?thesis
    by (auto simp: db_Get_def Let_def frame_simps eng_same_def split: if_splits prod.splits)
next
  case (Some h)
  with l have h: "srv (engw w) h = Some (db_dataDirPath db)" by (simp add: db_linked_def)
  obtain g w1 where g: "on_engine (cgo_Get api h key) w = (g, w1)" by fastforce
  from cgo_Get_spec [OF ok h g] g Some call show ?thesis
    by (auto simp: db_Get_def Let_def frame_simps eng_same_def
        split: if_splits prod.splits option.splits sum.splits)
qed

text \<open>A linked tenant stays linked while its handle and its data are the same.\<close>

lemma db_linked_step:
  assumes "db_linked srv dat w db" "db_step db db'" "db_state db' = tenantPending \<or> db_engine db' = db_engine db"
    and "eng_step srv dat (db_dataDirPath db) w w'"
    and "db_state db' = tenantPending \<Longrightarrow> db_view dat w' db = db_view dat w db"
  shows "db_linked srv dat w' db'"
proof -
  have d: "db_dataDirPath db' = db_dataDirPath db"
    using assms(2) by (auto simp: db_step_def dest: db_ident_eq)
  have e: "db_engine db' = db_engine db" "db_state db' = tenantPending \<Longrightarrow> db_state db = tenantPending"
    using assms(2,3) by (auto simp: db_step_def)
  show ?thesis using assms(1,4,5) e by (auto simp: db_linked_def eng_step_def db_view_def d)
qed

lemma db_Get_keeps_engine:
  "db_Get api ev key w db = (r, w', db') \<Longrightarrow> db_engine db' = db_engine db \<and> db_state db' = db_state db"
  by (auto simp: db_Get_def Let_def frame_simps split: if_splits prod.splits option.splits sum.splits)

lemma db_Delete_keeps_engine:
  "db_Delete api ev key w db = (r, w', db') \<Longrightarrow> db_engine db' = db_engine db \<and> db_state db' = db_state db"
  by (auto simp: db_Delete_def Let_def frame_simps split: if_splits prod.splits option.splits sum.splits)

lemma db_Range_keeps_engine:
  "db_Range api ev s e w db = (r, w', db') \<Longrightarrow> db_engine db' = db_engine db \<and> db_state db' = db_state db"
  by (auto simp: db_Range_def Let_def frame_simps split: if_splits prod.splits option.splits sum.splits)

lemma db_Delete_pending:
  "db_Delete api ev key w db = (r, w', db') \<Longrightarrow> db_state db = tenantPending \<Longrightarrow> w' = w"
  by (auto simp: db_Delete_def Let_def split: if_splits prod.splits)

section \<open>The directory of an active tenant exists\<close>

definition db_housed :: "'w world \<Rightarrow> 'h database \<Rightarrow> bool" where
  "db_housed w db \<longleftrightarrow>
     (db_state db = tenantActive \<longrightarrow> fmlookup (nodes w) (db_dataDirPath db) \<noteq> None)"

lemma PersistActivity_grow [frame_simps]: "nodes_grow w (snd (PersistActivity ev w db))"
proof -
  let ?p = "path_Join (db_dataDirPath db) LastActiveMarker"
  obtain r w1 where w: "os_WriteFile ev ?p '''' w = (r, w1)" by fastforce
  then have "nodes_grow w w1" using os_nodes_grow(1) [of w ev ?p "''''"] by simp
  with w os_nodes_grow(4) [of w1 ev ?p "LastActive db"] show ?thesis
    by (auto simp: PersistActivity_def Let_def split: sum.splits intro: nodes_grow_trans)
qed

lemma materialize_grow:
  assumes "materialize api ev w db = (r, w', db')"
  shows "nodes_grow w w'"
    and "r = Inr u \<Longrightarrow> path_Clean (db_dataDirPath db) = db_dataDirPath db \<Longrightarrow>
      db_dataDirPath db \<noteq> '''' \<Longrightarrow> fmlookup (nodes w') (db_dataDirPath db) \<noteq> None"
proof -
  let ?d = "db_dataDirPath db"
  obtain m w1 where m: "os_MkdirAll ev ?d w = (m, w1)" by fastforce
  obtain i w2 db2 where i: "InitializeEngine api w1 db = (i, w2, db2)"
    by (cases "InitializeEngine api w1 db")
  have g: "nodes_grow w w1" "nodes w2 = nodes w1" "nodes_grow w2 (snd (PersistActivity ev w2 db2))"
    using os_MkdirAll_grow [of w ev ?d] m InitializeEngine_fields(4) [of api w1 db] i
    by (simp_all add: PersistActivity_grow)
  then have "nodes_grow w w2" "nodes_grow w1 (snd (PersistActivity ev w2 db2))"
    by (simp_all add: nodes_grow_def)
  then show "nodes_grow w w'"
    using assms m i g by (auto simp: materialize_def split: sum.splits intro: nodes_grow_trans)
  assume r: "r = Inr u" and c: "path_Clean ?d = ?d" "?d \<noteq> ''''"
  from r assms m i have mr: "m = Inr ()" and w': "w' = snd (PersistActivity ev w2 db2)"
    by (auto simp: materialize_def split: sum.splits)
  have "fmlookup (nodes w1) ?d = Some NDir" using os_MkdirAll_dir [of ev ?d w w1] m mr c by simp
  then show "fmlookup (nodes w') ?d \<noteq> None"
    using \<open>nodes_grow w1 _\<close> unfolding w' nodes_grow_def by blast
qed

lemma db_Put_grow:
  assumes ok: "engine_ok api srv dat inr" and l: "db_linked srv dat w db"
    and call: "db_Put api ev key val w db = (r, w', db')"
  shows "nodes_grow w w'"
    and "db_housed w db \<Longrightarrow> path_Clean (db_dataDirPath db) = db_dataDirPath db \<Longrightarrow>
      db_dataDirPath db \<noteq> '''' \<Longrightarrow> db_housed w' db'"
proof -
  let ?d = "db_dataDirPath db"
  obtain m w1 db1 where m: "put_open api ev w db = (m, w1, db1)" by (cases "put_open api ev w db")
  note P = put_open_spec [OF ok l m]
  have d: "db_dataDirPath db1 = ?d" using P(4) by (rule db_ident_eq)
  have g1: "nodes_grow w w1"
    using m materialize_grow(1) by (fastforce simp: put_open_def split: if_splits)
  have w': "w' = w \<and> db' = db \<or> nodes w' = nodes w1 \<and> db_state db' = db_state db1"
  proof (cases "db_engine db1")
    case None
    with call m show ?thesis
      by (auto simp: db_Put_unfold Let_def frame_simps split: if_splits prod.splits sum.splits)
  next
    case (Some h)
    then have h1: "srv (engw w1) h = Some ?d" using P(3) d by (simp add: db_linked_def)
    obtain sz w2 where s: "on_engine (cgo_TotalSize api h) w1 = (sz, w2)" by fastforce
    obtain p w3 where p: "on_engine (cgo_Put api h key val) w2 = (p, w3)" by fastforce
    from call m Some s p db_Put_engine(1) [OF ok h1 s] db_Put_engine(4) [OF ok h1 s p] show ?thesis
      by (auto simp: db_Put_unfold Let_def frame_simps split: if_splits prod.splits sum.splits)
  qed
  then show "nodes_grow w w'" using g1 by (auto simp: nodes_grow_def)
  assume h: "db_housed w db" and c: "path_Clean ?d = ?d" "?d \<noteq> ''''"
  have "db_housed w1 db1"
  proof (cases "db_state db = tenantPending")
    case True
    with m have M: "materialize api ev w db = (m, w1, db1)" by (simp add: put_open_def)
    show ?thesis
    proof (cases m)
      case (Inl e)
      with materialize_cases [OF M] True show ?thesis by (simp add: db_housed_def)
    next
      case (Inr u)
      with materialize_grow(2) [OF M Inr c] show ?thesis by (simp add: db_housed_def d)
    qed
  next
    case False
    with m h show ?thesis by (auto simp: put_open_def)
  qed
  moreover have "db_dataDirPath db' = ?d"
    using db_Put_step [OF call] by (auto simp: db_step_def dest: db_ident_eq)
  ultimately show "db_housed w' db'" using w' h d by (auto simp: db_housed_def)
qed

end
