(* ===== verification/Tenant_Requests.thy ===== *)
theory Tenant_Requests
  imports Database_Spec
begin

text \<open>
  The contract of a request on a tenant, as the manager and the HTTP handlers rely on it:
  it keeps the tenant well-formed and touches nothing but the tenant's own directory. The
  four requests of \<open>server/database.go\<close> are shown to satisfy it.
\<close>

section \<open>Well-formed tenants and the reach of a request\<close>

definition tenant_wf :: "('h, 'w) eng_at \<Rightarrow> 'w eng_dat \<Rightarrow> 'w world \<Rightarrow> 'h database \<Rightarrow> bool" where
  "tenant_wf srv dat w db \<longleftrightarrow>
     db_inv db \<and> db_linked srv dat w db \<and> db_housed w db \<and>
     path_Clean (db_dataDirPath db) = db_dataDirPath db \<and> db_dataDirPath db \<noteq> ''''"

text \<open>
  What a request on the directory \<open>d\<close> may do to the world: open handles stay open, the data
  of other directories is untouched, nothing disappears from the file system, and no file
  changes but the activity marker of \<open>d\<close>.
\<close>

definition tenant_effect :: "('h, 'w) eng_at \<Rightarrow> 'w eng_dat \<Rightarrow> string \<Rightarrow> 'w world \<Rightarrow> 'w world \<Rightarrow> bool" where
  "tenant_effect srv dat d w w' \<longleftrightarrow>
     eng_step srv dat d w w' \<and> nodes_grow w w' \<and>
     (\<forall>q n. q \<noteq> path_Join d LastActiveMarker \<longrightarrow> fmlookup (nodes w) q = Some n \<longrightarrow>
        fmlookup (nodes w') q = Some n)"

lemma tenant_effect_refl [simp]: "tenant_effect srv dat d w w"
  by (simp add: tenant_effect_def)

lemma tenant_effect_trans:
  "tenant_effect srv dat d w w1 \<Longrightarrow> tenant_effect srv dat d w1 w2 \<Longrightarrow> tenant_effect srv dat d w w2"
  unfolding tenant_effect_def by (blast intro: eng_step_trans nodes_grow_trans)

lemma tenant_effect_engine:
  "nodes w' = nodes w \<Longrightarrow> eng_step srv dat d w w' \<Longrightarrow> tenant_effect srv dat d w w'"
  by (auto simp: tenant_effect_def)

text \<open>A well-formed tenant stays so under the requests of tenants with other directories.\<close>

lemma tenant_wf_other:
  assumes "tenant_wf srv dat w db" "tenant_effect srv dat d w w'" "db_dataDirPath db \<noteq> d"
  shows "tenant_wf srv dat w' db" "db_view dat w' db = db_view dat w db"
  using assms
  by (auto simp: tenant_wf_def tenant_effect_def db_linked_def db_view_def eng_step_def
      db_housed_def nodes_grow_def)

section \<open>The contract\<close>

locale tenant_request =
  fixes op :: "env \<Rightarrow> 'w world \<Rightarrow> 'h database \<Rightarrow> 'r result \<times> 'w world \<times> 'h database"
    and api :: "('h, 'w) fredb_api"
    and srv :: "('h, 'w) eng_at"
    and dat :: "'w eng_dat"
    and inr :: "string \<Rightarrow> string \<Rightarrow> string \<Rightarrow> bool"
  assumes req_step: "op ev w db = (r, w', db') \<Longrightarrow> db_step db db'"
    and req_wf: "engine_ok api srv dat inr \<Longrightarrow> tenant_wf srv dat w db \<Longrightarrow>
      op ev w db = (r, w', db') \<Longrightarrow> tenant_wf srv dat w' db'"
    and req_effect: "engine_ok api srv dat inr \<Longrightarrow> tenant_wf srv dat w db \<Longrightarrow>
      op ev w db = (r, w', db') \<Longrightarrow> tenant_effect srv dat (db_dataDirPath db) w w'"
begin

fun serve_all :: "env list \<Rightarrow> 'w world \<Rightarrow> 'h database \<Rightarrow> 'w world \<times> 'h database" where
  "serve_all [] w db = (w, db)"
| "serve_all (ev # evs) w db = (case op ev w db of (r, w', db') \<Rightarrow> serve_all evs w' db')"

lemma req_dir: "op ev w db = (r, w', db') \<Longrightarrow> db_dataDirPath db' = db_dataDirPath db"
  by (drule req_step) (auto simp: db_step_def dest: db_ident_eq)

lemma serve_all_wf:
  assumes ok: "engine_ok api srv dat inr"
  shows "tenant_wf srv dat w db \<Longrightarrow> serve_all evs w db = (w', db') \<Longrightarrow>
    tenant_wf srv dat w' db' \<and> tenant_effect srv dat (db_dataDirPath db) w w' \<and>
    db_dataDirPath db' = db_dataDirPath db"
proof (induction evs arbitrary: w db)
  case Nil
  then show ?case by simp
next
  case (Cons ev evs)
  obtain r w1 db1 where o: "op ev w db = (r, w1, db1)" by (cases "op ev w db")
  from Cons.prems o have "serve_all evs w1 db1 = (w', db')" by simp
  from Cons.IH [OF req_wf [OF ok Cons.prems(1) o] this] req_dir [OF o]
    req_effect [OF ok Cons.prems(1) o] show ?case
    by (auto intro: tenant_effect_trans)
qed

end

section \<open>The four requests satisfy it\<close>

lemma db_inv_housed_step:
  assumes "db_step db db'" "db_state db' = db_state db" "db_housed w db" "nodes w' = nodes w"
  shows "db_housed w' db'"
  using assms by (auto simp: db_housed_def db_step_def dest: db_ident_eq)

lemma tenant_wf_intro:
  assumes wf: "tenant_wf srv dat w db" and st: "db_step db db'" and i: "db_inv db'"
    and e: "db_engine db' = db_engine db \<and> db_state db' = db_state db"
    and n: "nodes w' = nodes w" and s: "eng_step srv dat (db_dataDirPath db) w w'"
    and v: "db_state db = tenantPending \<Longrightarrow> dat (engw w') = dat (engw w)"
  shows "tenant_wf srv dat w' db'"
proof -
  have d: "db_dataDirPath db' = db_dataDirPath db"
    using st by (auto simp: db_step_def dest: db_ident_eq)
  have l: "db_linked srv dat w db" using wf by (simp add: tenant_wf_def)
  have "db_state db' = tenantPending \<Longrightarrow> db_view dat w' db = db_view dat w db"
    using e v by (simp add: db_view_def)
  then have "db_linked srv dat w' db'" using db_linked_step [OF l st _ s] e by simp
  with wf st e n i d show ?thesis by (simp add: tenant_wf_def db_housed_def)
qed

interpretation get_req: tenant_request "\<lambda>ev w db. db_Get api ev key w db" api srv dat inr
  for key api srv dat inr
proof unfold_locales
  fix ev w r w' db db'
  assume call: "db_Get api ev key w db = (r, w', db')"
  show "db_step db db'" using call by (rule db_Get_step)
  assume ok: "engine_ok api srv dat inr" and wf: "tenant_wf srv dat w db"
  then have f: "nodes w' = nodes w" "eng_same srv dat (engw w) (engw w')"
    using db_Get_frame [OF ok _ call] by (simp_all add: tenant_wf_def)
  then show "tenant_effect srv dat (db_dataDirPath db) w w'"
    by (simp add: tenant_effect_engine eng_step_same)
  show "tenant_wf srv dat w' db'"
    using wf db_Get_step [OF call] db_Get_keeps_engine [OF call] f
    by (intro tenant_wf_intro [OF wf]) (auto simp: tenant_wf_def eng_step_same eng_same_def
        intro: db_inv_Get [OF _ call])
qed

interpretation range_req: tenant_request "\<lambda>ev w db. db_Range api ev s e w db" api srv dat inr
  for s e api srv dat inr
proof unfold_locales
  fix ev w r w' db db'
  assume call: "db_Range api ev s e w db = (r, w', db')"
  show "db_step db db'" using call by (rule db_Range_step)
  assume ok: "engine_ok api srv dat inr" and wf: "tenant_wf srv dat w db"
  then have f: "nodes w' = nodes w" "eng_same srv dat (engw w) (engw w')"
    using db_Range_spec(1,2) [OF ok _ call] by (simp_all add: tenant_wf_def)
  then show "tenant_effect srv dat (db_dataDirPath db) w w'"
    by (simp add: tenant_effect_engine eng_step_same)
  show "tenant_wf srv dat w' db'"
    using wf db_Range_step [OF call] db_Range_keeps_engine [OF call] f
    by (intro tenant_wf_intro [OF wf]) (auto simp: tenant_wf_def eng_step_same eng_same_def
        intro: db_inv_Range [OF _ call])
qed

interpretation delete_req: tenant_request "\<lambda>ev w db. db_Delete api ev key w db" api srv dat inr
  for key api srv dat inr
proof unfold_locales
  fix ev w r w' db db'
  assume call: "db_Delete api ev key w db = (r, w', db')"
  show "db_step db db'" using call by (rule db_Delete_step)
  assume ok: "engine_ok api srv dat inr" and wf: "tenant_wf srv dat w db"
  then have f: "nodes w' = nodes w" "eng_step srv dat (db_dataDirPath db) w w'"
    using db_Delete_spec(1,2) [OF ok _ call] by (simp_all add: tenant_wf_def eng_step_frame)
  then show "tenant_effect srv dat (db_dataDirPath db) w w'"
    by (simp add: tenant_effect_engine)
  show "tenant_wf srv dat w' db'"
    using wf db_Delete_step [OF call] db_Delete_keeps_engine [OF call] f db_Delete_pending [OF call]
    by (intro tenant_wf_intro [OF wf]) (auto simp: tenant_wf_def intro: db_inv_Delete [OF _ call])
qed

interpretation put_req: tenant_request "\<lambda>ev w db. db_Put api ev key val w db" api srv dat inr
  for key val api srv dat inr
proof unfold_locales
  fix ev w r w' db db'
  assume call: "db_Put api ev key val w db = (r, w', db')"
  show st: "db_step db db'" using call by (rule db_Put_step)
  assume ok: "engine_ok api srv dat inr" and wf: "tenant_wf srv dat w db"
  then have l: "db_linked srv dat w db" by (simp add: tenant_wf_def)
  note P = db_Put_spec [OF ok l call] and G = db_Put_grow [OF ok l call]
  show "tenant_effect srv dat (db_dataDirPath db) w w'"
    using P(1,3) G(1) by (auto simp: tenant_effect_def)
  show "tenant_wf srv dat w' db'"
    using wf P(2) G(2) db_inv_Put [OF _ call] st
    by (auto simp: tenant_wf_def db_step_def dest: db_ident_eq)
qed

end
