(* ===== verification/Database_Manager.thy ===== *)
theory Database_Manager
  imports Tenant_Requests
begin

text \<open>
  \<open>server/database-manager.go\<close>: the table of tenants, the registry file \<open>keys.txt\<close> that
  makes it survive a restart, provisioning, deprovisioning and the reaper. The lock of the
  source makes each operation atomic. The tenants of the Go map are pointers that only the
  map and the running requests hold: a request on a tenant reads it from the map and stores
  the changed tenant back.
\<close>

section \<open>State\<close>

record 'h manager =
  man_tenants :: "(string, 'h database) fmap"
  man_dataRoot :: string
  man_maxValueBytes :: int
  man_maxStorageBytes :: "64 word"
  man_rateLimit :: rate_limit_config

definition NewDatabaseManager :: "string \<Rightarrow> int \<Rightarrow> 64 word \<Rightarrow> rate_limit_config \<Rightarrow> 'h manager" where
  "NewDatabaseManager dataRoot maxValueBytes maxStorageBytes rl =
     \<lparr>man_tenants = fmempty, man_dataRoot = dataRoot, man_maxValueBytes = maxValueBytes,
      man_maxStorageBytes = maxStorageBytes, man_rateLimit = rl\<rparr>"

definition set_tenant :: "string \<Rightarrow> 'h database \<Rightarrow> 'h manager \<Rightarrow> 'h manager" where
  "set_tenant k db man = man\<lparr>man_tenants := fmupd k db (man_tenants man)\<rparr>"

definition drop_tenant :: "string \<Rightarrow> 'h manager \<Rightarrow> 'h manager" where
  "drop_tenant k man = man\<lparr>man_tenants := fmdrop k (man_tenants man)\<rparr>"

definition man_NewDatabase :: "gotime \<Rightarrow> gotime \<Rightarrow> string \<Rightarrow> 'h manager \<Rightarrow> 'h database" where
  "man_NewDatabase t1 t2 apiKey man =
     NewDatabase t1 t2 apiKey (path_Join (man_dataRoot man) apiKey) (man_maxValueBytes man)
       (man_maxStorageBytes man) (man_rateLimit man)"

section \<open>Lookup\<close>

definition Lookup :: "'h manager \<Rightarrow> string \<Rightarrow> store_error + 'h database" where
  "Lookup man apiKey =
     (case fmlookup (man_tenants man) apiKey of None \<Rightarrow> Inl ErrUnknownAPIKey | Some db \<Rightarrow> Inr db)"

definition LookupProvisioned :: "'h manager \<Rightarrow> string \<Rightarrow> store_error + 'h database" where
  "LookupProvisioned man apiKey =
     (case fmlookup (man_tenants man) apiKey of
        None \<Rightarrow> Inl (errNotProvisioned apiKey) | Some db \<Rightarrow> Inr db)"

definition TenantCount :: "'h manager \<Rightarrow> nat" where
  "TenantCount man = fcard (fmdom (man_tenants man))"

section \<open>The registry file\<close>

definition registryPath :: "'h manager \<Rightarrow> string" where
  "registryPath man = path_Join (man_dataRoot man) ''keys.txt''"

definition registry_lines :: "string \<Rightarrow> string list" where
  "registry_lines content = filter (\<lambda>line. line \<noteq> '''') (split_on newline content)"

definition readRegistry :: "env \<Rightarrow> 'w world \<Rightarrow> 'h manager \<Rightarrow> os_error + string list" where
  "readRegistry ev w man =
     (case os_ReadFile ev (registryPath man) w of
        Inl (NotExist s) \<Rightarrow> Inr []
      | Inl e \<Rightarrow> Inl e
      | Inr content \<Rightarrow> Inr (registry_lines content))"

definition appendToRegistry ::
  "env \<Rightarrow> string \<Rightarrow> 'w world \<Rightarrow> 'h manager \<Rightarrow> (os_error + unit) \<times> 'w world" where
  "appendToRegistry ev apiKey w man =
     (case os_OpenAppend ev (registryPath man) w of
        (Inl e, w1) \<Rightarrow> (Inl e, w1)
      | (Inr _, w1) \<Rightarrow> os_WriteString ev (registryPath man) (apiKey @ [newline]) w1)"

definition registry_content :: "string list \<Rightarrow> string" where
  "registry_content kept = (if kept \<noteq> [] then join_with newline kept @ [newline] else '''')"

definition removeFromRegistry ::
  "env \<Rightarrow> string \<Rightarrow> 'w world \<Rightarrow> 'h manager \<Rightarrow> (os_error + unit) \<times> 'w world" where
  "removeFromRegistry ev apiKey w man =
     (case readRegistry ev w man of
        Inl e \<Rightarrow> (Inl e, w)
      | Inr keys \<Rightarrow>
          (let kept = filter (\<lambda>k. k \<noteq> apiKey) keys;
               tmp = registryPath man @ ''.tmp'' in
           case os_WriteFile ev tmp (registry_content kept) w of
             (Inl e, w1) \<Rightarrow> (Inl e, w1)
           | (Inr _, w1) \<Rightarrow> os_Rename ev tmp (registryPath man) w1))"

definition ensureRoots :: "env \<Rightarrow> 'w world \<Rightarrow> 'h manager \<Rightarrow> (os_error + unit) \<times> 'w world" where
  "ensureRoots ev w man = os_MkdirAll ev (man_dataRoot man) w"

section \<open>Start-up\<close>

definition file_ModTime :: "env \<Rightarrow> string \<Rightarrow> node \<Rightarrow> gotime" where
  "file_ModTime ev p n =
     \<lparr>wall_ns = (case n of NFile c m \<Rightarrow> m | NDir \<Rightarrow> os_dir_mtime ev p), mono_ns = None\<rparr>"

definition lastPersistedActivity :: "env \<Rightarrow> string \<Rightarrow> 'w world \<Rightarrow> os_error + gotime" where
  "lastPersistedActivity ev d w =
     (let p = path_Join d LastActiveMarker in
      case os_Stat ev p w of Inl e \<Rightarrow> Inl e | Inr n \<Rightarrow> Inr (file_ModTime ev p n))"

definition restore_activity :: "env \<Rightarrow> 'w world \<Rightarrow> 'h database \<Rightarrow> 'h database" where
  "restore_activity ev w db =
     (case lastPersistedActivity ev (db_dataDirPath db) w of
        Inl e \<Rightarrow> db
      | Inr t \<Rightarrow> db\<lparr>db_lastActive := time_Unix_sec t\<rparr>)"

text \<open>The loop of \<open>LoadAll\<close>; each turn reads the clock twice, starting at reading \<open>i\<close>.\<close>

fun load_keys ::
  "('h, 'w) fredb_api \<Rightarrow> env \<Rightarrow> nat \<Rightarrow> string list \<Rightarrow> 'w world \<Rightarrow> 'h manager \<Rightarrow> 'w world \<times> 'h manager" where
  "load_keys api ev i [] w man = (w, man)"
| "load_keys api ev i (apiKey # keys) w man =
     (let db = man_NewDatabase (clk ev i) (clk ev (Suc i)) apiKey man in
      case os_Stat ev (db_dataDirPath db) w of
        Inl (NotExist s) \<Rightarrow> load_keys api ev (i + 2) keys w (set_tenant apiKey db man)
      | _ \<Rightarrow>
          (case InitializeEngine api w db of
             (Inl e, w', db') \<Rightarrow> load_keys api ev (i + 2) keys w' man
           | (Inr _, w', db') \<Rightarrow>
               load_keys api ev (i + 2) keys w' (set_tenant apiKey (restore_activity ev w' db') man)))"

definition LoadAll ::
  "('h, 'w) fredb_api \<Rightarrow> env \<Rightarrow> 'w world \<Rightarrow> 'h manager \<Rightarrow> (os_error + unit) \<times> 'w world \<times> 'h manager" where
  "LoadAll api ev w man =
     (case ensureRoots ev w man of
        (Inl e, w1) \<Rightarrow> (Inl e, w1, man)
      | (Inr _, w1) \<Rightarrow>
          (case readRegistry ev w1 man of
             Inl e \<Rightarrow> (Inl e, w1, man)
           | Inr keys \<Rightarrow> (Inr (), load_keys api ev 0 keys w1 man)))"

section \<open>Provisioning\<close>

text \<open>The retry loop: \<open>n\<close> attempts are left, the next random draw is number \<open>i\<close>.\<close>

fun gen_key :: "env \<Rightarrow> nat \<Rightarrow> nat \<Rightarrow> 'h manager \<Rightarrow> string + string" where
  "gen_key ev 0 i man = Inl ''failed to generate unique api key after retries''"
| "gen_key ev (Suc n) i man =
     (case rand_Read ev i of
        Inl e \<Rightarrow> Inl e
      | Inr b \<Rightarrow>
          (let apiKey = hex_EncodeToString b in
           if fmlookup (man_tenants man) apiKey \<noteq> None then gen_key ev n (Suc i) man
           else Inr apiKey))"

definition generateAPIKey :: "env \<Rightarrow> 'h manager \<Rightarrow> string + string" where
  "generateAPIKey ev man = gen_key ev 5 0 man"

definition errAlreadyProvisioned :: string where
  "errAlreadyProvisioned = ''already provisioned''"

definition RequestProvision ::
  "env \<Rightarrow> 'w world \<Rightarrow> 'h manager \<Rightarrow> (string + string) \<times> 'w world \<times> 'h manager" where
  "RequestProvision ev w man =
     (case generateAPIKey ev man of
        Inl e \<Rightarrow> (Inl e, w, man)
      | Inr apiKey \<Rightarrow>
          if fmlookup (man_tenants man) apiKey \<noteq> None
          then (Inl (errAlreadyProvisioned @ '': '' @ apiKey), w, man)
          else case ensureRoots ev w man of
            (Inl e, w1) \<Rightarrow> (Inl (os_text e), w1, man)
          | (Inr _, w1) \<Rightarrow>
              (case appendToRegistry ev apiKey w1 man of
                 (Inl e, w2) \<Rightarrow> (Inl (os_text e), w2, man)
               | (Inr _, w2) \<Rightarrow>
                   (Inr apiKey, w2,
                    set_tenant apiKey (man_NewDatabase (clk ev 0) (clk ev 1) apiKey man) man)))"

section \<open>Deprovisioning and the reaper\<close>

text \<open>A tenant whose directory cannot be removed stays in the table, without its engine.\<close>

definition Deprovision ::
  "('h, 'w) fredb_api \<Rightarrow> env \<Rightarrow> string \<Rightarrow> 'w world \<Rightarrow> 'h manager \<Rightarrow>
   store_error option \<times> 'w world \<times> 'h manager" where
  "Deprovision api ev apiKey w man =
     (case fmlookup (man_tenants man) apiKey of
        None \<Rightarrow> (Some (errNotProvisioned apiKey), w, man)
      | Some db \<Rightarrow>
          (case Destroy api ev w db of
             (Inl e, w1, db1) \<Rightarrow> (Some (errInternal (os_text e)), w1, set_tenant apiKey db1 man)
           | (Inr _, w1, db1) \<Rightarrow>
               (let man1 = drop_tenant apiKey man in
                case removeFromRegistry ev apiKey w1 man1 of
                  (Inl e, w2) \<Rightarrow> (Some (errInternal (os_text e)), w2, man1)
                | (Inr _, w2) \<Rightarrow> (None, w2, man1))))"

text \<open>
  One pass of the reaper over the tenants that were not pending when it started, in the order
  \<open>order\<close> of Go's map iteration. Each turn has its own environment; \<open>now\<close> is read once.
\<close>

definition reap_one ::
  "('h, 'w) fredb_api \<Rightarrow> gotime \<Rightarrow> int \<Rightarrow> env \<Rightarrow> string \<Rightarrow> 'h database \<Rightarrow> 'w world \<Rightarrow> 'h manager \<Rightarrow>
   bool \<times> 'w world \<times> 'h manager" where
  "reap_one api now maxIdle ev key db w man =
     (let last = LastActive db;
          w1 = snd (PersistActivity ev w db) in
      if maxIdle < time_Sub now last then
        (case Deprovision api ev key w1 man of
           (None, w2, man2) \<Rightarrow> (True, w2, man2)
         | (Some e, w2, man2) \<Rightarrow> (False, w2, man2))
      else (False, w1, man))"

fun reap_loop ::
  "('h, 'w) fredb_api \<Rightarrow> gotime \<Rightarrow> int \<Rightarrow> (string \<Rightarrow> env) \<Rightarrow> (string \<times> 'h database) list \<Rightarrow>
   'w world \<Rightarrow> 'h manager \<Rightarrow> string list \<times> 'w world \<times> 'h manager" where
  "reap_loop api now maxIdle ev [] w man = ([], w, man)"
| "reap_loop api now maxIdle ev ((key, db) # dbs) w man =
     (case reap_one api now maxIdle (ev key) key db w man of
        (gone, w1, man1) \<Rightarrow>
          (case reap_loop api now maxIdle ev dbs w1 man1 of
             (reaped, w2, man2) \<Rightarrow> (if gone then key # reaped else reaped, w2, man2)))"

definition reap_snapshot :: "string list \<Rightarrow> 'h manager \<Rightarrow> (string \<times> 'h database) list" where
  "reap_snapshot order man =
     concat (map (\<lambda>key. case fmlookup (man_tenants man) key of
        None \<Rightarrow> [] | Some db \<Rightarrow> if IsPending db then [] else [(key, db)]) order)"

definition reapInactive ::
  "('h, 'w) fredb_api \<Rightarrow> gotime \<Rightarrow> int \<Rightarrow> (string \<Rightarrow> env) \<Rightarrow> string list \<Rightarrow> 'w world \<Rightarrow> 'h manager \<Rightarrow>
   string list \<times> 'w world \<times> 'h manager" where
  "reapInactive api now maxIdle ev order w man =
     reap_loop api now maxIdle ev (reap_snapshot order man) w man"

section \<open>A request through the manager\<close>

text \<open>What the HTTP handlers do: look the tenant up, then run the request on it.\<close>

definition man_serve ::
  "(env \<Rightarrow> 'w world \<Rightarrow> 'h database \<Rightarrow> 'a result \<times> 'w world \<times> 'h database) \<Rightarrow> env \<Rightarrow> string \<Rightarrow>
   'w world \<Rightarrow> 'h manager \<Rightarrow> 'a result \<times> 'w world \<times> 'h manager" where
  "man_serve op ev apiKey w man =
     (case Lookup man apiKey of
        Inl e \<Rightarrow> (Err e, w, man)
      | Inr db \<Rightarrow> (case op ev w db of (r, w', db') \<Rightarrow> (r, w', set_tenant apiKey db' man)))"

lemma set_tenant_fields [simp]:
  "man_dataRoot (set_tenant k db man) = man_dataRoot man"
  "man_maxValueBytes (set_tenant k db man) = man_maxValueBytes man"
  "man_maxStorageBytes (set_tenant k db man) = man_maxStorageBytes man"
  "man_rateLimit (set_tenant k db man) = man_rateLimit man"
  "fmlookup (man_tenants (set_tenant k db man)) j =
     (if j = k then Some db else fmlookup (man_tenants man) j)"
  "registryPath (set_tenant k db man) = registryPath man"
  by (simp_all add: set_tenant_def registryPath_def)

lemma drop_tenant_fields [simp]:
  "man_dataRoot (drop_tenant k man) = man_dataRoot man"
  "man_maxValueBytes (drop_tenant k man) = man_maxValueBytes man"
  "man_maxStorageBytes (drop_tenant k man) = man_maxStorageBytes man"
  "man_rateLimit (drop_tenant k man) = man_rateLimit man"
  "fmlookup (man_tenants (drop_tenant k man)) j =
     (if j = k then None else fmlookup (man_tenants man) j)"
  "registryPath (drop_tenant k man) = registryPath man"
  by (simp_all add: drop_tenant_def registryPath_def)

end
