(* ===== verification/Manager_Laws.thy ===== *)
theory Manager_Laws
  imports Database_Manager
begin

text \<open>
  The invariant of the tenant table and its preservation by every operation of the manager:
  the entries carry their own key, each tenant has a directory of its own under the data
  root, is well-formed, and a directory that does not exist holds no data.
\<close>

section \<open>API keys and the paths made of them\<close>

definition is_api_key :: "string \<Rightarrow> bool" where
  "is_api_key k = (length k = 48 \<and> set k \<subseteq> hex_chars)"

lemma api_key_plain:
  assumes "is_api_key k"
  shows "plain_name k" "newline \<notin> set k" "k \<noteq> ''''"
proof -
  have "slash \<notin> hex_chars" "newline \<notin> hex_chars" "CHR ''.'' \<notin> hex_chars"
    by (simp_all add: hex_chars_def)
  with assms show "plain_name k" "newline \<notin> set k" "k \<noteq> ''''"
    by (auto simp: is_api_key_def plain_name_def)
qed

lemma plain_keys_txt: "plain_name ''keys.txt''"
  by (simp add: plain_name_def)

definition tenant_dir :: "'h manager \<Rightarrow> string \<Rightarrow> string" where
  "tenant_dir man k = path_Join (man_dataRoot man) k"

lemma tenant_dir_update [simp]:
  "tenant_dir (set_tenant k db man) j = tenant_dir man j"
  "tenant_dir (drop_tenant k man) j = tenant_dir man j"
  by (simp_all add: tenant_dir_def)

lemma tenant_dir_inj:
  "is_api_key a \<Longrightarrow> is_api_key b \<Longrightarrow> tenant_dir man a = tenant_dir man b \<longleftrightarrow> a = b"
  by (simp add: tenant_dir_def path_Join_inj api_key_plain)

lemma tenant_dir_clean:
  "is_api_key k \<Longrightarrow> path_Clean (tenant_dir man k) = tenant_dir man k"
  "is_api_key k \<Longrightarrow> tenant_dir man k \<noteq> ''''"
  by (simp_all add: tenant_dir_def path_Clean_Join api_key_plain)

lemma tenant_dir_under:
  "is_api_key a \<Longrightarrow> is_api_key b \<Longrightarrow> a \<noteq> b \<Longrightarrow> \<not> path_under (tenant_dir man a) (tenant_dir man b)"
  by (simp add: tenant_dir_def plain_not_under api_key_plain)

lemma tenant_dir_registry:
  assumes "is_api_key k"
  shows "tenant_dir man k \<noteq> registryPath man"
    and "tenant_dir man k \<noteq> registryPath man @ ''.tmp''"
    and "\<not> path_under (tenant_dir man k) (registryPath man)"
proof -
  have l: "length k \<noteq> length ''keys.txt''" "length k \<noteq> length ''keys.txt.tmp''"
    using assms by (simp_all add: is_api_key_def)
  then have n: "k \<noteq> ''keys.txt''" "k \<noteq> ''keys.txt.tmp''" by auto
  then show "tenant_dir man k \<noteq> registryPath man"
    using path_Join_inj [OF api_key_plain(1) [OF assms] plain_keys_txt]
    by (simp add: tenant_dir_def registryPath_def)
  show "tenant_dir man k \<noteq> registryPath man @ ''.tmp''"
    using n(2) by (simp add: tenant_dir_def registryPath_def path_Join_base plain_keys_txt
        api_key_plain [OF assms])
  show "\<not> path_under (tenant_dir man k) (registryPath man)"
    using plain_not_under(1) [OF api_key_plain(1) [OF assms] plain_keys_txt n(1)]
    by (simp add: tenant_dir_def registryPath_def)
qed

lemma tenant_dir_tmp:
  assumes "is_api_key k"
  shows "\<not> path_under (tenant_dir man k) (registryPath man @ ''.tmp'')"
proof -
  have t: "plain_name ''keys.txt.tmp''" by (simp add: plain_name_def)
  have "length k \<noteq> length ''keys.txt.tmp''" using assms by (simp add: is_api_key_def)
  then have "k \<noteq> ''keys.txt.tmp''" by auto
  moreover have "registryPath man @ ''.tmp'' = path_Join (man_dataRoot man) ''keys.txt.tmp''"
    by (simp add: registryPath_def path_Join_base plain_keys_txt t)
  ultimately show ?thesis
    using plain_not_under(1) [OF api_key_plain(1) [OF assms] t] by (simp add: tenant_dir_def)
qed

lemma marker_not_registry: "path_Join d LastActiveMarker \<noteq> registryPath man"
proof
  have m: "plain_name LastActiveMarker" by (simp add: plain_name_def LastActiveMarker_def)
  assume "path_Join d LastActiveMarker = registryPath man"
  then have "last (path_Join d LastActiveMarker) = last (registryPath man)" by simp
  then show False
    by (simp add: registryPath_def path_Join_base m plain_keys_txt)
       (simp add: LastActiveMarker_def)
qed

section \<open>The invariant\<close>

definition tenant_ok :: "('h, 'w) eng_at \<Rightarrow> 'w eng_dat \<Rightarrow> 'w world \<Rightarrow> 'h manager \<Rightarrow> string \<Rightarrow>
    'h database \<Rightarrow> bool" where
  "tenant_ok srv dat w man k db \<longleftrightarrow>
     is_api_key k \<and> db_APIKey db = k \<and> db_dataDirPath db = tenant_dir man k \<and> tenant_wf srv dat w db"

definition dirs_ok :: "'w eng_dat \<Rightarrow> 'w world \<Rightarrow> 'h manager \<Rightarrow> bool" where
  "dirs_ok dat w man \<longleftrightarrow>
     (\<forall>k. is_api_key k \<longrightarrow> fmlookup (nodes w) (tenant_dir man k) = None \<longrightarrow>
        dat (engw w) (tenant_dir man k) = Map.empty)"

definition man_sane :: "'h manager \<Rightarrow> bool" where
  "man_sane man \<longleftrightarrow> sane_config (man_rateLimit man) \<and> man_maxValueBytes man < 2 ^ 63"

definition man_inv :: "('h, 'w) eng_at \<Rightarrow> 'w eng_dat \<Rightarrow> 'w world \<Rightarrow> 'h manager \<Rightarrow> bool" where
  "man_inv srv dat w man \<longleftrightarrow>
     man_sane man \<and> dirs_ok dat w man \<and>
     (\<forall>k db. fmlookup (man_tenants man) k = Some db \<longrightarrow> tenant_ok srv dat w man k db)"

lemma man_sane_update [simp]:
  "man_sane (set_tenant k db man) = man_sane man"
  "man_sane (drop_tenant k man) = man_sane man"
  by (simp_all add: man_sane_def)

lemma tenant_ok_update [simp]:
  "tenant_ok srv dat w (set_tenant j db' man) k db = tenant_ok srv dat w man k db"
  "tenant_ok srv dat w (drop_tenant j man) k db = tenant_ok srv dat w man k db"
  by (simp_all add: tenant_ok_def)

lemma dirs_ok_update [simp]:
  "dirs_ok dat w (set_tenant j db' man) = dirs_ok dat w man"
  "dirs_ok dat w (drop_tenant j man) = dirs_ok dat w man"
  by (simp_all add: dirs_ok_def)

lemma man_invD:
  "man_inv srv dat w man \<Longrightarrow> fmlookup (man_tenants man) k = Some db \<Longrightarrow> tenant_ok srv dat w man k db"
  by (simp add: man_inv_def)

lemma man_inv_set:
  "man_inv srv dat w man \<Longrightarrow> tenant_ok srv dat w man k db \<Longrightarrow> man_inv srv dat w (set_tenant k db man)"
  by (simp add: man_inv_def)

lemma man_inv_drop: "man_inv srv dat w man \<Longrightarrow> man_inv srv dat w (drop_tenant k man)"
  by (simp add: man_inv_def)

lemma man_inv_New:
  "sane_config rl \<Longrightarrow> mv < 2 ^ 63 \<Longrightarrow>
   (\<And>k. is_api_key k \<Longrightarrow> fmlookup (nodes w) (path_Join d k) = None \<Longrightarrow>
      dat (engw w) (path_Join d k) = Map.empty) \<Longrightarrow>
   man_inv srv dat w (NewDatabaseManager d mv ms rl)"
  by (simp add: man_inv_def NewDatabaseManager_def man_sane_def dirs_ok_def tenant_dir_def)

text \<open>What a tenant's well-formedness depends on in the world.\<close>

lemma tenant_wf_cong:
  assumes "tenant_wf srv dat w db"
    and "\<And>h. db_engine db = Some h \<Longrightarrow> srv (engw w') h = srv (engw w) h"
    and "dat (engw w') (db_dataDirPath db) = dat (engw w) (db_dataDirPath db)"
    and "fmlookup (nodes w) (db_dataDirPath db) \<noteq> None \<Longrightarrow>
      fmlookup (nodes w') (db_dataDirPath db) \<noteq> None"
  shows "tenant_wf srv dat w' db"
  using assms by (auto simp: tenant_wf_def db_linked_def db_view_def db_housed_def)

text \<open>
  A world that differs from another only in files, none of them a tenant's directory, or has
  more of them: the invariant carries over.
\<close>

definition files_only :: "'h manager \<Rightarrow> 'w world \<Rightarrow> 'w world \<Rightarrow> bool" where
  "files_only man w w' \<longleftrightarrow>
     engw w' = engw w \<and>
     (\<forall>k. is_api_key k \<longrightarrow> fmlookup (nodes w) (tenant_dir man k) \<noteq> None \<longrightarrow>
        fmlookup (nodes w') (tenant_dir man k) \<noteq> None)"

lemma files_only_refl [simp]: "files_only man w w"
  by (simp add: files_only_def)

lemma files_only_trans: "files_only man w w1 \<Longrightarrow> files_only man w1 w2 \<Longrightarrow> files_only man w w2"
  by (simp add: files_only_def)

lemma files_only_update [simp]:
  "files_only (set_tenant k db man) = files_only man" "files_only (drop_tenant k man) = files_only man"
  by (simp_all add: files_only_def fun_eq_iff)

lemma files_only_grow: "engw w' = engw w \<Longrightarrow> nodes_grow w w' \<Longrightarrow> files_only man w w'"
  by (simp add: files_only_def nodes_grow_def)

lemma files_only_inv:
  assumes "man_inv srv dat w man" "files_only man w w'"
  shows "man_inv srv dat w' man"
proof -
  have "dirs_ok dat w' man"
    unfolding dirs_ok_def
  proof (intro allI impI)
    fix k
    assume k: "is_api_key k" "fmlookup (nodes w') (tenant_dir man k) = None"
    with assms(2) have "fmlookup (nodes w) (tenant_dir man k) = None"
      unfolding files_only_def by blast
    with k(1) assms show "dat (engw w') (tenant_dir man k) = Map.empty"
      by (simp add: man_inv_def dirs_ok_def files_only_def)
  qed
  moreover have "tenant_ok srv dat w' man k db" if "fmlookup (man_tenants man) k = Some db" for k db
    using man_invD [OF assms(1) that] assms(2)
    by (auto simp: tenant_ok_def files_only_def intro: tenant_wf_cong)
  ultimately show ?thesis using assms(1) by (simp add: man_inv_def)
qed

section \<open>The registry calls touch the registry only\<close>

lemma files_only_frame:
  "engw w' = engw w \<Longrightarrow>
   (\<And>q. q \<noteq> registryPath man \<Longrightarrow> q \<noteq> registryPath man @ ''.tmp'' \<Longrightarrow>
      fmlookup (nodes w') q = fmlookup (nodes w) q) \<Longrightarrow> files_only man w w'"
  by (simp add: files_only_def tenant_dir_registry)

lemma ensureRoots_files: "files_only man w (snd (ensureRoots ev w man))"
  by (simp add: ensureRoots_def files_only_grow frame_simps)

lemma appendToRegistry_frame:
  "engw (snd (appendToRegistry ev k w man)) = engw w"
  "q \<noteq> registryPath man \<Longrightarrow>
   fmlookup (nodes (snd (appendToRegistry ev k w man))) q = fmlookup (nodes w) q"
proof -
  obtain r w1 where o: "os_OpenAppend ev (registryPath man) w = (r, w1)" by fastforce
  have e: "engw w1 = engw w"
    using os_OpenAppend_frame(1) [of ev "registryPath man" w] o by simp
  then show "engw (snd (appendToRegistry ev k w man)) = engw w"
    using o by (simp add: appendToRegistry_def frame_simps split: sum.splits)
  assume q: "q \<noteq> registryPath man"
  then have "fmlookup (nodes w1) q = fmlookup (nodes w) q"
    using os_OpenAppend_frame(2) [of q "registryPath man" ev w] o by simp
  then show "fmlookup (nodes (snd (appendToRegistry ev k w man))) q = fmlookup (nodes w) q"
    using o q by (simp add: appendToRegistry_def frame_simps split: sum.splits)
qed

lemma removeFromRegistry_frame:
  "engw (snd (removeFromRegistry ev k w man)) = engw w"
  "q \<noteq> registryPath man \<Longrightarrow> q \<noteq> registryPath man @ ''.tmp'' \<Longrightarrow>
   fmlookup (nodes (snd (removeFromRegistry ev k w man))) q = fmlookup (nodes w) q"
proof -
  let ?t = "registryPath man @ ''.tmp''"
  have *: "engw (snd (removeFromRegistry ev k w man)) = engw w \<and>
    (q \<noteq> registryPath man \<longrightarrow> q \<noteq> ?t \<longrightarrow>
     fmlookup (nodes (snd (removeFromRegistry ev k w man))) q = fmlookup (nodes w) q)"
  proof (cases "readRegistry ev w man")
    case (Inl e)
    then show ?thesis by (simp add: removeFromRegistry_def)
  next
    case (Inr keys)
    let ?c = "registry_content (filter (\<lambda>j. j \<noteq> k) keys)"
    obtain r w1 where o: "os_WriteFile ev ?t ?c w = (r, w1)" by fastforce
    then have "engw w1 = engw w" "q \<noteq> ?t \<Longrightarrow> fmlookup (nodes w1) q = fmlookup (nodes w) q"
      using os_WriteFile_frame(1) [of ev ?t ?c w] os_WriteFile_frame(2) [of q ?t ev ?c w] by simp_all
    then show ?thesis
      using o Inr by (simp add: removeFromRegistry_def Let_def frame_simps split: sum.splits)
  qed
  then show "engw (snd (removeFromRegistry ev k w man)) = engw w"
    "q \<noteq> registryPath man \<Longrightarrow> q \<noteq> ?t \<Longrightarrow>
     fmlookup (nodes (snd (removeFromRegistry ev k w man))) q = fmlookup (nodes w) q" by simp_all
qed

lemma registry_files:
  "files_only man w (snd (appendToRegistry ev k w man))"
  "files_only man w (snd (removeFromRegistry ev k w man))"
  by (simp_all add: files_only_frame appendToRegistry_frame removeFromRegistry_frame)

end
