(* ===== verification/Manager_Ops.thy ===== *)
theory Manager_Ops
  imports Manager_Laws
begin

text \<open>
  Every operation of the manager keeps the invariant of the tenant table, and what each one
  does to the key-value maps of the tenants: a request changes the map of its own tenant only,
  provisioning adds an empty one, deprovisioning removes one, start-up and the reaper keep
  those they do not remove.
\<close>

section \<open>The maps of all tenants\<close>

definition man_view :: "'w eng_dat \<Rightarrow> 'w world \<Rightarrow> 'h manager \<Rightarrow> string \<rightharpoonup> (string \<rightharpoonup> string)" where
  "man_view dat w man k = map_option (db_view dat w) (fmlookup (man_tenants man) k)"

lemma man_view_set [simp]:
  "man_view dat w (set_tenant k db man) = (man_view dat w man)(k \<mapsto> db_view dat w db)"
  by (simp add: man_view_def fun_eq_iff)

lemma man_view_drop [simp]: "man_view dat w (drop_tenant k man) = (man_view dat w man)(k := None)"
  by (simp add: man_view_def fun_eq_iff)

lemma man_view_cong:
  assumes "man_inv srv dat w man"
    and "\<And>k. is_api_key k \<Longrightarrow> k \<in> dom (man_view dat w man) \<Longrightarrow>
      dat (engw w') (tenant_dir man k) = dat (engw w) (tenant_dir man k)"
  shows "man_view dat w' man = man_view dat w man"
proof
  fix k
  show "man_view dat w' man k = man_view dat w man k"
  proof (cases "fmlookup (man_tenants man) k")
    case (Some db)
    with man_invD [OF assms(1) Some] assms(2) [of k] show ?thesis
      by (auto simp: man_view_def tenant_ok_def db_view_def dom_def)
  qed (simp add: man_view_def)
qed

lemma files_only_view: "files_only man w w' \<Longrightarrow> man_view dat w' man = man_view dat w man"
  by (auto simp: man_view_def files_only_def db_view_def fun_eq_iff intro!: option.map_cong)

lemma engw_update_view [simp]: "db_view dat (w\<lparr>nodes := n\<rparr>) db = db_view dat w db"
  by (simp add: db_view_def)

section \<open>A request through the manager\<close>

text \<open>The registry is out of reach of the requests.\<close>

definition registry_node :: "'w world \<Rightarrow> 'h manager \<Rightarrow> node option" where
  "registry_node w man = fmlookup (nodes w) (registryPath man)"

lemma tenant_effect_man_inv:
  assumes inv: "man_inv srv dat w man" and k: "fmlookup (man_tenants man) k = Some db"
    and eff: "tenant_effect srv dat (db_dataDirPath db) w w'"
    and wf: "tenant_wf srv dat w' db'" and id: "db_ident db' = db_ident db"
  shows "man_inv srv dat w' (set_tenant k db' man)"
    and "man_view dat w' (set_tenant k db' man) = (man_view dat w man)(k \<mapsto> db_view dat w' db')"
    and "registry_node w man = Some n \<Longrightarrow> registry_node w' (set_tenant k db' man) = Some n"
proof -
  let ?d = "tenant_dir man k"
  from man_invD [OF inv k] have K: "is_api_key k" "db_APIKey db = k" "db_dataDirPath db = ?d"
    by (simp_all add: tenant_ok_def)
  with id have K': "db_APIKey db' = k" "db_dataDirPath db' = ?d" by (simp_all add: db_ident_def)
  have other: "tenant_ok srv dat w' man j dbj \<and> db_view dat w' dbj = db_view dat w dbj"
    if "fmlookup (man_tenants man) j = Some dbj" "j \<noteq> k" for j dbj
  proof -
    from man_invD [OF inv that(1)] have J: "tenant_ok srv dat w man j dbj" .
    then have "db_dataDirPath dbj \<noteq> ?d"
      using that(2) K(1) by (simp add: tenant_ok_def tenant_dir_inj)
    with tenant_wf_other [OF _ eff] J K(3) show ?thesis by (simp add: tenant_ok_def)
  qed
  have "dirs_ok dat w' man"
    unfolding dirs_ok_def
  proof (intro allI impI)
    fix j
    assume j: "is_api_key j" "fmlookup (nodes w') (tenant_dir man j) = None"
    show "dat (engw w') (tenant_dir man j) = Map.empty"
    proof (cases "j = k")
      case True
      with wf j K' show ?thesis
        by (cases "db_state db'") (auto simp: tenant_wf_def db_linked_def db_housed_def db_view_def)
    next
      case False
      then have "tenant_dir man j \<noteq> ?d" using j K by (simp add: tenant_dir_inj)
      moreover have "fmlookup (nodes w) (tenant_dir man j) = None"
        using eff j(2) unfolding tenant_effect_def nodes_grow_def by blast
      ultimately show ?thesis
        using inv j(1) eff K(3) by (simp add: man_inv_def dirs_ok_def tenant_effect_def eng_step_def)
    qed
  qed
  then show "man_inv srv dat w' (set_tenant k db' man)"
    using inv other wf K(1) K' by (auto simp: man_inv_def tenant_ok_def)
  have "man_view dat w' man j = man_view dat w man j" if "j \<noteq> k" for j
    using other [OF _ that] by (cases "fmlookup (man_tenants man) j") (auto simp: man_view_def)
  then show "man_view dat w' (set_tenant k db' man) = (man_view dat w man)(k \<mapsto> db_view dat w' db')"
    by (auto simp: fun_eq_iff)
  show "registry_node w man = Some n \<Longrightarrow> registry_node w' (set_tenant k db' man) = Some n"
    using eff marker_not_registry [of "db_dataDirPath db" man, symmetric]
    by (auto simp: tenant_effect_def registry_node_def)
qed

context tenant_request
begin

lemma man_serve_cases:
  assumes "man_serve op ev k w man = (r, w', man')"
  shows "fmlookup (man_tenants man) k = None \<and> r = Err ErrUnknownAPIKey \<and> w' = w \<and> man' = man \<or>
    (\<exists>db db'. fmlookup (man_tenants man) k = Some db \<and> op ev w db = (r, w', db') \<and>
       man' = set_tenant k db' man)"
  using assms by (auto simp: man_serve_def Lookup_def split: option.splits prod.splits)

lemma man_serve_inv:
  assumes ok: "engine_ok api srv dat inr" and inv: "man_inv srv dat w man"
    and call: "man_serve op ev k w man = (r, w', man')"
  shows "man_inv srv dat w' man'"
    and "j \<noteq> k \<Longrightarrow> man_view dat w' man' j = man_view dat w man j"
    and "j \<noteq> k \<Longrightarrow> fmlookup (man_tenants man') j = fmlookup (man_tenants man) j"
    and "fmdom (man_tenants man') = fmdom (man_tenants man)"
    and "registry_node w man = Some n \<Longrightarrow> registry_node w' man' = Some n"
proof -
  have "man_inv srv dat w' man' \<and>
    (j \<noteq> k \<longrightarrow> man_view dat w' man' j = man_view dat w man j) \<and>
    (j \<noteq> k \<longrightarrow> fmlookup (man_tenants man') j = fmlookup (man_tenants man) j) \<and>
    fmdom (man_tenants man') = fmdom (man_tenants man) \<and>
    (registry_node w man = Some n \<longrightarrow> registry_node w' man' = Some n)"
    using man_serve_cases [OF call]
  proof (elim disjE exE conjE)
    fix db db'
    assume k: "fmlookup (man_tenants man) k = Some db" and o: "op ev w db = (r, w', db')"
      and m: "man' = set_tenant k db' man"
    have wf: "tenant_wf srv dat w db" using man_invD [OF inv k] by (simp add: tenant_ok_def)
    have id: "db_ident db' = db_ident db" using req_step [OF o] by (simp add: db_step_def)
    note E = tenant_effect_man_inv [OF inv k req_effect [OF ok wf o] req_wf [OF ok wf o] id]
    have "fmdom (man_tenants man') = fmdom (man_tenants man)"
      using k by (auto simp: m set_tenant_def fset_eq_iff fmlookup_dom_iff)
    with E show ?thesis by (simp add: m)
  qed (use inv in simp)
  then show "man_inv srv dat w' man'"
    and "j \<noteq> k \<Longrightarrow> man_view dat w' man' j = man_view dat w man j"
    and "j \<noteq> k \<Longrightarrow> fmlookup (man_tenants man') j = fmlookup (man_tenants man) j"
    and "fmdom (man_tenants man') = fmdom (man_tenants man)"
    and "registry_node w man = Some n \<Longrightarrow> registry_node w' man' = Some n" by auto
qed

end

section \<open>Deprovisioning\<close>

lemma os_RemoveAll_engw:
  "os_RemoveAll g ev p w = (r, w') \<Longrightarrow> \<exists>b. engw w' = g b p (engw w) \<and> (r = Inr u \<longrightarrow> b)"
  by (auto simp: os_RemoveAll_def split: option.splits)

lemma Destroy_spec:
  assumes ok: "engine_ok api srv dat inr" and call: "Destroy api ev w db = (r, w', db')"
  shows "db' = db\<lparr>db_engine := None\<rparr>"
    and "db_engine db \<noteq> Some h \<Longrightarrow> srv (engw w') h = srv (engw w) h"
    and "\<not> path_under (db_dataDirPath db) d \<Longrightarrow> dat (engw w') d = dat (engw w) d"
    and "\<not> path_under (db_dataDirPath db) q \<Longrightarrow> fmlookup (nodes w') q = fmlookup (nodes w) q"
    and "r = Inr u \<Longrightarrow> dat (engw w') (db_dataDirPath db) = Map.empty"
    and "r = Inl e \<Longrightarrow> fmlookup (nodes w') (db_dataDirPath db) = fmlookup (nodes w) (db_dataDirPath db)"
    and "dat (engw w) (db_dataDirPath db) = Map.empty \<Longrightarrow>
      dat (engw w') (db_dataDirPath db) = Map.empty"
proof -
  let ?d = "db_dataDirPath db"
  define w1 where "w1 = (case db_engine db of None \<Rightarrow> w | Some h \<Rightarrow> w\<lparr>engw := cgo_Close api h (engw w)\<rparr>)"
  have n1: "nodes w1 = nodes w" and d1: "dat (engw w1) = dat (engw w)"
    and s1: "db_engine db \<noteq> Some h \<Longrightarrow> srv (engw w1) h = srv (engw w) h" for h
    using engine_ok_closeD [OF ok] by (auto simp: w1_def cgo_Close_def split: option.splits)
  have c: "os_RemoveAll (fredb_dir_removed api) ev ?d w1 = (r, w')" and db': "db' = db\<lparr>db_engine := None\<rparr>"
    using call by (auto simp: Destroy_def w1_def split: option.splits prod.splits)
  show "db' = db\<lparr>db_engine := None\<rparr>" by (rule db')
  from os_RemoveAll_engw [OF c] obtain b where
    b: "engw w' = fredb_dir_removed api b ?d (engw w1)" "r = Inr () \<longrightarrow> b" by blast
  show "db_engine db \<noteq> Some h \<Longrightarrow> srv (engw w') h = srv (engw w) h"
    using s1 engine_ok_removedD(1) [OF ok] by (simp add: b(1))
  show "\<not> path_under ?d d \<Longrightarrow> dat (engw w') d = dat (engw w) d"
    using d1 engine_ok_removedD(2) [OF ok] by (simp add: b(1))
  show "\<not> path_under ?d q \<Longrightarrow> fmlookup (nodes w') q = fmlookup (nodes w) q"
    using os_RemoveAll_frame [of ?d q "fredb_dir_removed api" ev w1] c n1 by simp
  show "r = Inr u \<Longrightarrow> dat (engw w') ?d = Map.empty"
    using b engine_ok_removedD(3) [OF ok] by simp
  show "r = Inl e \<Longrightarrow> fmlookup (nodes w') ?d = fmlookup (nodes w) ?d"
    using os_RemoveAll_failed c n1 by fastforce
  show "dat (engw w) ?d = Map.empty \<Longrightarrow> dat (engw w') ?d = Map.empty"
    using d1 engine_ok_removedD(4) [OF ok] by (simp add: b(1))
qed

text \<open>What happens to the table when a tenant's directory is destroyed, or fails to be.\<close>

lemma Destroy_man:
  assumes ok: "engine_ok api srv dat inr" and inv: "man_inv srv dat w man"
    and k: "fmlookup (man_tenants man) k = Some db" and call: "Destroy api ev w db = (r, w', db')"
  shows "r = Inr u \<Longrightarrow> man_inv srv dat w' (drop_tenant k man)"
    and "r = Inl e \<Longrightarrow> man_inv srv dat w' (set_tenant k db' man)"
    and "j \<noteq> k \<Longrightarrow> man_view dat w' man j = man_view dat w man j"
    and "registry_node w' man = registry_node w man"
proof -
  note D = Destroy_spec [OF ok call]
  from man_invD [OF inv k] have K: "is_api_key k" "db_dataDirPath db = tenant_dir man k"
    "db_APIKey db = k" "tenant_wf srv dat w db"
    by (simp_all add: tenant_ok_def)
  have out: "\<not> path_under (db_dataDirPath db) (tenant_dir man j)" if "is_api_key j" "j \<noteq> k" for j
    using that K by (simp add: tenant_dir_under)
  have other: "tenant_ok srv dat w' man j dbj \<and> db_view dat w' dbj = db_view dat w dbj"
    if j: "fmlookup (man_tenants man) j = Some dbj" "j \<noteq> k" for j dbj
  proof -
    from man_invD [OF inv j(1)] have J: "is_api_key j" "db_dataDirPath dbj = tenant_dir man j"
      "tenant_wf srv dat w dbj" "db_APIKey dbj = j"
      by (simp_all add: tenant_ok_def)
    have u: "\<not> path_under (db_dataDirPath db) (db_dataDirPath dbj)" using out [OF J(1) j(2)] J(2) by simp
    have "db_engine db \<noteq> Some h" if "db_engine dbj = Some h" for h
      using that J K u by (auto simp: tenant_wf_def db_linked_def)
    then have "tenant_wf srv dat w' dbj"
      using D(3,4) [OF u] D(2) by (intro tenant_wf_cong [OF J(3)]) auto
    with J D(3) [OF u] show ?thesis by (simp add: tenant_ok_def db_view_def)
  qed
  have dirs: "dat (engw w') (tenant_dir man j) = Map.empty"
    if "is_api_key j" "j \<noteq> k" "fmlookup (nodes w') (tenant_dir man j) = None" for j
    using that out [OF that(1,2)] D(3,4) inv by (simp add: man_inv_def dirs_ok_def)
  show "man_inv srv dat w' (drop_tenant k man)" if r: "r = Inr u"
    using dirs D(5) [OF r] K(2) other inv by (auto simp: man_inv_def dirs_ok_def)
  show "man_inv srv dat w' (set_tenant k db' man)" if r: "r = Inl e"
  proof -
    have k': "dat (engw w') (tenant_dir man k) = Map.empty"
      if "fmlookup (nodes w') (tenant_dir man k) = None"
    proof -
      have "dat (engw w) (db_dataDirPath db) = Map.empty"
        using that D(6) [OF r] K inv by (simp add: man_inv_def dirs_ok_def)
      from D(7) [OF this] K(2) show ?thesis by simp
    qed
    have "dirs_ok dat w' man"
      unfolding dirs_ok_def
    proof (intro allI impI)
      fix j assume "is_api_key j" "fmlookup (nodes w') (tenant_dir man j) = None"
      then show "dat (engw w') (tenant_dir man j) = Map.empty"
        using dirs k' by (cases "j = k") simp_all
    qed
    moreover have "tenant_wf srv dat w' db'"
    proof -
      have wf: "db_inv db" "db_linked srv dat w db" "db_housed w db"
        "path_Clean (db_dataDirPath db) = db_dataDirPath db" "db_dataDirPath db \<noteq> ''''"
        using K(4) by (simp_all add: tenant_wf_def)
      have "db_inv db'" using wf(1) by (simp add: D(1) db_inv_def)
      moreover have "db_linked srv dat w' db'"
        using wf(2) D(7) by (simp add: D(1) db_linked_def db_view_def)
      moreover have "db_housed w' db'" using wf(3) D(6) [OF r] by (simp add: D(1) db_housed_def)
      ultimately show ?thesis using wf(4,5) by (simp add: tenant_wf_def D(1))
    qed
    moreover have "tenant_ok srv dat w' man k db'"
      using calculation(2) K by (simp add: tenant_ok_def D(1))
    ultimately show ?thesis using inv other by (simp add: man_inv_def)
  qed
  show "j \<noteq> k \<Longrightarrow> man_view dat w' man j = man_view dat w man j"
    using other by (cases "fmlookup (man_tenants man) j") (auto simp: man_view_def)
  show "registry_node w' man = registry_node w man"
    using D(4) [of "registryPath man"] tenant_dir_registry(3) [OF K(1), of man] K(2)
    by (simp add: registry_node_def)
qed

lemma Deprovision_cases:
  assumes "Deprovision api ev k w man = (r, w', man')"
  obtains "fmlookup (man_tenants man) k = None" "r = Some (errNotProvisioned k)" "w' = w" "man' = man"
  | db e db' where "fmlookup (man_tenants man) k = Some db" "Destroy api ev w db = (Inl e, w', db')"
      "r = Some (errInternal (os_text e))" "man' = set_tenant k db' man"
  | db w1 db' e where "fmlookup (man_tenants man) k = Some db" "Destroy api ev w db = (Inr (), w1, db')"
      "removeFromRegistry ev k w1 man' = (Inl e, w')" "r = Some (errInternal (os_text e))"
      "man' = drop_tenant k man"
  | db w1 db' where "fmlookup (man_tenants man) k = Some db" "Destroy api ev w db = (Inr (), w1, db')"
      "removeFromRegistry ev k w1 man' = (Inr (), w')" "r = None" "man' = drop_tenant k man"
proof (cases "fmlookup (man_tenants man) k")
  case None
  with assms have "r = Some (errNotProvisioned k)" "w' = w" "man' = man"
    by (simp_all add: Deprovision_def)
  with None show thesis by (rule that(1))
next
  case (Some db)
  obtain d w1 db1 where d: "Destroy api ev w db = (d, w1, db1)" by (cases "Destroy api ev w db")
  obtain f w2 where f: "removeFromRegistry ev k w1 (drop_tenant k man) = (f, w2)" by fastforce
  show thesis
  proof (cases d)
    case (Inl e)
    with assms Some d have "r = Some (errInternal (os_text e))" "w' = w1" "man' = set_tenant k db1 man"
      by (simp_all add: Deprovision_def)
    moreover have "Destroy api ev w db = (Inl e, w', db1)" using calculation(2) d Inl by simp
    ultimately show thesis using that(2) [OF Some] by blast
  next
    case (Inr u)
    then have d1: "Destroy api ev w db = (Inr (), w1, db1)" using d by simp
    have m: "man' = drop_tenant k man" "w' = w2"
      using assms Some d1 f by (auto simp: Deprovision_def Let_def split: sum.splits)
    then have g: "removeFromRegistry ev k w1 man' = (f, w')" using f by simp
    show thesis
    proof (cases f)
      case (Inl e)
      with assms Some d1 f have "r = Some (errInternal (os_text e))"
        by (simp add: Deprovision_def Let_def)
      moreover have "removeFromRegistry ev k w1 man' = (Inl e, w')" using g Inl by simp
      ultimately show thesis using that(3) [OF Some d1] m(1) by blast
    next
      case (Inr v)
      with assms Some d1 f have "r = None" by (simp add: Deprovision_def Let_def)
      moreover have "removeFromRegistry ev k w1 man' = (Inr (), w')" using g Inr by simp
      ultimately show thesis using that(4) [OF Some d1] m(1) by blast
    qed
  qed
qed

lemma Deprovision_inv:
  assumes ok: "engine_ok api srv dat inr" and inv: "man_inv srv dat w man"
    and call: "Deprovision api ev k w man = (r, w', man')"
  shows "man_inv srv dat w' man'"
    and "j \<noteq> k \<Longrightarrow> man_view dat w' man' j = man_view dat w man j"
    and "r = None \<Longrightarrow> man_view dat w' man' k = None"
proof -
  have *: "man_inv srv dat w' man' \<and> (\<forall>j. j \<noteq> k \<longrightarrow> man_view dat w' man' j = man_view dat w man j) \<and>
    (r = None \<longrightarrow> man_view dat w' man' k = None)"
    using call
  proof (cases rule: Deprovision_cases)
    case (2 db e db')
    with Destroy_man(2,3) [OF ok inv 2(1,2)] show ?thesis by simp
  next
    case (3 db w1 db' e)
    have f: "files_only man w1 w'" using registry_files(2) [of man' w1 ev k] 3 by simp
    from Destroy_man(1) [OF ok inv 3(1,2)] have "man_inv srv dat w1 man'" by (simp add: 3)
    then have "man_inv srv dat w' man'" using f by (auto simp: 3 intro: files_only_inv)
    moreover have "man_view dat w' man = man_view dat w1 man" by (rule files_only_view [OF f])
    ultimately show ?thesis using Destroy_man(3) [OF ok inv 3(1,2)] by (simp add: 3)
  next
    case (4 db w1 db')
    have f: "files_only man w1 w'" using registry_files(2) [of man' w1 ev k] 4 by simp
    from Destroy_man(1) [OF ok inv 4(1,2)] have "man_inv srv dat w1 man'" by (simp add: 4)
    then have "man_inv srv dat w' man'" using f by (auto simp: 4 intro: files_only_inv)
    moreover have "man_view dat w' man = man_view dat w1 man" by (rule files_only_view [OF f])
    ultimately show ?thesis using Destroy_man(3) [OF ok inv 4(1,2)] by (simp add: 4)
  qed (use inv in simp)
  then show "man_inv srv dat w' man'"
    and "j \<noteq> k \<Longrightarrow> man_view dat w' man' j = man_view dat w man j"
    and "r = None \<Longrightarrow> man_view dat w' man' k = None" by auto
qed

section \<open>Provisioning\<close>

text \<open>\<open>rand.Read\<close> fills the 24-byte slice it is given.\<close>

definition rand_ok :: "env \<Rightarrow> bool" where
  "rand_ok ev \<longleftrightarrow> (\<forall>n b. rand_Read ev n = Inr b \<longrightarrow> length b = 24)"

lemma hex_api_key: "length b = 24 \<Longrightarrow> is_api_key (hex_EncodeToString b)"
  using set_hex [of b] by (simp add: is_api_key_def)

lemma gen_key_fresh:
  "gen_key ev n i man = Inr k \<Longrightarrow> rand_ok ev \<Longrightarrow> is_api_key k \<and> fmlookup (man_tenants man) k = None"
proof (induction n arbitrary: i)
  case 0
  then show ?case by simp
next
  case (Suc n)
  then show ?case
    by (auto simp: Let_def rand_ok_def hex_api_key split: sum.splits if_splits)
qed

text \<open>The loop gives up only on an error of the random source or when every draw is taken.\<close>

lemma gen_key_fails:
  "gen_key ev n i man = Inl e \<Longrightarrow>
   (\<exists>j. i \<le> j \<and> j < i + n \<and> rand_Read ev j = Inl e) \<or>
   (\<forall>j. i \<le> j \<longrightarrow> j < i + n \<longrightarrow>
      (\<exists>b. rand_Read ev j = Inr b \<and> fmlookup (man_tenants man) (hex_EncodeToString b) \<noteq> None))"
proof (induction n arbitrary: i)
  case 0
  then show ?case by simp
next
  case (Suc n)
  show ?case
  proof (cases "rand_Read ev i")
    case (Inl x)
    with Suc.prems show ?thesis by auto
  next
    case (Inr b)
    with Suc.prems have taken: "fmlookup (man_tenants man) (hex_EncodeToString b) \<noteq> None"
      and "gen_key ev n (Suc i) man = Inl e"
      by (auto simp: Let_def split: if_splits)
    from Suc.IH [OF this(2)] show ?thesis
    proof
      assume "\<exists>j. Suc i \<le> j \<and> j < Suc i + n \<and> rand_Read ev j = Inl e"
      then obtain j where "Suc i \<le> j" "j < Suc i + n" "rand_Read ev j = Inl e" by blast
      then have "i \<le> j \<and> j < i + Suc n \<and> rand_Read ev j = Inl e" by simp
      then show ?thesis by blast
    next
      assume all: "\<forall>j. Suc i \<le> j \<longrightarrow> j < Suc i + n \<longrightarrow>
        (\<exists>b. rand_Read ev j = Inr b \<and> fmlookup (man_tenants man) (hex_EncodeToString b) \<noteq> None)"
      have "\<exists>b. rand_Read ev j = Inr b \<and> fmlookup (man_tenants man) (hex_EncodeToString b) \<noteq> None"
        if "i \<le> j" "j < i + Suc n" for j
        using that all Inr taken by (cases "j = i") auto
      then show ?thesis by blast
    qed
  qed
qed

lemma RequestProvision_cases:
  assumes "RequestProvision ev w man = (r, w', man')"
  obtains e where "r = Inl e" "man' = man" "files_only man w w'"
  | k w1 where "r = Inr k" "generateAPIKey ev man = Inr k" "ensureRoots ev w man = (Inr (), w1)"
      "appendToRegistry ev k w1 man = (Inr (), w')"
      "man' = set_tenant k (man_NewDatabase (clk ev 0) (clk ev 1) k man) man" "files_only man w w'"
proof (cases "generateAPIKey ev man")
  case (Inl e)
  with assms have "r = Inl e" "man' = man" "w' = w" by (simp_all add: RequestProvision_def)
  then show thesis using that(1) by simp
next
  case (Inr k)
  obtain e1 w1 where e1: "ensureRoots ev w man = (e1, w1)" by fastforce
  obtain a w2 where a: "appendToRegistry ev k w1 man = (a, w2)" by fastforce
  have f1: "files_only man w w1" using ensureRoots_files [of man w ev] e1 by simp
  have f2: "files_only man w w2"
    using registry_files(1) [of man w1 ev k] a files_only_trans [OF f1] by simp
  show thesis
  proof (cases "fmlookup (man_tenants man) k = None \<and> e1 = Inr () \<and> a = Inr ()")
    case True
    with assms Inr e1 a have "r = Inr k" "w' = w2"
      "man' = set_tenant k (man_NewDatabase (clk ev 0) (clk ev 1) k man) man"
      by (simp_all add: RequestProvision_def)
    with True Inr e1 a f2 show thesis by (intro that(2)) simp_all
  next
    case False
    have "(\<exists>e. r = Inl e) \<and> man' = man \<and> (w' = w \<or> w' = w1 \<or> w' = w2)"
      using assms Inr e1 a False by (auto simp: RequestProvision_def split: if_splits sum.splits)
    then show thesis using that(1) f1 f2 by auto
  qed
qed

lemma man_NewDatabase_ok:
  assumes "man_sane man" "is_api_key k" "dat (engw w) (tenant_dir man k) = Map.empty"
  shows "tenant_ok srv dat w man k (man_NewDatabase t1 t2 k man)"
    and "db_view dat w (man_NewDatabase t1 t2 k man) = Map.empty"
proof -
  let ?db = "man_NewDatabase t1 t2 k man"
  have f: "db_APIKey ?db = k" "db_dataDirPath ?db = tenant_dir man k" "db_engine ?db = None"
    "db_state ?db = tenantPending"
    by (simp_all add: man_NewDatabase_def NewDatabase_def TouchActivity_def tenant_dir_def)
  have "db_inv ?db" using assms(1) by (simp add: man_NewDatabase_def db_inv_New man_sane_def)
  with f assms(2,3) show "tenant_ok srv dat w man k ?db"
    by (simp add: tenant_ok_def tenant_wf_def db_linked_def db_view_def db_housed_def tenant_dir_clean)
  show "db_view dat w ?db = Map.empty" using f assms(3) by (simp add: db_view_def)
qed

text \<open>A new tenant; the directory named by the drawn key must not exist yet.\<close>

lemma RequestProvision_inv:
  assumes inv: "man_inv srv dat w man" and rnd: "rand_ok ev"
    and fresh: "\<And>k. is_api_key k \<Longrightarrow> r = Inr k \<Longrightarrow> fmlookup (nodes w) (tenant_dir man k) = None"
    and call: "RequestProvision ev w man = (r, w', man')"
  shows "man_inv srv dat w' man'"
    and "r = Inr k \<Longrightarrow> is_api_key k \<and> fmlookup (man_tenants man) k = None \<and>
      man_view dat w' man' = (man_view dat w man)(k \<mapsto> Map.empty)"
    and "r = Inl e \<Longrightarrow> man' = man \<and> man_view dat w' man' = man_view dat w man"
proof -
  have *: "man_inv srv dat w' man' \<and>
    (\<forall>k. r = Inr k \<longrightarrow> is_api_key k \<and> fmlookup (man_tenants man) k = None \<and>
      man_view dat w' man' = (man_view dat w man)(k \<mapsto> Map.empty)) \<and>
    (\<forall>e. r = Inl e \<longrightarrow> man' = man \<and> man_view dat w' man' = man_view dat w man)"
    using call
  proof (cases rule: RequestProvision_cases)
    case (1 e)
    with files_only_inv [OF inv 1(3)] files_only_view [OF 1(3)] show ?thesis by simp
  next
    case (2 k w1)
    from gen_key_fresh [OF 2(2) [unfolded generateAPIKey_def] rnd]
    have k: "is_api_key k" "fmlookup (man_tenants man) k = None" by simp_all
    have "dat (engw w) (tenant_dir man k) = Map.empty"
      using inv k(1) fresh [OF k(1) 2(1)] by (simp add: man_inv_def dirs_ok_def)
    then have e: "dat (engw w') (tenant_dir man k) = Map.empty"
      using 2(6) by (simp add: files_only_def)
    have i: "man_inv srv dat w' man" by (rule files_only_inv [OF inv 2(6)])
    then have "man_sane man" by (simp add: man_inv_def)
    note N = man_NewDatabase_ok(1) [where dat = dat and w = w' and srv = srv, OF this k(1) e,
        of "clk ev 0" "clk ev 1"]
      man_NewDatabase_ok(2) [where dat = dat and w = w', OF this k(1) e, of "clk ev 0" "clk ev 1"]
    from man_inv_set [OF i N(1)] N(2) files_only_view [OF 2(6)] k show ?thesis by (simp add: 2)
  qed
  then show "man_inv srv dat w' man'"
    and "r = Inr k \<Longrightarrow> is_api_key k \<and> fmlookup (man_tenants man) k = None \<and>
      man_view dat w' man' = (man_view dat w man)(k \<mapsto> Map.empty)"
    and "r = Inl e \<Longrightarrow> man' = man \<and> man_view dat w' man' = man_view dat w man"
    by auto
qed

end
