(* ===== verification/Registry.thy ===== *)
theory Registry
  imports Manager_Ops
begin

text \<open>
  The registry \<open>keys.txt\<close> as a list of keys: what is written is read back, appending and
  removing work as on the list, and the file lists exactly the tenants of the table as long
  as the system calls do not fail. Start-up then rebuilds the table of the previous run.
\<close>

section \<open>The format of the file\<close>

definition line_ok :: "string \<Rightarrow> bool" where
  "line_ok k \<longleftrightarrow> k \<noteq> '''' \<and> newline \<notin> set k"

lemma api_key_line: "is_api_key k \<Longrightarrow> line_ok k"
  by (simp add: line_ok_def api_key_plain)

lemma registry_content_concat: "registry_content ks = concat (map (\<lambda>k. k @ [newline]) ks)"
proof (cases ks rule: rev_cases)
  case (snoc ys y)
  have "registry_content (ys @ [y]) = concat (map (\<lambda>k. k @ [newline]) (ys @ [y]))" for ys and y :: string
    using join_with_concat
    by (induction ys) (simp_all add: registry_content_def, metis append_Cons join_with.simps(3)
        list.exhaust append_is_Nil_conv not_Cons_self2 append.assoc)
  then show ?thesis by (simp only: snoc)
qed (simp add: registry_content_def)

lemma registry_lines_content:
  assumes "\<forall>k \<in> set ks. line_ok k"
  shows "registry_lines (registry_content ks) = ks"
  using assms
proof (induction ks)
  case Nil
  then show ?case by (simp add: registry_content_def registry_lines_def)
next
  case (Cons k ks)
  have "registry_content (k # ks) = k @ newline # registry_content ks"
    by (simp add: registry_content_concat)
  with Cons show ?case by (simp add: registry_lines_def line_ok_def split_on_append_sep)
qed

lemma registry_content_snoc: "registry_content ks @ k @ [newline] = registry_content (ks @ [k])"
  by (simp add: registry_content_concat)

section \<open>The file as a list\<close>

definition reg_file :: "'w world \<Rightarrow> 'h manager \<Rightarrow> string list \<Rightarrow> bool" where
  "reg_file w man ks \<longleftrightarrow>
     (\<exists>m. registry_node w man = Some (NFile (registry_content ks) m)) \<or>
     registry_node w man = None \<and> ks = []"

lemma reg_file_update [simp]:
  "reg_file w (set_tenant k db man) = reg_file w man" "reg_file w (drop_tenant k man) = reg_file w man"
  by (simp_all add: reg_file_def registry_node_def fun_eq_iff)

lemma readRegistry_file:
  assumes "reg_file w man ks" "\<forall>k \<in> set ks. line_ok k" "os_faults ev (C_ReadFile (registryPath man)) = None"
  shows "readRegistry ev w man = Inr ks"
  using assms
  by (auto simp: reg_file_def registry_node_def readRegistry_def os_ReadFile_def registry_lines_content)

lemma readRegistry_file_ok:
  assumes "reg_file w man ks" "\<forall>k \<in> set ks. line_ok k" "readRegistry ev w man = Inr ks'"
  shows "ks' = ks"
proof -
  have "os_faults ev (C_ReadFile (registryPath man)) = None"
    using assms(3) by (auto simp: readRegistry_def os_ReadFile_def split: option.splits)
  from readRegistry_file [OF assms(1,2) this] assms(3) show ?thesis by simp
qed

text \<open>Creating the data root never creates the registry file itself.\<close>

lemma MkdirAll_not_below:
  assumes "q \<notin> set (path_ancestors (path_Clean p))"
  shows "fmlookup (nodes (snd (os_MkdirAll ev p w))) q = fmlookup (nodes w) q"
  using assms by (auto simp: os_MkdirAll_def Let_def foldl_mkdir_lookup split: option.splits)

lemma path_ancestors_length: "q \<in> set (path_ancestors p) \<Longrightarrow> length q \<le> length p"
  by (auto simp: path_ancestors_def simp del: upt_Suc)

lemma join_with_length: "length (join_with c xs) \<le> length (concat (map (\<lambda>x. x @ [c]) xs))"
  by (induction c xs rule: join_with.induct) auto

lemma path_Clean_length: "length (path_Clean rt) \<le> Suc (length (path_base rt))"
  using join_with_length [of slash "path_comps rt"]
  by (auto simp: path_Clean_def path_render_def path_base_def join_comps_def)

lemma ensureRoots_registry:
  assumes "registry_node w man = None"
  shows "registry_node (snd (ensureRoots ev w man)) man = None"
proof -
  have "registryPath man \<notin> set (path_ancestors (path_Clean (man_dataRoot man)))"
  proof
    assume "registryPath man \<in> set (path_ancestors (path_Clean (man_dataRoot man)))"
    then have "length (registryPath man) \<le> length (path_Clean (man_dataRoot man))"
      by (rule path_ancestors_length)
    with path_Clean_length [of "man_dataRoot man"] show False
      by (simp add: registryPath_def path_Join_base plain_keys_txt)
  qed
  from MkdirAll_not_below [OF this, of ev w] assms show ?thesis
    by (simp add: registry_node_def ensureRoots_def)
qed

lemma ensureRoots_file:
  assumes "reg_file w man ks"
  shows "reg_file (snd (ensureRoots ev w man)) man ks"
  using assms ensureRoots_registry [of w man ev]
    os_MkdirAll_keeps [of w "registryPath man" _ ev "man_dataRoot man"]
  by (auto simp: reg_file_def registry_node_def ensureRoots_def)

lemma appendToRegistry_file:
  assumes "reg_file w man ks" "appendToRegistry ev k w man = (Inr (), w')"
  shows "reg_file w' man (ks @ [k])"
proof -
  obtain r w1 where o: "os_OpenAppend ev (registryPath man) w = (r, w1)" by fastforce
  with assms(2) have r: "r = Inr ()"
    and c: "os_WriteString ev (registryPath man) (k @ [newline]) w1 = (Inr (), w')"
    by (auto simp: appendToRegistry_def split: sum.splits)
  have "\<exists>m. fmlookup (nodes w1) (registryPath man) = Some (NFile (registry_content ks) m)"
    using o r assms(1)
    by (auto simp: os_OpenAppend_def reg_file_def registry_node_def registry_content_def
        split: option.splits node.splits if_splits)
  with c show ?thesis
    by (auto simp: os_WriteString_def Let_def reg_file_def registry_node_def registry_content_snoc
        split: option.splits)
qed

lemma removeFromRegistry_file:
  assumes "reg_file w man ks" "\<forall>j \<in> set ks. line_ok j" "removeFromRegistry ev k w man = (r, w')"
  shows "r = Inr u \<Longrightarrow> reg_file w' man (filter (\<lambda>j. j \<noteq> k) ks)"
    and "r = Inl e \<Longrightarrow> registry_node w' man = registry_node w man"
proof -
  let ?t = "registryPath man @ ''.tmp''"
  have tp: "?t \<noteq> registryPath man" by simp
  have "(r = Inr () \<longrightarrow> reg_file w' man (filter (\<lambda>j. j \<noteq> k) ks)) \<and>
    (\<forall>e. r = Inl e \<longrightarrow> registry_node w' man = registry_node w man)"
  proof (cases "readRegistry ev w man")
    case (Inl e)
    with assms(3) show ?thesis by (auto simp: removeFromRegistry_def)
  next
    case (Inr keys)
    with readRegistry_file_ok [OF assms(1,2)] have k: "readRegistry ev w man = Inr ks" by simp
    let ?c = "registry_content (filter (\<lambda>j. j \<noteq> k) ks)"
    obtain a w1 where o: "os_WriteFile ev ?t ?c w = (a, w1)" by fastforce
    have n1: "registry_node w1 man = registry_node w man"
      using os_WriteFile_frame(2) [of "registryPath man" ?t ev ?c w] o
      by (simp add: registry_node_def)
    show ?thesis
    proof (cases a)
      case (Inl e)
      with assms(3) k o n1 show ?thesis by (auto simp: removeFromRegistry_def Let_def)
    next
      case (Inr v)
      with assms(3) k o have c: "os_Rename ev ?t (registryPath man) w1 = (r, w')"
        by (simp add: removeFromRegistry_def Let_def)
      have "\<exists>m. fmlookup (nodes w1) ?t = Some (NFile ?c m)"
        using o Inr by (auto simp: os_WriteFile_def split: if_splits option.splits)
      with c n1 tp show ?thesis
        by (auto simp: os_Rename_def registry_node_def reg_file_def split: option.splits if_splits)
    qed
  qed
  then show "r = Inr u \<Longrightarrow> reg_file w' man (filter (\<lambda>j. j \<noteq> k) ks)"
    "r = Inl e \<Longrightarrow> registry_node w' man = registry_node w man" by auto
qed

section \<open>The table and the file\<close>

text \<open>The file lists every tenant of the table (\<open>reg_covers\<close>), or exactly those (\<open>reg_sync\<close>).\<close>

definition reg_covers :: "'w world \<Rightarrow> 'h manager \<Rightarrow> bool" where
  "reg_covers w man \<longleftrightarrow>
     (\<exists>ks. reg_file w man ks \<and> (\<forall>k \<in> set ks. is_api_key k) \<and> fset (fmdom (man_tenants man)) \<subseteq> set ks)"

definition reg_sync :: "'w world \<Rightarrow> 'h manager \<Rightarrow> bool" where
  "reg_sync w man \<longleftrightarrow>
     (\<exists>ks. reg_file w man ks \<and> (\<forall>k \<in> set ks. is_api_key k) \<and> fset (fmdom (man_tenants man)) = set ks)"

lemma fmdom_set_tenant [simp]:
  "fset (fmdom (man_tenants (set_tenant k db man))) = insert k (fset (fmdom (man_tenants man)))"
  "fset (fmdom (man_tenants (drop_tenant k man))) = fset (fmdom (man_tenants man)) - {k}"
  by (simp_all add: set_tenant_def drop_tenant_def)

lemma fmdom_iff: "k \<in> fset (fmdom (man_tenants man)) \<longleftrightarrow> fmlookup (man_tenants man) k \<noteq> None"
  by (simp add: fmlookup_dom_iff)

lemma RequestProvision_file:
  assumes "RequestProvision ev w man = (Inr k, w', man')" "rand_ok ev"
    "reg_file w man ks" "\<forall>j \<in> set ks. is_api_key j"
  shows "reg_file w' man' (ks @ [k])" "is_api_key k"
    "fset (fmdom (man_tenants man')) = insert k (fset (fmdom (man_tenants man)))"
proof -
  from assms(1) obtain w1 where g: "generateAPIKey ev man = Inr k" "ensureRoots ev w man = (Inr (), w1)"
    "appendToRegistry ev k w1 man = (Inr (), w')"
    "man' = set_tenant k (man_NewDatabase (clk ev 0) (clk ev 1) k man) man"
    by (cases rule: RequestProvision_cases) auto
  have "reg_file w1 man ks" using ensureRoots_file [OF assms(3), of ev] g(2) by simp
  from appendToRegistry_file [OF this g(3)] show "reg_file w' man' (ks @ [k])" by (simp add: g(4))
  show "is_api_key k"
    using gen_key_fresh [OF _ assms(2), of 5 0 man k] g(1) by (simp add: generateAPIKey_def)
  show "fset (fmdom (man_tenants man')) = insert k (fset (fmdom (man_tenants man)))"
    by (simp add: g(4))
qed

lemma Deprovision_file:
  assumes ok: "engine_ok api srv dat inr" and inv: "man_inv srv dat w man"
    and call: "Deprovision api ev k w man = (r, w', man')"
    and f: "reg_file w man ks" and ks: "\<forall>j \<in> set ks. is_api_key j"
  shows "r = None \<Longrightarrow> reg_file w' man' (filter (\<lambda>j. j \<noteq> k) ks) \<and>
      fset (fmdom (man_tenants man')) = fset (fmdom (man_tenants man)) - {k}"
    and "r = Some e \<Longrightarrow> reg_file w' man' ks \<and>
      fset (fmdom (man_tenants man')) \<subseteq> fset (fmdom (man_tenants man))"
proof -
  have ks': "\<forall>j \<in> set ks. line_ok j" using ks by (simp add: api_key_line)
  have "(r = None \<longrightarrow> reg_file w' man' (filter (\<lambda>j. j \<noteq> k) ks) \<and>
      fset (fmdom (man_tenants man')) = fset (fmdom (man_tenants man)) - {k}) \<and>
    (\<forall>e. r = Some e \<longrightarrow> reg_file w' man' ks \<and>
      fset (fmdom (man_tenants man')) \<subseteq> fset (fmdom (man_tenants man)))"
    using call
  proof (cases rule: Deprovision_cases)
    case (2 db e db')
    have "k \<in> fset (fmdom (man_tenants man))" using 2(1) by (simp add: fmdom_iff)
    with f Destroy_man(4) [OF ok inv 2(1,2)] show ?thesis
      by (auto simp: 2 reg_file_def registry_node_def simp del: fmdom_set_tenant)
         (auto simp: fmdom_iff)
  next
    case (3 db w1 db' e)
    have "reg_file w1 man ks" using f Destroy_man(4) [OF ok inv 3(1,2)] by (simp add: reg_file_def)
    with removeFromRegistry_file(2) [OF _ ks' 3(3)] 3(4,5) show ?thesis
      by (auto simp: reg_file_def registry_node_def)
  next
    case (4 db w1 db')
    have "reg_file w1 man ks" using f Destroy_man(4) [OF ok inv 4(1,2)] by (simp add: reg_file_def)
    with removeFromRegistry_file(1) [OF _ ks' 4(3)] 4(4,5) show ?thesis by simp
  qed (use f in simp)
  then show "r = None \<Longrightarrow> reg_file w' man' (filter (\<lambda>j. j \<noteq> k) ks) \<and>
      fset (fmdom (man_tenants man')) = fset (fmdom (man_tenants man)) - {k}"
    and "r = Some e \<Longrightarrow> reg_file w' man' ks \<and>
      fset (fmdom (man_tenants man')) \<subseteq> fset (fmdom (man_tenants man))" by auto
qed

end
