(* ===== verification/Manager_Startup.thy ===== *)
theory Manager_Startup
  imports Registry
begin

text \<open>
  \<open>LoadAll\<close> and the reaper. Start-up brings up every key of the registry, pending when its
  directory does not exist and active otherwise, skips those whose engine does not open, and
  changes no data; the table of the previous run is recovered. A pass of the reaper removes
  only active tenants that were idle for longer than the limit.
\<close>

section \<open>Start-up\<close>

definition stat_ok :: "env \<Rightarrow> bool" where
  "stat_ok ev \<longleftrightarrow> (\<forall>p. os_faults ev (C_Stat p) = None)"

text \<open>
  The registered keys that \<open>LoadAll\<close> may skip: those with a directory, on some state of the
  engine that refuses to open it. A key without a directory is never skipped.
\<close>

definition load_refused :: "('h, 'w) fredb_api \<Rightarrow> (string, node) fmap \<Rightarrow> string \<Rightarrow> bool" where
  "load_refused api ns d \<longleftrightarrow>
     fmlookup ns d \<noteq> None \<and> (\<exists>e x. fst (OpenCgoEngine api d e) = Inl x)"

lemma os_Stat_ok:
  "stat_ok ev \<Longrightarrow> os_Stat ev p w =
     (case fmlookup (nodes w) p of
        None \<Rightarrow> Inl (NotExist (''stat '' @ p @ '': no such file or directory'')) | Some n \<Rightarrow> Inr n)"
  by (simp add: os_Stat_def stat_ok_def)

lemma restore_activity_fields [simp]:
  "db_APIKey (restore_activity ev w db) = db_APIKey db"
  "db_dataDirPath (restore_activity ev w db) = db_dataDirPath db"
  "db_engine (restore_activity ev w db) = db_engine db"
  "db_state (restore_activity ev w db) = db_state db"
  "db_inv (restore_activity ev w db) = db_inv db"
  by (simp_all add: restore_activity_def db_inv_def split: sum.splits)

lemma man_NewDatabase_fields:
  "db_APIKey (man_NewDatabase t1 t2 k man) = k"
  "db_dataDirPath (man_NewDatabase t1 t2 k man) = tenant_dir man k"
  "db_engine (man_NewDatabase t1 t2 k man) = None"
  "db_state (man_NewDatabase t1 t2 k man) = tenantPending"
  "man_sane man \<Longrightarrow> db_inv (man_NewDatabase t1 t2 k man)"
  by (simp_all add: man_NewDatabase_def NewDatabase_def TouchActivity_def tenant_dir_def
      db_inv_New [unfolded NewDatabase_def TouchActivity_def, simplified] man_sane_def)

text \<open>A tenant opened at start-up, or found pending, is well-formed.\<close>

lemma load_open_ok:
  assumes sane: "man_sane man" and k: "is_api_key k"
    and n: "fmlookup (nodes w) (tenant_dir man k) \<noteq> None"
    and s: "srv (engw w) h = Some (tenant_dir man k)"
  shows "tenant_ok srv dat w man k (restore_activity ev w
    ((man_NewDatabase t1 t2 k man)\<lparr>db_engine := Some h, db_state := tenantActive\<rparr>))"
proof -
  let ?db = "man_NewDatabase t1 t2 k man"
  have "db_inv (?db\<lparr>db_engine := Some h, db_state := tenantActive\<rparr>)"
    using man_NewDatabase_fields(5) [OF sane, of t1 t2 k] by (simp add: db_inv_def)
  then show ?thesis
    using k n s by (simp add: tenant_ok_def tenant_wf_def man_NewDatabase_fields db_linked_def
        db_housed_def tenant_dir_clean)
qed

lemma eng_more_inv:
  assumes inv: "man_inv srv dat w man" and n: "nodes w' = nodes w"
    and d: "dat (engw w') = dat (engw w)"
    and s: "\<And>h d. srv (engw w) h = Some d \<Longrightarrow> srv (engw w') h = Some d"
  shows "man_inv srv dat w' man" "man_view dat w' man = man_view dat w man"
proof -
  have "tenant_ok srv dat w' man k db" if "fmlookup (man_tenants man) k = Some db" for k db
  proof -
    from man_invD [OF inv that] have t: "tenant_ok srv dat w man k db" .
    then have "tenant_wf srv dat w' db"
      using n d s by (auto simp: tenant_ok_def tenant_wf_def db_linked_def db_housed_def db_view_def)
    with t show ?thesis by (simp add: tenant_ok_def)
  qed
  with inv n d show "man_inv srv dat w' man" by (simp add: man_inv_def dirs_ok_def)
  show "man_view dat w' man = man_view dat w man"
    by (intro ext) (simp add: man_view_def db_view_def [abs_def] d)
qed

lemma load_keys_spec:
  assumes ok: "engine_ok api srv dat inr" and st: "stat_ok ev"
  shows "load_keys api ev i keys w man = (w', man') \<Longrightarrow> man_inv srv dat w man \<Longrightarrow>
    (\<forall>k \<in> set keys. is_api_key k) \<Longrightarrow>
    man_inv srv dat w' man' \<and> nodes w' = nodes w \<and> dat (engw w') = dat (engw w) \<and>
    man_dataRoot man' = man_dataRoot man \<and>
    fset (fmdom (man_tenants man)) \<subseteq> fset (fmdom (man_tenants man')) \<and>
    fset (fmdom (man_tenants man')) \<subseteq> fset (fmdom (man_tenants man)) \<union> set keys \<and>
    (\<forall>k \<in> set keys. k \<in> fset (fmdom (man_tenants man')) \<or> load_refused api (nodes w) (tenant_dir man k))"
proof (induction keys arbitrary: i w man)
  case Nil
  then show ?case by simp
next
  case (Cons k keys)
  let ?db = "man_NewDatabase (clk ev i) (clk ev (Suc i)) k man" and ?d = "tenant_dir man k"
  have k: "is_api_key k" and ks: "\<forall>k \<in> set keys. is_api_key k" using Cons.prems(3) by simp_all
  have sane: "man_sane man" using Cons.prems(2) by (simp add: man_inv_def)
  have dd: "db_dataDirPath ?db = ?d" by (rule man_NewDatabase_fields)
  show ?case
  proof (cases "fmlookup (nodes w) ?d")
    case None
    with Cons.prems(2) k have e: "dat (engw w) ?d = Map.empty" by (simp add: man_inv_def dirs_ok_def)
    have l: "load_keys api ev (i + 2) keys w (set_tenant k ?db man) = (w', man')"
      using Cons.prems(1) st None by (simp add: Let_def dd os_Stat_ok)
    have "man_inv srv dat w (set_tenant k ?db man)"
      using man_inv_set [OF Cons.prems(2) man_NewDatabase_ok(1) [where w = w and dat = dat, OF sane k e]] .
    from Cons.IH [OF l this ks] show ?thesis by auto
  next
    case (Some n)
    obtain r w1 db1 where o: "InitializeEngine api w ?db = (r, w1, db1)"
      by (cases "InitializeEngine api w ?db")
    note I = InitializeEngine_spec [OF ok o]
    note E = eng_more_inv [OF Cons.prems(2) I(1,2) I(3)]
    show ?thesis
    proof (cases r)
      case (Inl e)
      have l: "load_keys api ev (i + 2) keys w1 man = (w', man')"
        using Cons.prems(1) st Some o Inl by (simp add: Let_def dd os_Stat_ok)
      from o Inl have "fst (OpenCgoEngine api ?d (engw w)) = Inl e"
        by (auto simp: InitializeEngine_def on_engine_def dd split: prod.splits sum.splits)
      with Some have "load_refused api (nodes w) ?d" unfolding load_refused_def by blast
      with Cons.IH [OF l E(1) ks] I(1,2) show ?thesis by auto
    next
      case (Inr u)
      from I(4) [OF Inr] dd obtain h where
        h: "db1 = ?db\<lparr>db_engine := Some h, db_state := tenantActive\<rparr>" "srv (engw w1) h = Some ?d"
        by auto
      let ?db1 = "restore_activity ev w1 db1"
      have l: "load_keys api ev (i + 2) keys w1 (set_tenant k ?db1 man) = (w', man')"
        using Cons.prems(1) st Some o Inr by (simp add: Let_def dd os_Stat_ok)
      have "fmlookup (nodes w1) ?d \<noteq> None" using Some I(1) by simp
      from load_open_ok [where srv = srv, OF sane k this h(2)] have "tenant_ok srv dat w1 man k ?db1"
        by (simp add: h(1))
      from Cons.IH [OF l man_inv_set [OF E(1) this] ks] I(1,2) show ?thesis by auto
    qed
  qed
qed

text \<open>The view of a tenant is the data of its directory.\<close>

lemma man_view_dir:
  "man_inv srv dat w man \<Longrightarrow> man_view dat w man k =
     (if k \<in> fset (fmdom (man_tenants man)) then Some (dat (engw w) (tenant_dir man k)) else None)"
  using man_invD [of srv dat w man k]
  by (cases "fmlookup (man_tenants man) k")
     (auto simp: man_view_def fmlookup_dom_iff tenant_ok_def db_view_def)

lemma LoadAll_spec:
  assumes ok: "engine_ok api srv dat inr" and st: "stat_ok ev"
    and inv: "man_inv srv dat w man" and f: "reg_file w man ks" and ks: "\<forall>k \<in> set ks. is_api_key k"
    and call: "LoadAll api ev w man = (Inr (), w', man')"
  shows "man_inv srv dat w' man'" "dat (engw w') = dat (engw w)"
    "fset (fmdom (man_tenants man)) \<subseteq> fset (fmdom (man_tenants man'))"
    "fset (fmdom (man_tenants man')) \<subseteq> fset (fmdom (man_tenants man)) \<union> set ks"
    "\<forall>k \<in> set ks. k \<in> fset (fmdom (man_tenants man')) \<or>
       load_refused api (nodes (snd (ensureRoots ev w man))) (tenant_dir man k)"
    "man_dataRoot man' = man_dataRoot man"
    "registry_node w' man = registry_node (snd (ensureRoots ev w man)) man"
proof -
  obtain r w1 where e: "ensureRoots ev w man = (r, w1)" by fastforce
  have fo: "files_only man w w1" using ensureRoots_files [of man w ev] e by simp
  have f1: "reg_file w1 man ks" using ensureRoots_file [OF f, of ev] e by simp
  have ks': "\<forall>j \<in> set ks. line_ok j" using ks by (simp add: api_key_line)
  from call e obtain keys where k: "readRegistry ev w1 man = Inr keys"
    and l: "load_keys api ev 0 keys w1 man = (w', man')"
    by (auto simp: LoadAll_def split: sum.splits)
  have keys: "keys = ks" by (rule readRegistry_file_ok [OF f1 ks' k])
  from load_keys_spec [OF ok st l [unfolded keys] files_only_inv [OF inv fo] ks] fo
  show "man_inv srv dat w' man'" "dat (engw w') = dat (engw w)"
    "fset (fmdom (man_tenants man)) \<subseteq> fset (fmdom (man_tenants man'))"
    "fset (fmdom (man_tenants man')) \<subseteq> fset (fmdom (man_tenants man)) \<union> set ks"
    "\<forall>k \<in> set ks. k \<in> fset (fmdom (man_tenants man')) \<or>
       load_refused api (nodes (snd (ensureRoots ev w man))) (tenant_dir man k)"
    "man_dataRoot man' = man_dataRoot man"
    "registry_node w' man = registry_node (snd (ensureRoots ev w man)) man"
    by (simp_all add: files_only_def registry_node_def e)
qed

text \<open>Creating the data root creates no directory of a tenant.\<close>

lemma ensureRoots_tenant_dir:
  assumes "is_api_key k"
  shows "fmlookup (nodes (snd (ensureRoots ev w man))) (tenant_dir man k) = fmlookup (nodes w) (tenant_dir man k)"
proof -
  have "tenant_dir man k \<notin> set (path_ancestors (path_Clean (man_dataRoot man)))"
  proof
    assume "tenant_dir man k \<in> set (path_ancestors (path_Clean (man_dataRoot man)))"
    then have "length (tenant_dir man k) \<le> length (path_Clean (man_dataRoot man))"
      by (rule path_ancestors_length)
    with path_Clean_length [of "man_dataRoot man"] api_key_plain [OF assms] assms show False
      by (simp add: tenant_dir_def path_Join_base is_api_key_def)
  qed
  from MkdirAll_not_below [OF this, of ev w] show ?thesis by (simp add: ensureRoots_def)
qed

text \<open>
  The restart: a new process starts with an empty table and no open handle on the files and
  the data the old one left, and finds the same tenants with the same data.
\<close>

definition same_limits :: "'h manager \<Rightarrow> 'h manager \<Rightarrow> bool" where
  "same_limits man man0 \<longleftrightarrow>
     man0 = NewDatabaseManager (man_dataRoot man) (man_maxValueBytes man) (man_maxStorageBytes man)
       (man_rateLimit man)"

lemma restart_spec:
  assumes ok: "engine_ok api srv dat inr" and st: "stat_ok ev"
    and inv: "man_inv srv dat w man" and sync: "reg_sync w man"
    and w0: "nodes w0 = nodes w" "dat (engw w0) = dat (engw w)"
    and m0: "same_limits man man0" and call: "LoadAll api ev w0 man0 = (Inr (), w', man')"
  shows "man_inv srv dat w' man'"
    "man_view dat w' man' k = man_view dat w man k \<or>
       man_view dat w' man' k = None \<and> load_refused api (nodes w) (tenant_dir man k)"
    "dat (engw w') = dat (engw w)"
proof -
  from m0 have root: "man_dataRoot man0 = man_dataRoot man" "tenant_dir man0 = tenant_dir man"
    "registryPath man0 = registryPath man" "man_tenants man0 = fmempty" "man_sane man0 = man_sane man"
    by (simp_all add: same_limits_def NewDatabaseManager_def fun_eq_iff tenant_dir_def
        registryPath_def man_sane_def)
  have inv0: "man_inv srv dat w0 man0"
    using inv by (simp add: man_inv_def root dirs_ok_def w0)
  from sync obtain ks where f: "reg_file w man ks" and ks: "\<forall>k \<in> set ks. is_api_key k"
    and dom: "fset (fmdom (man_tenants man)) = set ks" by (auto simp: reg_sync_def)
  have "reg_file w0 man0 ks" using f by (simp add: reg_file_def registry_node_def root w0)
  note L = LoadAll_spec [OF ok st inv0 this ks call]
  show "man_inv srv dat w' man'" by (rule L(1))
  show "dat (engw w') = dat (engw w)" using L(2) w0(2) by simp
  have t: "tenant_dir man' = tenant_dir man"
    using L(6) root by (simp add: tenant_dir_def fun_eq_iff)
  note V = man_view_dir [OF L(1), of k] man_view_dir [OF inv, of k]
  consider (in_both) "k \<in> set ks" "k \<in> fset (fmdom (man_tenants man'))"
    | (refused) "k \<in> set ks" "k \<notin> fset (fmdom (man_tenants man'))" | (out) "k \<notin> set ks" by blast
  then show "man_view dat w' man' k = man_view dat w man k \<or>
      man_view dat w' man' k = None \<and> load_refused api (nodes w) (tenant_dir man k)"
  proof cases
    case refused
    with L(5) have "load_refused api (nodes (snd (ensureRoots ev w0 man0))) (tenant_dir man k)"
      by (auto simp: root)
    then have "load_refused api (nodes w) (tenant_dir man k)"
      using ensureRoots_tenant_dir [of k ev w0 man0] refused(1) ks
      by (simp add: load_refused_def root w0)
    with V(1) refused(2) show ?thesis by simp
  next
    case out
    then have "k \<notin> fset (fmdom (man_tenants man'))" using L(4) by (auto simp: root)
    with V out dom show ?thesis by simp
  qed (use V L(2) w0 t dom in simp)
qed

section \<open>The reaper\<close>

lemma reap_one_spec:
  assumes ok: "engine_ok api srv dat inr" and inv: "man_inv srv dat w man"
    and call: "reap_one api now maxIdle ev k db w man = (g, w', man')"
  shows "man_inv srv dat w' man'"
    and "j \<noteq> k \<Longrightarrow> man_view dat w' man' j = man_view dat w man j"
    and "time_Sub now (LastActive db) \<le> maxIdle \<Longrightarrow> \<not> g \<and> man' = man \<and>
      man_view dat w' man' = man_view dat w man"
    and "g \<Longrightarrow> man_view dat w' man' k = None"
    and "j \<noteq> k \<Longrightarrow> fmlookup (man_tenants man') j = fmlookup (man_tenants man) j"
proof -
  define w1 where "w1 = snd (PersistActivity ev w db)"
  have f: "files_only man w w1"
    by (simp add: w1_def files_only_grow frame_simps)
  have i: "man_inv srv dat w1 man" and v: "man_view dat w1 man = man_view dat w man"
    by (rule files_only_inv [OF inv f], rule files_only_view [OF f])
  obtain r w2 man2 where d: "Deprovision api ev k w1 man = (r, w2, man2)"
    by (cases "Deprovision api ev k w1 man")
  have t: "j \<noteq> k \<Longrightarrow> fmlookup (man_tenants man2) j = fmlookup (man_tenants man) j" for j
    using d by (cases rule: Deprovision_cases) simp_all
  note D = Deprovision_inv [OF ok i d]
  have c: "if maxIdle < time_Sub now (LastActive db)
     then g = (r = None) \<and> w' = w2 \<and> man' = man2 else \<not> g \<and> w' = w1 \<and> man' = man"
    using call d by (auto simp: reap_one_def w1_def [symmetric] split: option.splits)
  show "man_inv srv dat w' man'"
    and "j \<noteq> k \<Longrightarrow> man_view dat w' man' j = man_view dat w man j"
    and "time_Sub now (LastActive db) \<le> maxIdle \<Longrightarrow> \<not> g \<and> man' = man \<and>
      man_view dat w' man' = man_view dat w man"
    and "g \<Longrightarrow> man_view dat w' man' k = None"
    and "j \<noteq> k \<Longrightarrow> fmlookup (man_tenants man') j = fmlookup (man_tenants man) j"
    using c D i v t by (auto split: if_splits)
qed

definition expired :: "gotime \<Rightarrow> int \<Rightarrow> 'h database \<Rightarrow> bool" where
  "expired now maxIdle db \<longleftrightarrow>
     db_state db = tenantActive \<and> maxIdle < time_Sub now (LastActive db)"

text \<open>
  The tenants a pass reports are gone from the table, were active and idle for too long; all
  others keep their data.
\<close>

lemma reap_loop_spec:
  assumes ok: "engine_ok api srv dat inr"
  shows "reap_loop api now maxIdle ev dbs w man = (reaped, w', man') \<Longrightarrow> man_inv srv dat w man \<Longrightarrow>
    distinct (map fst dbs) \<Longrightarrow>
    man_inv srv dat w' man' \<and> set reaped \<subseteq> fst ` {(k, db) \<in> set dbs. maxIdle < time_Sub now (LastActive db)} \<and>
    (\<forall>k \<in> set reaped. man_view dat w' man' k = None) \<and>
    (\<forall>k. (\<forall>db. (k, db) \<in> set dbs \<longrightarrow> time_Sub now (LastActive db) \<le> maxIdle) \<longrightarrow>
       man_view dat w' man' k = man_view dat w man k)"
proof (induction dbs arbitrary: w man reaped)
  case Nil
  then show ?case by simp
next
  case (Cons p dbs)
  obtain k db where p: "p = (k, db)" by (cases p)
  obtain g w1 man1 where o: "reap_one api now maxIdle (ev k) k db w man = (g, w1, man1)"
    by (cases "reap_one api now maxIdle (ev k) k db w man")
  obtain rs w2 man2 where l: "reap_loop api now maxIdle ev dbs w1 man1 = (rs, w2, man2)"
    by (cases "reap_loop api now maxIdle ev dbs w1 man1")
  have r: "reaped = (if g then k # rs else rs)" "w' = w2" "man' = man2"
    using Cons.prems(1) p o l by simp_all
  note O = reap_one_spec [OF ok Cons.prems(2) o]
  have nk: "k \<notin> fst ` set dbs" and dd: "distinct (map fst dbs)" using Cons.prems(3) p by auto
  have l': "reap_loop api now maxIdle ev dbs w1 man1 = (rs, w', man')" using l r by simp
  from Cons.IH [OF l' O(1) dd] r(2,3) have IH: "man_inv srv dat w2 man2"
    "set rs \<subseteq> fst ` {(k, db) \<in> set dbs. maxIdle < time_Sub now (LastActive db)}"
    "\<forall>k \<in> set rs. man_view dat w2 man2 k = None"
    "\<forall>k. (\<forall>db. (k, db) \<in> set dbs \<longrightarrow> time_Sub now (LastActive db) \<le> maxIdle) \<longrightarrow>
       man_view dat w2 man2 k = man_view dat w1 man1 k" by simp_all
  have kk: "man_view dat w2 man2 k = man_view dat w1 man1 k" using IH(4) nk by force
  have g: "maxIdle < time_Sub now (LastActive db)" if g using O(3) that by (meson not_le)
  show ?case
  proof (intro conjI)
    show "man_inv srv dat w' man'" using IH(1) r by simp
    show "set reaped \<subseteq> fst ` {(k, db) \<in> set (p # dbs). maxIdle < time_Sub now (LastActive db)}"
    proof
      fix x
      assume "x \<in> set reaped"
      then consider "g" "x = k" | "x \<in> set rs" using r(1) by (auto split: if_splits)
      then show "x \<in> fst ` {(k, db) \<in> set (p # dbs). maxIdle < time_Sub now (LastActive db)}"
        using IH(2) g p by cases force+
    qed
    show "\<forall>k \<in> set reaped. man_view dat w' man' k = None"
      using IH(3) O(4) kk r by (cases g) auto
    show "\<forall>k. (\<forall>db. (k, db) \<in> set (p # dbs) \<longrightarrow> time_Sub now (LastActive db) \<le> maxIdle) \<longrightarrow>
       man_view dat w' man' k = man_view dat w man k"
    proof (intro allI impI)
      fix j
      assume a: "\<forall>db. (j, db) \<in> set (p # dbs) \<longrightarrow> time_Sub now (LastActive db) \<le> maxIdle"
      then have "man_view dat w2 man2 j = man_view dat w1 man1 j" using IH(4) by simp
      also have "\<dots> = man_view dat w man j"
        using O(2,3) a p by (cases "j = k") auto
      finally show "man_view dat w' man' j = man_view dat w man j" by (simp add: r)
    qed
  qed
qed

text \<open>
  A pass in which no removal failed: the registry file lists the tenants of the table before
  and after it. The marker the pass writes is not the registry.
\<close>

lemma PersistActivity_registry:
  "registry_node (snd (PersistActivity ev w db)) man = registry_node w man"
  by (simp add: registry_node_def PersistActivity_frame marker_not_registry [symmetric])

lemma reap_one_sync:
  assumes ok: "engine_ok api srv dat inr" and inv: "man_inv srv dat w man"
    and call: "reap_one api now maxIdle ev k db w man = (g, w', man')" and sync: "reg_sync w man"
    and g: "maxIdle < time_Sub now (LastActive db) \<Longrightarrow> g"
  shows "reg_sync w' man'"
proof -
  define w1 where "w1 = snd (PersistActivity ev w db)"
  have i: "man_inv srv dat w1 man"
    by (rule files_only_inv [OF inv]) (simp add: w1_def files_only_grow frame_simps)
  from sync obtain ks where f: "reg_file w1 man ks" "\<forall>j \<in> set ks. is_api_key j"
    "fset (fmdom (man_tenants man)) = set ks"
    by (auto simp: reg_sync_def reg_file_def w1_def PersistActivity_registry)
  show ?thesis
  proof (cases "maxIdle < time_Sub now (LastActive db)")
    case True
    obtain r w2 man2 where d: "Deprovision api ev k w1 man = (r, w2, man2)"
      by (cases "Deprovision api ev k w1 man")
    have e: "w' = w2" "man' = man2" "r = None"
      using call d g [OF True] True by (auto simp: reap_one_def w1_def [symmetric] split: option.splits)
    from Deprovision_file(1) [OF ok i d f(1,2) e(3)] f(2,3) show ?thesis
      by (auto simp: reg_sync_def e intro!: exI [of _ "filter (\<lambda>j. j \<noteq> k) ks"])
  next
    case False
    with call have "w' = w1" "man' = man" by (auto simp: reap_one_def w1_def [symmetric])
    with f show ?thesis by (auto simp: reg_sync_def)
  qed
qed

lemma reap_loop_sync:
  assumes ok: "engine_ok api srv dat inr"
  shows "reap_loop api now maxIdle ev dbs w man = (reaped, w', man') \<Longrightarrow> man_inv srv dat w man \<Longrightarrow>
    distinct (map fst dbs) \<Longrightarrow> reg_sync w man \<Longrightarrow>
    (\<forall>(k, db) \<in> set dbs. maxIdle < time_Sub now (LastActive db) \<longrightarrow> k \<in> set reaped) \<Longrightarrow> reg_sync w' man'"
proof (induction dbs arbitrary: w man reaped)
  case Nil
  then show ?case by simp
next
  case (Cons p dbs)
  obtain k db where p: "p = (k, db)" by (cases p)
  obtain g w1 man1 where o: "reap_one api now maxIdle (ev k) k db w man = (g, w1, man1)"
    by (cases "reap_one api now maxIdle (ev k) k db w man")
  obtain rs where l: "reap_loop api now maxIdle ev dbs w1 man1 = (rs, w', man')"
    and r: "reaped = (if g then k # rs else rs)"
    using Cons.prems(1) p o by (auto split: prod.splits)
  have inv1: "man_inv srv dat w1 man1" by (rule reap_one_spec(1) [OF ok Cons.prems(2) o])
  have d: "k \<notin> fst ` set dbs" "distinct (map fst dbs)" using Cons.prems(3) p by auto
  from reap_loop_spec [OF ok l inv1 d(2)] d(1) have nk: "k \<notin> set rs" by force
  have "g" if "maxIdle < time_Sub now (LastActive db)"
    using Cons.prems(5) that nk r p by (cases g) auto
  from reap_one_sync [OF ok Cons.prems(2) o Cons.prems(4) this] have s: "reg_sync w1 man1" .
  have "\<forall>(j, db) \<in> set dbs. maxIdle < time_Sub now (LastActive db) \<longrightarrow> j \<in> set rs"
  proof (intro ballI, clarify)
    fix j db'
    assume j: "(j, db') \<in> set dbs" "maxIdle < time_Sub now (LastActive db')"
    then have "j \<in> set reaped" using Cons.prems(5) p by auto
    moreover have "j \<noteq> k" using j(1) d(1) by force
    ultimately show "j \<in> set rs" using r by (cases g) auto
  qed
  from Cons.IH [OF l inv1 d(2) s this] show ?case .
qed

lemma reap_snapshot_iff:
  "(k, db) \<in> set (reap_snapshot order man) \<longleftrightarrow>
     k \<in> set order \<and> fmlookup (man_tenants man) k = Some db \<and> db_state db = tenantActive"
  by (cases "db_state db") (force simp: reap_snapshot_def IsPending_def split: option.splits if_splits)+

lemma reap_snapshot_distinct: "distinct order \<Longrightarrow> distinct (map fst (reap_snapshot order man))"
proof (induction order)
  case Nil
  then show ?case by (simp add: reap_snapshot_def)
next
  case (Cons k order)
  have "reap_snapshot (k # order) man = reap_snapshot [k] man @ reap_snapshot order man"
    by (simp add: reap_snapshot_def)
  moreover have "k \<notin> set (map fst (reap_snapshot order man))"
    using Cons.prems by (auto simp: reap_snapshot_iff)
  moreover have "map fst (reap_snapshot [k] man) = [] \<or> map fst (reap_snapshot [k] man) = [k]"
    by (auto simp: reap_snapshot_def split: option.splits)
  moreover have "distinct (map fst (reap_snapshot order man))" using Cons by simp
  ultimately show ?case by (metis append_Cons append_Nil distinct.simps(2) map_append)
qed

end
