(* ===== verification/Server_System.thy ===== *)
theory Server_System
  imports Manager_Startup
begin

text \<open>
  The server as a state machine and its abstract specification. A state is the world (file
  system and engine) and the manager; a step is one call of the API, labelled with what its
  caller sees. The specification knows only which tenants exist and the key-value map of
  each. Every run of the server is a run of the specification.
\<close>

section \<open>Labels and the specification\<close>

datatype label =
    L_none
  | L_provision string
  | L_put string string string
  | L_get string string "string option"
  | L_delete string string
  | L_range string string string "kv list"
  | L_refused string store_error
  | L_deprovision string
  | L_deprovision_failed string store_error
  | L_reap "string set" "string list"

type_synonym store = "string \<rightharpoonup> (string \<rightharpoonup> string)"

text \<open>
  An operation that reports an engine failure (status 503) or a failed removal may have
  changed the tenant it was about, and no other; any other refusal changes nothing.
\<close>

inductive spec_step :: "(string \<Rightarrow> string \<Rightarrow> string \<Rightarrow> bool) \<Rightarrow> store \<Rightarrow> label \<Rightarrow> store \<Rightarrow> bool"
  for inr where
  spec_none: "spec_step inr S L_none S"
| spec_provision: "S k = None \<Longrightarrow> spec_step inr S (L_provision k) (S(k \<mapsto> Map.empty))"
| spec_put: "S k = Some m \<Longrightarrow> spec_step inr S (L_put k key v) (S(k \<mapsto> m(key \<mapsto> v)))"
| spec_delete: "S k = Some m \<Longrightarrow> spec_step inr S (L_delete k key) (S(k \<mapsto> m(key := None)))"
| spec_get: "S k = Some m \<Longrightarrow> (short_values m \<longrightarrow> m key = r) \<Longrightarrow> spec_step inr S (L_get k key r) S"
| spec_range: "S k = Some m \<Longrightarrow> (range_fits inr m s e \<longrightarrow> is_range inr m s e kvs) \<Longrightarrow>
    spec_step inr S (L_range k s e kvs) S"
| spec_refused: "(\<And>j. j \<noteq> k \<Longrightarrow> S' j = S j) \<Longrightarrow> dom S' = dom S \<Longrightarrow>
    (se_Status x \<noteq> 503 \<Longrightarrow> S' = S) \<Longrightarrow> spec_step inr S (L_refused k x) S'"
| spec_deprovision: "k \<in> dom S \<Longrightarrow> spec_step inr S (L_deprovision k) (S(k := None))"
| spec_deprovision_failed: "(\<And>j. j \<noteq> k \<Longrightarrow> S' j = S j) \<Longrightarrow>
    spec_step inr S (L_deprovision_failed k x) S'"
| spec_reap: "set ks \<subseteq> old \<Longrightarrow> (\<And>k. k \<in> set ks \<Longrightarrow> S' k = None) \<Longrightarrow> (\<And>k. k \<notin> old \<Longrightarrow> S' k = S k) \<Longrightarrow>
    spec_step inr S (L_reap old ks) S'"

inductive spec_run :: "(string \<Rightarrow> string \<Rightarrow> string \<Rightarrow> bool) \<Rightarrow> store \<Rightarrow> label list \<Rightarrow> store \<Rightarrow> bool"
  for inr where
  spec_run_nil: "spec_run inr S [] S"
| spec_run_step: "spec_step inr S l S1 \<Longrightarrow> spec_run inr S1 ls S2 \<Longrightarrow> spec_run inr S (l # ls) S2"

section \<open>The server\<close>

definition result_label :: "string \<Rightarrow> ('a \<Rightarrow> label) \<Rightarrow> 'a result \<Rightarrow> label option" where
  "result_label k f r = (case r of Ok a \<Rightarrow> Some (f a) | Err x \<Rightarrow> Some (L_refused k x) | Crash \<Rightarrow> None)"

definition reap_old :: "gotime \<Rightarrow> int \<Rightarrow> 'h manager \<Rightarrow> string set" where
  "reap_old now maxIdle man =
     {k. \<exists>db. fmlookup (man_tenants man) k = Some db \<and> expired now maxIdle db}"

text \<open>
  The directory named by a freshly drawn key must not exist: \<open>generateAPIKey\<close> compares the
  key with the table only, so this is the assumption that 24 random bytes do not repeat.
\<close>

inductive server_step ::
  "('h, 'w) fredb_api \<Rightarrow> 'w world \<times> 'h manager \<Rightarrow> label \<Rightarrow> 'w world \<times> 'h manager \<Rightarrow> bool"
  for api where
  do_provision: "RequestProvision ev w man = (Inr k, w', man') \<Longrightarrow> rand_ok ev \<Longrightarrow>
    fmlookup (nodes w) (tenant_dir man k) = None \<Longrightarrow>
    server_step api (w, man) (L_provision k) (w', man')"
| do_provision_failed: "RequestProvision ev w man = (Inl e, w', man') \<Longrightarrow> rand_ok ev \<Longrightarrow>
    server_step api (w, man) L_none (w', man')"
| do_put: "man_serve (\<lambda>ev w db. db_Put api ev key v w db) ev k w man = (r, w', man') \<Longrightarrow>
    result_label k (\<lambda>_. L_put k key v) r = Some l \<Longrightarrow> server_step api (w, man) l (w', man')"
| do_get: "man_serve (\<lambda>ev w db. db_Get api ev key w db) ev k w man = (r, w', man') \<Longrightarrow>
    result_label k (\<lambda>(v, found). L_get k key (if found then Some v else None)) r = Some l \<Longrightarrow>
    server_step api (w, man) l (w', man')"
| do_delete: "man_serve (\<lambda>ev w db. db_Delete api ev key w db) ev k w man = (r, w', man') \<Longrightarrow>
    result_label k (\<lambda>_. L_delete k key) r = Some l \<Longrightarrow> server_step api (w, man) l (w', man')"
| do_range: "man_serve (\<lambda>ev w db. db_Range api ev s e w db) ev k w man = (r, w', man') \<Longrightarrow>
    result_label k (\<lambda>kvs. L_range k s e (case kvs of None \<Rightarrow> [] | Some ps \<Rightarrow> ps)) r = Some l \<Longrightarrow>
    server_step api (w, man) l (w', man')"
| do_deprovision: "Deprovision api ev k w man = (None, w', man') \<Longrightarrow>
    server_step api (w, man) (L_deprovision k) (w', man')"
| do_deprovision_failed: "Deprovision api ev k w man = (Some x, w', man') \<Longrightarrow>
    server_step api (w, man) (L_deprovision_failed k x) (w', man')"
| do_reap: "reapInactive api now maxIdle evs order w man = (ks, w', man') \<Longrightarrow> distinct order \<Longrightarrow>
    server_step api (w, man) (L_reap (reap_old now maxIdle man) ks) (w', man')"

inductive server_run ::
  "('h, 'w) fredb_api \<Rightarrow> 'w world \<times> 'h manager \<Rightarrow> label list \<Rightarrow> 'w world \<times> 'h manager \<Rightarrow> bool"
  for api where
  server_run_nil: "server_run api s [] s"
| server_run_step: "server_step api s l s1 \<Longrightarrow> server_run api s1 ls s2 \<Longrightarrow> server_run api s (l # ls) s2"

inductive_cases spec_putE: "spec_step inr S (L_put k key v) S'"
inductive_cases spec_getE: "spec_step inr S (L_get k key r) S'"
inductive_simps spec_run_simps: "spec_run inr S [] S'" "spec_run inr S (l # ls) S'"
inductive_simps server_run_simps: "server_run api s [] s'" "server_run api s (l # ls) s'"

section \<open>Each step is a step of the specification\<close>

lemma view_dom: "dom (man_view dat w man) = fset (fmdom (man_tenants man))"
  by (auto simp: man_view_def fmlookup_dom_iff)

text \<open>What the manager's invariant gives about the tenant a request is served on.\<close>

lemma served_tenant:
  assumes inv: "man_inv srv dat w man" and k: "fmlookup (man_tenants man) k = Some db"
  shows "db_linked srv dat w db" "man_view dat w man k = Some (db_view dat w db)"
  using man_invD [OF inv k] k by (auto simp: tenant_ok_def tenant_wf_def man_view_def)

context tenant_request
begin

lemma man_serve_sim:
  assumes ok: "engine_ok api srv dat inr" and inv: "man_inv srv dat w man"
    and call: "man_serve op ev k w man = (r, w', man')"
  obtains "r = Err ErrUnknownAPIKey" "man_view dat w' man' = man_view dat w man"
  | db db' where "op ev w db = (r, w', db')" "tenant_wf srv dat w db"
      "man_view dat w man k = Some (db_view dat w db)"
      "man_view dat w' man' = (man_view dat w man)(k \<mapsto> db_view dat w' db')"
      "db_dataDirPath db' = db_dataDirPath db"
  using man_serve_cases [OF call]
proof (elim disjE exE conjE)
  assume "r = Err ErrUnknownAPIKey" "w' = w" "man' = man"
  then show thesis using that(1) by simp
next
  fix db db'
  assume k: "fmlookup (man_tenants man) k = Some db" and o: "op ev w db = (r, w', db')"
    and m: "man' = set_tenant k db' man"
  have wf: "tenant_wf srv dat w db" using man_invD [OF inv k] by (simp add: tenant_ok_def)
  have "man_view dat w' man' j = ((man_view dat w man)(k \<mapsto> db_view dat w' db')) j" for j
    using man_serve_inv(2) [OF ok inv call, of j]
    by (cases "j = k") (simp_all add: m man_view_def)
  then have v: "man_view dat w' man' = (man_view dat w man)(k \<mapsto> db_view dat w' db')" by blast
  from k have "man_view dat w man k = Some (db_view dat w db)" by (simp add: man_view_def)
  from o wf this v req_dir [OF o] show thesis by (rule that(2))
qed

end

lemma refused_sim:
  assumes "S k = Some m" "se_Status x \<noteq> 503 \<Longrightarrow> m' = m"
  shows "spec_step inr S (L_refused k x) (S(k \<mapsto> m'))"
proof (rule spec_refused)
  show "dom (S(k \<mapsto> m')) = dom S" using assms(1) by auto
  show "se_Status x \<noteq> 503 \<Longrightarrow> S(k \<mapsto> m') = S" using assms by (simp add: fun_upd_idem)
qed simp

lemma unknown_sim: "spec_step inr S (L_refused k ErrUnknownAPIKey) S"
  by (rule spec_refused) simp_all

lemma put_sim:
  assumes ok: "engine_ok api srv dat inr" and inv: "man_inv srv dat w man"
    and call: "man_serve (\<lambda>ev w db. db_Put api ev key v w db) ev k w man = (r, w', man')"
    and l: "result_label k (\<lambda>_. L_put k key v) r = Some l"
  shows "spec_step inr (man_view dat w man) l (man_view dat w' man')"
  using put_req.man_serve_sim [OF ok inv call]
proof cases
  case 1
  with l show ?thesis by (auto simp: result_label_def unknown_sim)
next
  case (2 db db')
  from 2(2) have "db_linked srv dat w db" by (simp add: tenant_wf_def)
  note P = db_Put_spec(4,5) [OF ok this 2(1)]
  show ?thesis
  proof (cases r)
    case (Ok u)
    with spec_put [where inr = inr and S = "man_view dat w man" and k = k, OF 2(3), of key v] P(1) 2(4) l show ?thesis
      by (simp add: result_label_def)
  next
    case (Err x)
    with refused_sim [where inr = inr and S = "man_view dat w man" and k = k, OF 2(3), of x "db_view dat w' db'"] P(2) 2(4) l show ?thesis
      by (simp add: result_label_def)
  qed (use l in \<open>simp add: result_label_def\<close>)
qed

lemma db_Delete_refused:
  assumes "db_Delete api ev key w db = (Err x, w', db')" "se_Status x \<noteq> 503"
  shows "w' = w"
  using assms
  by (auto simp: db_Delete_def Let_def error_defs split: if_splits prod.splits option.splits sum.splits)

lemma delete_sim:
  assumes ok: "engine_ok api srv dat inr" and inv: "man_inv srv dat w man"
    and call: "man_serve (\<lambda>ev w db. db_Delete api ev key w db) ev k w man = (r, w', man')"
    and l: "result_label k (\<lambda>_. L_delete k key) r = Some l"
  shows "spec_step inr (man_view dat w man) l (man_view dat w' man')"
  using delete_req.man_serve_sim [OF ok inv call]
proof cases
  case 1
  with l show ?thesis by (auto simp: result_label_def unknown_sim)
next
  case (2 db db')
  from 2(2) have "db_linked srv dat w db" by (simp add: tenant_wf_def)
  note P = db_Delete_spec(3) [OF ok this 2(1)]
  show ?thesis
  proof (cases r)
    case (Ok u)
    with spec_delete [where inr = inr and S = "man_view dat w man" and k = k, OF 2(3), of key] P 2(4) l show ?thesis
      by (simp add: result_label_def)
  next
    case (Err x)
    have "db_view dat w' db' = db_view dat w db" if "se_Status x \<noteq> 503"
      using db_Delete_refused [OF 2(1) [unfolded Err] that] 2(5) by (simp add: db_view_def)
    with refused_sim [where inr = inr and S = "man_view dat w man" and k = k, OF 2(3), of x "db_view dat w' db'"] 2(4) l Err show ?thesis
      by (simp add: result_label_def)
  qed (use l in \<open>simp add: result_label_def\<close>)
qed

lemma get_sim:
  assumes ok: "engine_ok api srv dat inr" and inv: "man_inv srv dat w man"
    and call: "man_serve (\<lambda>ev w db. db_Get api ev key w db) ev k w man = (r, w', man')"
    and l: "result_label k (\<lambda>(v, found). L_get k key (if found then Some v else None)) r = Some l"
  shows "spec_step inr (man_view dat w man) l (man_view dat w' man')"
  using get_req.man_serve_sim [OF ok inv call]
proof cases
  case 1
  with l show ?thesis by (auto simp: result_label_def unknown_sim)
next
  case (2 db db')
  from 2(2) have ln: "db_linked srv dat w db" by (simp add: tenant_wf_def)
  from db_Get_frame [OF ok ln 2(1)] have same: "db_view dat w' db' = db_view dat w db"
    using 2(5) by (intro db_view_cong [of srv]) simp_all
  with 2(3,4) have v: "man_view dat w' man' = man_view dat w man" by (simp add: fun_upd_idem)
  show ?thesis
  proof (cases r)
    case (Ok p)
    obtain val found where p: "p = (val, found)" by (cases p)
    have "short_values (db_view dat w db) \<Longrightarrow>
        db_view dat w db key = (if found then Some val else None)"
      using db_Get_spec(4) [OF ok ln _ 2(1)] Ok p by simp
    then show ?thesis using Ok p l v by (simp add: result_label_def) (metis spec_get [where inr = inr and S = "man_view dat w man" and k = k, OF 2(3)])
  next
    case (Err x)
    have "spec_step inr (man_view dat w man) (L_refused k x) (man_view dat w man)"
      by (rule spec_refused) simp_all
    with Err l v show ?thesis by (simp add: result_label_def)
  qed (use l in \<open>simp add: result_label_def\<close>)
qed

lemma range_sim:
  assumes ok: "engine_ok api srv dat inr" and inv: "man_inv srv dat w man"
    and call: "man_serve (\<lambda>ev w db. db_Range api ev s e w db) ev k w man = (r, w', man')"
    and l: "result_label k (\<lambda>kvs. L_range k s e (case kvs of None \<Rightarrow> [] | Some ps \<Rightarrow> ps)) r = Some l"
  shows "spec_step inr (man_view dat w man) l (man_view dat w' man')"
  using range_req.man_serve_sim [OF ok inv call]
proof cases
  case 1
  with l show ?thesis by (auto simp: result_label_def unknown_sim)
next
  case (2 db db')
  from 2(2) have ln: "db_linked srv dat w db" by (simp add: tenant_wf_def)
  note R = db_Range_spec [OF ok ln 2(1)]
  from R(2) have same: "db_view dat w' db' = db_view dat w db"
    using 2(5) by (intro db_view_cong [of srv]) simp_all
  with 2(3,4) have v: "man_view dat w' man' = man_view dat w man" by (simp add: fun_upd_idem)
  show ?thesis
  proof (cases r)
    case (Ok res)
    have "is_range inr (db_view dat w db) s e (case res of None \<Rightarrow> [] | Some ps \<Rightarrow> ps)"
      if "range_fits inr (db_view dat w db) s e"
    proof (cases res)
      case None
      with R(5) Ok is_range_empty show ?thesis by simp
    next
      case (Some kvs)
      with R(4) [of kvs] Ok range_decoded [OF that] show ?thesis by auto
    qed
    then show ?thesis using Ok l v spec_range [where inr = inr and S = "man_view dat w man" and k = k, OF 2(3)] by (auto simp: result_label_def)
  next
    case (Err x)
    have "spec_step inr (man_view dat w man) (L_refused k x) (man_view dat w man)"
      by (rule spec_refused) simp_all
    with Err l v show ?thesis by (simp add: result_label_def)
  qed (use l in \<open>simp add: result_label_def\<close>)
qed

lemma deprovision_known:
  "Deprovision api ev k w man = (None, w', man') \<Longrightarrow> k \<in> fset (fmdom (man_tenants man))"
  by (auto simp: Deprovision_def fmlookup_dom_iff split: option.splits)

lemma reap_sim:
  assumes ok: "engine_ok api srv dat inr" and inv: "man_inv srv dat w man"
    and call: "reapInactive api now maxIdle evs order w man = (ks, w', man')" and d: "distinct order"
  shows "man_inv srv dat w' man'"
    and "spec_step inr (man_view dat w man) (L_reap (reap_old now maxIdle man) ks) (man_view dat w' man')"
proof -
  let ?snap = "reap_snapshot order man"
  from reap_loop_spec [OF ok call [unfolded reapInactive_def] inv reap_snapshot_distinct [OF d]]
  have R: "man_inv srv dat w' man'"
    "set ks \<subseteq> fst ` {(k, db) \<in> set ?snap. maxIdle < time_Sub now (LastActive db)}"
    "\<forall>k \<in> set ks. man_view dat w' man' k = None"
    "\<forall>k. (\<forall>db. (k, db) \<in> set ?snap \<longrightarrow> time_Sub now (LastActive db) \<le> maxIdle) \<longrightarrow>
       man_view dat w' man' k = man_view dat w man k" by simp_all
  show "man_inv srv dat w' man'" by (rule R(1))
  show "spec_step inr (man_view dat w man) (L_reap (reap_old now maxIdle man) ks) (man_view dat w' man')"
  proof (rule spec_reap)
    show "set ks \<subseteq> reap_old now maxIdle man"
      using R(2) by (auto simp: reap_snapshot_iff reap_old_def expired_def)
    show "\<And>k. k \<in> set ks \<Longrightarrow> man_view dat w' man' k = None" using R(3) by simp
    fix k
    assume "k \<notin> reap_old now maxIdle man"
    then have "time_Sub now (LastActive db) \<le> maxIdle" if "(k, db) \<in> set ?snap" for db
      using that by (auto simp: reap_snapshot_iff reap_old_def expired_def not_less)
    then show "man_view dat w' man' k = man_view dat w man k" using R(4) by blast
  qed
qed

theorem server_step_sim:
  assumes ok: "engine_ok api srv dat inr"
    and step: "server_step api (w, man) l (w', man')" and inv: "man_inv srv dat w man"
  shows "man_inv srv dat w' man'" "spec_step inr (man_view dat w man) l (man_view dat w' man')"
proof -
  have "man_inv srv dat w' man' \<and> spec_step inr (man_view dat w man) l (man_view dat w' man')"
    using step
  proof cases
    case (do_provision ev k)
    have fresh: "fmlookup (nodes w) (tenant_dir man j) = None" if "Inr k = Inr j" for j
      using that do_provision(4) by simp
    note P = RequestProvision_inv [OF inv do_provision(3) fresh do_provision(2)]
    from P(1) P(2) [of k] have "man_inv srv dat w' man'" "fmlookup (man_tenants man) k = None"
      "man_view dat w' man' = (man_view dat w man)(k \<mapsto> Map.empty)" by auto
    with do_provision(1) spec_provision [of "man_view dat w man" k inr] show ?thesis
      by (simp add: man_view_def [of dat w man])
  next
    case (do_provision_failed ev e)
    note P = RequestProvision_inv [OF inv do_provision_failed(3) _ do_provision_failed(2)]
    have "man_inv srv dat w' man'" "man_view dat w' man' = man_view dat w man"
      using P(1) P(3) [of e] by auto
    with do_provision_failed(1) show ?thesis by (simp add: spec_none)
  next
    case (do_put ev key v k r)
    with put_req.man_serve_inv(1) [OF ok inv do_put(1)] put_sim [OF ok inv] show ?thesis by blast
  next
    case (do_get ev key k r)
    with get_req.man_serve_inv(1) [OF ok inv do_get(1)] get_sim [OF ok inv] show ?thesis by blast
  next
    case (do_delete ev key k r)
    with delete_req.man_serve_inv(1) [OF ok inv do_delete(1)] delete_sim [OF ok inv] show ?thesis by blast
  next
    case (do_range ev s e k r)
    with range_req.man_serve_inv(1) [OF ok inv do_range(1)] range_sim [OF ok inv] show ?thesis by blast
  next
    case (do_deprovision ev k)
    note D = Deprovision_inv [OF ok inv do_deprovision(2)]
    have "man_view dat w' man' = (man_view dat w man)(k := None)"
      using D(2,3) by (auto simp: fun_eq_iff)
    moreover have "k \<in> dom (man_view dat w man)"
      using deprovision_known [OF do_deprovision(2)] by (simp add: view_dom)
    ultimately show ?thesis using D(1) do_deprovision(1) spec_deprovision by simp
  next
    case (do_deprovision_failed ev k x)
    note D = Deprovision_inv [OF ok inv do_deprovision_failed(2)]
    from D(1,2) do_deprovision_failed(1) spec_deprovision_failed show ?thesis by simp
  next
    case (do_reap now maxIdle evs order ks)
    with reap_sim [OF ok inv] show ?thesis by blast
  qed
  then show "man_inv srv dat w' man'" "spec_step inr (man_view dat w man) l (man_view dat w' man')"
    by simp_all
qed

theorem server_run_sim:
  assumes ok: "engine_ok api srv dat inr"
  shows "server_run api s ls s' \<Longrightarrow> man_inv srv dat (fst s) (snd s) \<Longrightarrow>
    man_inv srv dat (fst s') (snd s') \<and>
    spec_run inr (man_view dat (fst s) (snd s)) ls (man_view dat (fst s') (snd s'))"
proof (induction rule: server_run.induct)
  case (server_run_nil s)
  then show ?case by (simp add: spec_run_nil)
next
  case (server_run_step s l s1 ls s2)
  obtain w man w1 man1 where s: "s = (w, man)" "s1 = (w1, man1)" by (cases s; cases s1) auto
  from server_step_sim [OF ok server_run_step.hyps(1) [unfolded s]] server_run_step.prems s
  have "man_inv srv dat w1 man1" "spec_step inr (man_view dat w man) l (man_view dat w1 man1)"
    by simp_all
  with server_run_step.IH s show ?case by (auto intro: spec_run_step)
qed

end
