(* ===== verification/Engine_Reference.thy ===== *)
theory Engine_Reference
  imports Engine_Spec
begin

text \<open>
  A small engine in memory that satisfies \<open>engine_ok\<close>: the hypothesis can hold, and the
  witnesses of the theorems that use it run on this engine. It stands for no code of the
  repository. A handle is the name of its directory; a range holds its lower bound and not
  its upper one.
\<close>

record ref_engine =
  re_open :: "string list"
  re_data :: "string \<Rightarrow> kv list"

fun kv_map :: "kv list \<Rightarrow> string \<rightharpoonup> string" where
  "kv_map [] k = None"
| "kv_map (p # ps) k = (if k = kv_Key p then Some (kv_Value p) else kv_map ps k)"

fun kv_ins :: "kv \<Rightarrow> kv list \<Rightarrow> kv list" where
  "kv_ins q [] = [q]"
| "kv_ins q (p # ps) =
     (if str_less (kv_Key q) (kv_Key p) then q # p # ps
      else if kv_Key q = kv_Key p then q # ps
      else p # kv_ins q ps)"

definition kv_sort :: "kv list \<Rightarrow> kv list" where
  "kv_sort ps = foldr kv_ins ps []"

definition ref_inr :: "string \<Rightarrow> string \<Rightarrow> string \<Rightarrow> bool" where
  "ref_inr s e k \<longleftrightarrow> \<not> str_less k s \<and> str_less k e"

definition ref_api :: "(string, ref_engine) fredb_api" where
  "ref_api =
     \<lparr>fredb_open = (\<lambda>d w. (Some d, w\<lparr>re_open := d # re_open w\<rparr>)),
      fredb_close = (\<lambda>h w. w\<lparr>re_open := removeAll h (re_open w)\<rparr>),
      fredb_get = (\<lambda>h k w. case kv_map (re_data w h) k of
         None \<Rightarrow> (0, '''', w) | Some v \<Rightarrow> (1, v, w)),
      fredb_put = (\<lambda>h k v w.
         (0, w\<lparr>re_data := (re_data w)(h := \<lparr>kv_Key = k, kv_Value = v\<rparr> # re_data w h)\<rparr>)),
      fredb_remove = (\<lambda>h k w.
         (0, w\<lparr>re_data := (re_data w)(h := filter (\<lambda>p. kv_Key p \<noteq> k) (re_data w h))\<rparr>)),
      fredb_total_size = (\<lambda>h w. (kvs_total (re_data w h), w)),
      fredb_get_range = (\<lambda>h s e w.
         (0, encodeRangeBuf (filter (\<lambda>p. ref_inr s e (kv_Key p)) (kv_sort (re_data w h))), w)),
      fredb_last_error = (\<lambda>w. ''''),
      fredb_dir_removed = (\<lambda>b d w.
         w\<lparr>re_data := (\<lambda>d'. if path_under d d' then [] else re_data w d')\<rparr>)\<rparr>"

definition ref_srv :: "(string, ref_engine) eng_at" where
  "ref_srv w h = (if h \<in> set (re_open w) then Some h else None)"

definition ref_dat :: "ref_engine eng_dat" where
  "ref_dat w d = kv_map (re_data w d)"

lemma str_less_linear: "str_less a b \<or> a = b \<or> str_less b a"
proof (induction a arbitrary: b)
  case Nil
  then show ?case by (cases b) simp_all
next
  case (Cons x xs)
  show ?case
  proof (cases b)
    case (Cons y ys)
    consider "(of_char x :: nat) < of_char y" | "x = y" | "(of_char y :: nat) < of_char x"
      by (metis linorder_less_linear of_char_eq_iff)
    then show ?thesis using Cons.IH [of ys] Cons by cases auto
  qed simp
qed

abbreviation kv_sorted :: "kv list \<Rightarrow> bool" where
  "kv_sorted \<equiv> sorted_wrt (\<lambda>p q. str_less (kv_Key p) (kv_Key q))"

lemma set_kv_ins: "set (kv_ins q ps) \<subseteq> insert q (set ps)"
  by (induction ps) auto

lemma kv_sorted_ins: "kv_sorted ps \<Longrightarrow> kv_sorted (kv_ins q ps)"
proof (induction ps)
  case Nil
  then show ?case by simp
next
  case (Cons p ps)
  have "str_less (kv_Key p) (kv_Key q)"
    if "\<not> str_less (kv_Key q) (kv_Key p)" "kv_Key q \<noteq> kv_Key p"
    using that str_less_linear by blast
  then show ?case
    using Cons set_kv_ins [of q ps] by (auto intro: str_less_trans)
qed

lemma kv_sorted_map:
  "kv_sorted ps \<Longrightarrow> \<lparr>kv_Key = k, kv_Value = v\<rparr> \<in> set ps \<longleftrightarrow> kv_map ps k = Some v"
proof (induction ps)
  case Nil
  then show ?case by simp
next
  case (Cons p ps)
  have ne: "kv_Key q \<noteq> kv_Key p" if "q \<in> set ps" for q
    using Cons.prems that by (auto dest: bspec)
  have "\<lparr>kv_Key = k, kv_Value = v\<rparr> = p \<longleftrightarrow> k = kv_Key p \<and> v = kv_Value p"
    by (cases p) auto
  with Cons ne [of "\<lparr>kv_Key = k, kv_Value = v\<rparr>"] show ?case by auto
qed

lemma kv_map_ins: "kv_sorted ps \<Longrightarrow> kv_map (kv_ins q ps) = (kv_map ps)(kv_Key q \<mapsto> kv_Value q)"
proof (induction ps)
  case Nil
  then show ?case by (simp add: fun_eq_iff)
next
  case (Cons p ps)
  then show ?case by (auto simp: fun_eq_iff)
qed

lemma kv_sort_sorted: "kv_sorted (kv_sort ps)"
  by (induction ps) (simp_all add: kv_sort_def kv_sorted_ins)

lemma kv_sort_map: "kv_map (kv_sort ps) = kv_map ps"
proof (induction ps)
  case Nil
  then show ?case by (simp add: kv_sort_def)
next
  case (Cons p ps)
  have "kv_sort (p # ps) = kv_ins p (kv_sort ps)" by (simp add: kv_sort_def)
  then show ?case using Cons kv_map_ins [OF kv_sort_sorted, of p ps] by (auto simp: fun_eq_iff)
qed

lemma kv_map_filter: "kv_map (filter (\<lambda>p. kv_Key p \<noteq> k) ps) = (kv_map ps)(k := None)"
  by (induction ps) (auto simp: fun_eq_iff)

lemma ref_range:
  "is_range ref_inr (kv_map ps) s e (filter (\<lambda>p. ref_inr s e (kv_Key p)) (kv_sort ps))"
  using kv_sort_sorted [of ps] kv_sorted_map [OF kv_sort_sorted, of _ _ ps]
  by (auto simp: is_range_def sorted_wrt_filter kv_sort_map)

lemma ref_engine_ok: "engine_ok ref_api ref_srv ref_dat ref_inr"
proof -
  have "eng_get_ok ref_api ref_srv ref_dat"
    by (auto simp: eng_get_ok_def ref_api_def ref_srv_def ref_dat_def eng_same_def
        split: if_splits option.splits)
  moreover have "eng_put_ok ref_api ref_srv ref_dat"
    by (auto simp: eng_put_ok_def ref_api_def ref_srv_def ref_dat_def eng_frame_def fun_eq_iff
        split: if_splits)
  moreover have "eng_remove_ok ref_api ref_srv ref_dat"
    by (auto simp: eng_remove_ok_def ref_api_def ref_srv_def ref_dat_def eng_frame_def fun_eq_iff
        kv_map_filter split: if_splits)
  moreover have "eng_size_ok ref_api ref_srv ref_dat"
    by (auto simp: eng_size_ok_def ref_api_def eng_same_def)
  moreover have "eng_range_ok ref_api ref_srv ref_dat ref_inr"
    using ref_range
    by (fastforce simp: eng_range_ok_def ref_api_def ref_srv_def ref_dat_def eng_same_def
        split: if_splits)
  moreover have "eng_open_ok ref_api ref_srv ref_dat"
    by (auto simp: eng_open_ok_def ref_api_def ref_srv_def ref_dat_def fun_eq_iff split: if_splits)
  moreover have "eng_close_ok ref_api ref_srv ref_dat"
    by (auto simp: eng_close_ok_def ref_api_def ref_srv_def ref_dat_def fun_eq_iff)
  moreover have "eng_removed_ok ref_api ref_srv ref_dat"
    by (auto simp: eng_removed_ok_def ref_api_def ref_srv_def ref_dat_def fun_eq_iff)
  ultimately show ?thesis by (simp add: engine_ok_def)
qed

end
