(* ===== verification/Tenant_Properties.thy ===== *)
theory Tenant_Properties
  imports Tenant_Requests Engine_Reference
begin

text \<open>
  Properties of one tenant's requests, with witnesses on the reference engine.
\<close>

section \<open>A concrete tenant\<close>

definition ex_key :: string where
  "ex_key = replicate 48 CHR ''a''"

definition ex_dir :: string where
  "ex_dir = ''/data/'' @ ex_key"

definition ex_config :: rate_limit_config where
  "ex_config = \<lparr>CapacityBytes = Fin 100, RefillBytesPerSec = Fin 8, FlatOverheadBytes = Fin 1,
     WriteByteWeight = Fin 1, ReadByteWeight = Fin 1\<rparr>"

definition ex_tenant :: "string database" where
  "ex_tenant = \<lparr>db_APIKey = ex_key, db_dataDirPath = ex_dir, db_maxValueBytes = 50,
     db_maxStorageBytes = 1000, db_bucket = Some ex_bucket, db_state = tenantActive,
     db_lastActive = 0, db_rateLimit = ex_config, db_engine = Some ex_dir\<rparr>"

definition ex_pending :: "string database" where
  "ex_pending = ex_tenant\<lparr>db_state := tenantPending, db_engine := None\<rparr>"

definition ex_env :: env where
  "ex_env = \<lparr>clk = (\<lambda>n. ex_time 0), os_clock = 0, os_faults = (\<lambda>c. None),
     os_dir_mtime = (\<lambda>p. 0), rand_Read = (\<lambda>n. Inr (replicate 24 170))\<rparr>"

definition ex_world :: "ref_engine world" where
  "ex_world = \<lparr>nodes = fmupd ex_dir NDir (fmupd ''/data'' NDir fmempty),
     engw = \<lparr>re_open = [ex_dir], re_data = (\<lambda>d. [])\<rparr>\<rparr>"

definition ex_store :: "kv list \<Rightarrow> ref_engine world" where
  "ex_store kvs = ex_world\<lparr>engw := \<lparr>re_open = [ex_dir], re_data = (\<lambda>d. [])(ex_dir := kvs)\<rparr>\<rparr>"

lemma ex_key_list: "ex_key = ''aaaaaaaaaaaaaaaaaaaaaaaaaaaaaaaaaaaaaaaaaaaaaaaa''"
  by (simp add: ex_key_def numeral_eq_Suc)

lemma ex_dir_clean: "path_Clean ex_dir = ex_dir" "ex_dir \<noteq> ''''" "path_Join ''/data'' ex_key = ex_dir"
proof -
  have "plain_name ex_key" by (simp add: ex_key_list plain_name_def)
  moreover have "path_base ''/data'' = ''/data/''"
    by (simp add: path_base_def path_rooted_def join_comps_def path_comps_def clean_step_def)
  ultimately show j: "path_Join ''/data'' ex_key = ex_dir"
    by (simp add: path_Join_base ex_dir_def)
  show "path_Clean ex_dir = ex_dir" "ex_dir \<noteq> ''''"
    using path_Clean_Join [OF \<open>plain_name ex_key\<close>, of "''/data''"] j by simp_all
qed

lemma ex_config_sane: "sane_config ex_config"
  by (simp add: sane_config_def ex_config_def fin_nonneg_def sane_rate_def)

lemma ex_db_inv: "db_inv ex_tenant" "db_inv ex_pending"
  using ex_config_sane ex_bucket_inv
  by (simp_all add: db_inv_def ex_tenant_def ex_pending_def)

lemma ex_tenant_wf: "tenant_wf ref_srv ref_dat (ex_store kvs) ex_tenant"
  using ex_dir_clean ex_db_inv
  by (simp add: tenant_wf_def db_linked_def db_housed_def ref_srv_def ex_store_def ex_tenant_def
      ex_world_def)

lemma ex_pending_wf: "tenant_wf ref_srv ref_dat (ex_store []) ex_pending"
  using ex_dir_clean ex_db_inv
  by (simp add: tenant_wf_def db_linked_def db_housed_def db_view_def ref_dat_def ex_store_def
      ex_pending_def ex_tenant_def ex_world_def fun_eq_iff)

lemma ex_view: "db_view ref_dat (ex_store kvs) ex_tenant = kv_map kvs"
  by (simp add: db_view_def ref_dat_def ex_store_def ex_tenant_def)

text \<open>The bucket of the example after spending \<open>n\<close>, at the same time.\<close>

definition ex_left :: "rat \<Rightarrow> string database" where
  "ex_left n = ex_tenant\<lparr>db_bucket := Some (ex_bucket\<lparr>tb_tokens := Fin n, tb_last := ex_time 0\<rparr>)\<rparr>"

lemma ex_credit: "duration_Seconds (time_Sub (ex_time 0) (ex_time 0)) = Fin 0"
  by (simp add: duration_Seconds_def Second_def go_div_def go_mod_def)

lemma ex_put:
  "db_Put ref_api ex_env ''k'' ''v'' (ex_store []) ex_tenant =
     (Ok (), ex_store [\<lparr>kv_Key = ''k'', kv_Value = ''v''\<rparr>], ex_left 98)"
  using ex_elapsed(1)
  by (simp add: db_Put_def ex_tenant_def ex_env_def ex_config_def ex_left_def bucket_Consume_def
      PutCost_def tb_Consume_def tb_refill_def Let_def f64_min_def f64_sub_def ex_bucket_def
      on_engine_def cgo_TotalSize_def cgo_Put_def ref_api_def ex_store_def ex_world_def kvs_total_def
      TouchActivity_def time_Unix_sec_def ex_time_def fun_eq_iff)

section \<open>Properties\<close>

text \<open>
  C11. A stored value is read back. After a \<open>Put\<close> that succeeded, a \<open>Get\<close> that returns a
  result reports, for every key, what the map after the update holds: the new value under the
  key of the \<open>Put\<close>, and under any other key what was there before. The key may be new, the
  tenant may have been pending.
\<close>

theorem put_then_get:
  assumes "engine_ok api srv dat inr" "tenant_wf srv dat w db"
    and "short_values (db_view dat w db)" "length val < 2 ^ 31"
    and "db_Put api ev key val w db = (Ok (), w1, db1)"
    and "db_Get api ev' key' w1 db1 = (Ok (v, found), w2, db2)"
  shows "(if found then Some v else None) = ((db_view dat w db)(key \<mapsto> val)) key'"
proof -
  have l: "db_linked srv dat w db" using assms(2) by (simp add: tenant_wf_def)
  note P = db_Put_spec(2,4) [OF assms(1) l assms(5)]
  have "short_values (db_view dat w1 db1)"
    using assms(3,4) P(2) by (simp add: short_values_def)
  from db_Get_spec(4) [OF assms(1) P(1) this assms(6)] P(2) show ?thesis by simp
qed

lemma ex_get:
  "db_Get ref_api ex_env ''k'' (ex_store [\<lparr>kv_Key = ''k'', kv_Value = ''v''\<rparr>]) (ex_left 98) =
     (Ok (''v'', True), ex_store [\<lparr>kv_Key = ''k'', kv_Value = ''v''\<rparr>], ex_left 96)"
  using ex_credit
  by (simp add: db_Get_def ex_tenant_def ex_env_def ex_config_def ex_left_def bucket_Consume_def
      FlatCost_def ReadCost_def charge_read_def bucket_Charge_def tb_Charge_def
      tb_Consume_def tb_refill_def Let_def f64_min_def f64_sub_def ex_bucket_def
      on_engine_def cgo_Get_def ref_api_def ex_store_def ex_world_def GoStringN_def C_int_def
      TouchActivity_def time_Unix_sec_def ex_time_def)

lemma put_then_get_witness:
  "fst (db_Get ref_api ex_env ''k'' (ex_store [\<lparr>kv_Key = ''k'', kv_Value = ''v''\<rparr>]) (ex_left 98)) =
     Ok (''v'', True) \<and>
   Some ''v'' = ((db_view ref_dat (ex_store []) ex_tenant)(''k'' \<mapsto> ''v'')) ''k''"
  using put_then_get [OF ref_engine_ok ex_tenant_wf _ _ ex_put ex_get]
  by (simp add: ex_view short_values_def ex_get)

text \<open>
  C12. A deleted key is gone. After a \<open>Delete\<close> that succeeded, a \<open>Get\<close> of the key that
  returns a result is a miss, and every other key reads as before.
\<close>

theorem delete_then_get:
  assumes "engine_ok api srv dat inr" "tenant_wf srv dat w db"
    and "short_values (db_view dat w db)"
    and "db_Delete api ev key w db = (Ok (), w1, db1)"
    and "db_Get api ev' key' w1 db1 = (Ok (v, found), w2, db2)"
  shows "(if found then Some v else None) = ((db_view dat w db)(key := None)) key'"
proof -
  have l: "db_linked srv dat w db" using assms(2) by (simp add: tenant_wf_def)
  have D: "db_view dat w1 db1 = (db_view dat w db)(key := None)"
    using db_Delete_spec(3) [OF assms(1) l assms(4)] by simp
  have "tenant_wf srv dat w1 db1" by (rule delete_req.req_wf [OF assms(1,2,4)])
  then have "db_linked srv dat w1 db1" by (simp add: tenant_wf_def)
  moreover have "short_values (db_view dat w1 db1)"
    using assms(3) by (simp add: D short_values_def)
  ultimately show ?thesis using db_Get_spec(4) [OF assms(1) _ _ assms(5)] D by simp
qed

lemma ex_delete:
  "db_Delete ref_api ex_env ''k'' (ex_store [\<lparr>kv_Key = ''k'', kv_Value = ''v''\<rparr>]) (ex_left 98) =
     (Ok (), ex_store [], ex_left 97)"
  using ex_credit
  by (simp add: db_Delete_def ex_tenant_def ex_env_def ex_config_def ex_left_def bucket_Consume_def
      FlatCost_def tb_Consume_def tb_refill_def Let_def f64_min_def f64_sub_def ex_bucket_def
      on_engine_def cgo_Delete_def ref_api_def ex_store_def ex_world_def
      TouchActivity_def time_Unix_sec_def ex_time_def fun_eq_iff)

lemma ex_get_miss:
  "db_Get ref_api ex_env ''k'' (ex_store []) (ex_left 97) = (Ok ('''', False), ex_store [], ex_left 96)"
  using ex_credit
  by (simp add: db_Get_def ex_tenant_def ex_env_def ex_config_def ex_left_def bucket_Consume_def
      FlatCost_def tb_Consume_def tb_refill_def Let_def f64_min_def f64_sub_def ex_bucket_def
      on_engine_def cgo_Get_def ref_api_def ex_store_def ex_world_def
      TouchActivity_def time_Unix_sec_def ex_time_def)

lemma ex_left_wf: "tenant_wf ref_srv ref_dat (ex_store kvs) (ex_left 98)"
proof -
  have "tb_inv (ex_bucket\<lparr>tb_tokens := Fin 98, tb_last := ex_time 0\<rparr>)"
    using ex_bucket_inv by (simp add: tb_inv_def ex_bucket_def)
  then show ?thesis
    using ex_tenant_wf [of kvs] by (simp add: tenant_wf_def ex_left_def db_inv_def db_linked_def
        db_housed_def ex_tenant_def db_view_def)
qed

lemma delete_then_get_witness:
  "fst (db_Get ref_api ex_env ''k'' (ex_store []) (ex_left 97)) = Ok ('''', False) \<and>
   None = ((db_view ref_dat (ex_store [\<lparr>kv_Key = ''k'', kv_Value = ''v''\<rparr>]) (ex_left 98))
     (''k'' := None)) ''k''"
proof
  show "fst (db_Get ref_api ex_env ''k'' (ex_store []) (ex_left 97)) = Ok ('''', False)"
    by (simp add: ex_get_miss)
  have "short_values (db_view ref_dat (ex_store [\<lparr>kv_Key = ''k'', kv_Value = ''v''\<rparr>]) (ex_left 98))"
    by (simp add: short_values_def db_view_def ref_dat_def ex_store_def ex_left_def ex_tenant_def)
  from delete_then_get [OF ref_engine_ok ex_left_wf this ex_delete ex_get_miss]
  show "None = ((db_view ref_dat (ex_store [\<lparr>kv_Key = ''k'', kv_Value = ''v''\<rparr>]) (ex_left 98))
     (''k'' := None)) ''k''" by simp
qed

text \<open>
  C13. \<open>Range\<close> is exact: the pairs it returns are those of the tenant's map whose key the
  engine places between the bounds, each once, in increasing order of the keys. It holds when
  the encoding of the answer stays below 4 GiB, the limit of the wire format. A pending tenant
  answers with the empty slice.
\<close>

theorem range_exact:
  assumes "engine_ok api srv dat inr" "tenant_wf srv dat w db"
    and "range_fits inr (db_view dat w db) s e"
    and "db_Range api ev s e w db = (Ok res, w', db')"
  shows "is_range inr (db_view dat w db) s e (case res of None \<Rightarrow> [] | Some kvs \<Rightarrow> kvs)"
proof -
  have l: "db_linked srv dat w db" using assms(2) by (simp add: tenant_wf_def)
  note R = db_Range_spec(4,5) [OF assms(1) l assms(4)]
  show ?thesis
  proof (cases res)
    case None
    with R(2) show ?thesis by (simp add: is_range_def)
  next
    case (Some kvs)
    with R(1) [of kvs] range_decoded [OF assms(3)] show ?thesis by auto
  qed
qed

abbreviation ex_pairs :: "kv list" where
  "ex_pairs \<equiv> [\<lparr>kv_Key = ''b'', kv_Value = ''2''\<rparr>, \<lparr>kv_Key = ''a'', kv_Value = ''1''\<rparr>]"

lemma ex_range:
  "db_Range ref_api ex_env ''a'' ''c'' (ex_store ex_pairs) ex_tenant =
     (Ok (Some [\<lparr>kv_Key = ''a'', kv_Value = ''1''\<rparr>, \<lparr>kv_Key = ''b'', kv_Value = ''2''\<rparr>]),
      ex_store ex_pairs, ex_left 95)"
proof -
  let ?out = "[\<lparr>kv_Key = ''a'', kv_Value = ''1''\<rparr>, \<lparr>kv_Key = ''b'', kv_Value = ''2''\<rparr>]"
  have sorted: "filter (\<lambda>p. ref_inr ''a'' ''c'' (kv_Key p)) (kv_sort ex_pairs) = ?out"
    by (simp add: kv_sort_def ref_inr_def)
  have "length (encodeRangeBuf ?out) < 2 ^ 32" by (simp add: encodeRangeBuf_def encode_pairs_def)
  then have "decodeRangeBuf (encodeRangeBuf ?out) = Some (Inr ?out)"
    using decodeRangeBuf_encode [of ?out "[]"] by simp
  with sorted have "on_engine (cgo_Range ref_api ex_dir ''a'' ''c'') (ex_store ex_pairs) =
      (Some (Inr ?out), ex_store ex_pairs)"
    by (simp add: on_engine_def cgo_Range_def ref_api_def ex_store_def)
  then show ?thesis
    using ex_credit ex_elapsed(1)
    by (simp add: db_Range_def ex_tenant_def ex_env_def ex_config_def ex_left_def bucket_Consume_def
        FlatCost_def ReadCost_def charge_read_def bucket_Charge_def tb_Charge_def kvs_total_def
        tb_Consume_def tb_refill_def Let_def f64_min_def f64_sub_def ex_bucket_def
        TouchActivity_def time_Unix_sec_def ex_time_def)
qed

lemma ex_range_fits: "range_fits ref_inr (kv_map ex_pairs) ''a'' ''c''"
proof -
  let ?out = "[\<lparr>kv_Key = ''a'', kv_Value = ''1''\<rparr>, \<lparr>kv_Key = ''b'', kv_Value = ''2''\<rparr>]"
  have "is_range ref_inr (kv_map ex_pairs) ''a'' ''c''
      (filter (\<lambda>p. ref_inr ''a'' ''c'' (kv_Key p)) (kv_sort ex_pairs))" by (rule ref_range)
  then have "is_range ref_inr (kv_map ex_pairs) ''a'' ''c'' ?out"
    by (simp add: kv_sort_def ref_inr_def)
  then have "kvs = ?out" if "is_range ref_inr (kv_map ex_pairs) ''a'' ''c'' kvs" for kvs
    using is_range_unique [OF that] by blast
  then show ?thesis
    unfolding range_fits_def by (fastforce simp: encodeRangeBuf_def encode_pairs_def)
qed

lemma range_exact_witness:
  "fst (db_Range ref_api ex_env ''a'' ''c'' (ex_store ex_pairs) ex_tenant) =
     Ok (Some [\<lparr>kv_Key = ''a'', kv_Value = ''1''\<rparr>, \<lparr>kv_Key = ''b'', kv_Value = ''2''\<rparr>]) \<and>
   is_range ref_inr (kv_map ex_pairs) ''a'' ''c''
     [\<lparr>kv_Key = ''a'', kv_Value = ''1''\<rparr>, \<lparr>kv_Key = ''b'', kv_Value = ''2''\<rparr>]"
  using range_exact [OF ref_engine_ok ex_tenant_wf _ ex_range] ex_range_fits
  by (simp add: ex_range ex_view)

text \<open>A request of the API on one tenant, and a sequence of them.\<close>

datatype request = R_Get string | R_Put string string | R_Delete string | R_Range string string

fun run_request ::
  "('h, 'w) fredb_api \<Rightarrow> env \<Rightarrow> request \<Rightarrow> 'w world \<times> 'h database \<Rightarrow> 'w world \<times> 'h database" where
  "run_request api ev (R_Get key) (w, db) = snd (db_Get api ev key w db)"
| "run_request api ev (R_Put key val) (w, db) = snd (db_Put api ev key val w db)"
| "run_request api ev (R_Delete key) (w, db) = snd (db_Delete api ev key w db)"
| "run_request api ev (R_Range s e) (w, db) = snd (db_Range api ev s e w db)"

fun run_requests ::
  "('h, 'w) fredb_api \<Rightarrow> (env \<times> request) list \<Rightarrow> 'w world \<times> 'h database \<Rightarrow> 'w world \<times> 'h database" where
  "run_requests api [] s = s"
| "run_requests api ((ev, q) # qs) s = run_requests api qs (run_request api ev q s)"

lemma run_request_wf:
  assumes ok: "engine_ok api srv dat inr" and wf: "tenant_wf srv dat w db"
    and run: "run_request api ev q (w, db) = (w', db')"
  shows "tenant_wf srv dat w' db' \<and> tenant_effect srv dat (db_dataDirPath db) w w' \<and> db_step db db'"
proof (cases q)
  case (R_Get key)
  obtain r where c: "db_Get api ev key w db = (r, w', db')"
    using run R_Get by (cases "db_Get api ev key w db") simp
  from get_req.req_wf [OF ok wf c] get_req.req_effect [OF ok wf c] get_req.req_step [OF c]
  show ?thesis by simp
next
  case (R_Put key val)
  obtain r where c: "db_Put api ev key val w db = (r, w', db')"
    using run R_Put by (cases "db_Put api ev key val w db") simp
  from put_req.req_wf [OF ok wf c] put_req.req_effect [OF ok wf c] put_req.req_step [OF c]
  show ?thesis by simp
next
  case (R_Delete key)
  obtain r where c: "db_Delete api ev key w db = (r, w', db')"
    using run R_Delete by (cases "db_Delete api ev key w db") simp
  from delete_req.req_wf [OF ok wf c] delete_req.req_effect [OF ok wf c] delete_req.req_step [OF c]
  show ?thesis by simp
next
  case (R_Range s e)
  obtain r where c: "db_Range api ev s e w db = (r, w', db')"
    using run R_Range by (cases "db_Range api ev s e w db") simp
  from range_req.req_wf [OF ok wf c] range_req.req_effect [OF ok wf c] range_req.req_step [OF c]
  show ?thesis by simp
qed

text \<open>
  C14. Requests stay inside their tenant. After any sequence of requests, each with any clock
  readings and any failures of the system calls, the tenant is well-formed (its bucket and
  configuration sound, its handle its own directory's, no data while pending, its directory
  there once active), it has kept its key, directory, limits and configuration, and everything
  outside its directory is as it was: the data of all others, the open handles, and all files
  but its own activity marker.
\<close>

theorem requests_stay_inside:
  assumes "engine_ok api srv dat inr" "tenant_wf srv dat w db"
    and "run_requests api qs (w, db) = (w', db')"
  shows "tenant_wf srv dat w' db' \<and> db_ident db' = db_ident db \<and>
    tenant_effect srv dat (db_dataDirPath db) w w'"
  using assms(2,3)
proof (induction qs arbitrary: w db)
  case Nil
  then show ?case by simp
next
  case (Cons p qs)
  obtain ev q where p: "p = (ev, q)" by (cases p)
  obtain w1 db1 where o: "run_request api ev q (w, db) = (w1, db1)"
    by (cases "run_request api ev q (w, db)")
  from run_request_wf [OF assms(1) Cons.prems(1) o] have W: "tenant_wf srv dat w1 db1"
    "tenant_effect srv dat (db_dataDirPath db) w w1" "db_ident db1 = db_ident db"
    by (simp_all add: db_step_def)
  from Cons.prems(2) p o have "run_requests api qs (w1, db1) = (w', db')" by simp
  from Cons.IH [OF W(1) this] W(2,3) db_ident_eq [OF W(3)] show ?case
    by (auto intro: tenant_effect_trans)
qed

lemma requests_stay_inside_witness:
  "tenant_wf ref_srv ref_dat (ex_store [\<lparr>kv_Key = ''k'', kv_Value = ''v''\<rparr>]) (ex_left 96)"
proof -
  have run: "run_requests ref_api [(ex_env, R_Put ''k'' ''v''), (ex_env, R_Get ''k'')]
      (ex_store [], ex_tenant) = (ex_store [\<lparr>kv_Key = ''k'', kv_Value = ''v''\<rparr>], ex_left 96)"
    by (simp add: ex_put ex_get)
  from requests_stay_inside [OF ref_engine_ok ex_tenant_wf run] show ?thesis by simp
qed

text \<open>
  C20. \<open>Put\<close> enforces every limit. It succeeds only for a non-empty key and a value within the
  configured size, when the bucket grants the cost of the value, and when the size the open
  engine reports just before the write is below the storage limit.
\<close>

theorem put_enforces_limits:
  assumes "db_Put api ev key val w db = (Ok (), w', db')"
  shows "key \<noteq> '''' \<and> int (length val) \<le> db_maxValueBytes db \<and>
    (\<forall>b. db_bucket db = Some b \<longrightarrow>
       fst (tb_Consume (clk ev 0) (PutCost (db_rateLimit db) (int (length val))) b)) \<and>
    (\<exists>h e sz e1 e2. db_engine db' = Some h \<and> fredb_total_size api h e = (sz, e1) \<and> 0 \<le> sz \<and>
       word_of_int sz < db_maxStorageBytes db \<and> fredb_put api h key val e1 = (0, e2) \<and>
       engw w' = e2)"
proof -
  obtain m w1 db1 where m: "put_open api ev w db = (m, w1, db1)" by (cases "put_open api ev w db")
  have g: "key \<noteq> ''''" "int (length val) \<le> db_maxValueBytes db"
    using assms by (auto simp: db_Put_unfold split: if_splits)
  have id: "db_ident db1 = db_ident db" "db_bucket db1 = db_bucket db"
  proof -
    have "db_ident db1 = db_ident db \<and> db_bucket db1 = db_bucket db"
    proof (cases "db_state db")
      case tenantPending
      with m have "materialize api ev w db = (m, w1, db1)" by (simp add: put_open_def)
      from materialize_cases [OF this] show ?thesis by (cases m) (auto simp: db_ident_def)
    qed (use m in \<open>simp add: put_open_def\<close>)
    then show "db_ident db1 = db_ident db" "db_bucket db1 = db_bucket db" by simp_all
  qed
  have f: "db_maxStorageBytes db1 = db_maxStorageBytes db" "db_rateLimit db1 = db_rateLimit db"
    using id(1) by (simp_all add: db_ident_def)
  obtain ok bk where b: "bucket_Consume (clk ev 0) (PutCost (db_rateLimit db) (int (length val)))
      (db_bucket db) = (ok, bk)" by fastforce
  note unf = db_Put_unfold [of api ev key val w db] m id(2) f
  obtain u where u: "m = Inr u" using assms g by (cases m) (simp_all add: unf)
  have ok: ok using assms g b u by (cases ok) (simp_all add: unf Let_def)
  obtain h where h: "db_engine db1 = Some h"
    using assms g b u ok by (cases "db_engine db1") (simp_all add: unf Let_def frame_simps)
  obtain sz e1 where s: "fredb_total_size api h (engw w1) = (sz, e1)" by fastforce
  obtain rc e2 where p: "fredb_put api h key val e1 = (rc, e2)" by fastforce
  have "0 \<le> sz" "word_of_int sz < db_maxStorageBytes db" "rc = 0" "engw w' = e2" "db_engine db' = Some h"
    using assms g b u ok h s p
    by (auto simp: unf Let_def frame_simps on_engine_def cgo_TotalSize_def cgo_Put_def not_le
        split: if_splits)
  with g b ok s p show ?thesis by (auto simp: bucket_Consume_def split: prod.splits)
qed

lemma put_enforces_limits_witness:
  "fst (tb_Consume (ex_time 0) (PutCost ex_config 1) ex_bucket) \<and>
   (\<exists>e sz e1. fredb_total_size ref_api ex_dir e = (sz, e1) \<and> 0 \<le> sz \<and> word_of_int sz < (1000 :: 64 word) \<and>
      fredb_put ref_api ex_dir ''k'' ''v'' e1 =
        (0, engw (ex_store [\<lparr>kv_Key = ''k'', kv_Value = ''v''\<rparr>])))"
proof -
  have f: "db_bucket ex_tenant = Some ex_bucket" "clk ex_env 0 = ex_time 0" "db_rateLimit ex_tenant = ex_config"
    "int (length ''v'') = 1" "db_engine (ex_left 98) = Some ex_dir" "db_maxStorageBytes ex_tenant = 1000"
    by (simp_all add: ex_tenant_def ex_left_def ex_env_def)
  note P = put_enforces_limits [OF ex_put, unfolded f]
  from P have "fst (tb_Consume (ex_time 0) (PutCost ex_config 1) ex_bucket)" by simp
  moreover from P obtain e sz e1 where "fredb_total_size ref_api ex_dir e = (sz, e1)" "0 \<le> sz"
    "word_of_int sz < (1000 :: 64 word)"
    "fredb_put ref_api ex_dir ''k'' ''v'' e1 = (0, engw (ex_store [\<lparr>kv_Key = ''k'', kv_Value = ''v''\<rparr>]))"
    by auto
  ultimately show ?thesis by blast
qed

text \<open>
  C26. A rate-limited request reaches nothing. When the bucket refuses the flat cost, \<open>Get\<close>,
  \<open>Delete\<close> and \<open>Range\<close> answer 429, leave the file system and the engine untouched, and change
  nothing of the tenant but the refill of its bucket: not even its activity stamp, so refused
  traffic does not keep a tenant alive.
\<close>

theorem rate_limited_reaches_nothing:
  assumes "db_bucket db = Some b" "tb_Consume (clk ev 0) (FlatCost (db_rateLimit db)) b = (False, b')"
    and "key \<noteq> ''''" "s \<noteq> ''''" "e \<noteq> ''''"
  shows "db_Get api ev key w db = (Err ErrRateLimited, w, db\<lparr>db_bucket := Some b'\<rparr>) \<and>
    db_Delete api ev key w db = (Err ErrRateLimited, w, db\<lparr>db_bucket := Some b'\<rparr>) \<and>
    db_Range api ev s e w db = (Err ErrRateLimited, w, db\<lparr>db_bucket := Some b'\<rparr>) \<and>
    b' = tb_refill (clk ev 0) b"
  using assms tb_Consume_refused [OF assms(2)]
  by (simp add: db_Get_def db_Delete_def db_Range_def bucket_Consume_def Let_def)

lemma ex_empty:
  "tb_Consume (ex_time 0) (Fin 1) (ex_bucket\<lparr>tb_tokens := Fin 0, tb_last := ex_time 0\<rparr>) =
     (False, ex_bucket\<lparr>tb_tokens := Fin 0, tb_last := ex_time 0\<rparr>)"
  using ex_credit by (simp add: tb_Consume_def tb_refill_def Let_def f64_min_def ex_bucket_def)

lemma rate_limited_reaches_nothing_witness:
  "fst (db_Get ref_api ex_env ''k'' ex_world (ex_left 0)) = Err ErrRateLimited"
proof -
  let ?b = "ex_bucket\<lparr>tb_tokens := Fin 0, tb_last := ex_time 0\<rparr>"
  have "db_bucket (ex_left 0) = Some ?b" by (simp add: ex_left_def)
  moreover have "tb_Consume (clk ex_env 0) (FlatCost (db_rateLimit (ex_left 0))) ?b = (False, ?b)"
    using ex_empty by (simp add: ex_env_def ex_left_def ex_tenant_def ex_config_def FlatCost_def)
  ultimately show ?thesis
    using rate_limited_reaches_nothing [where api = ref_api and w = ex_world and db = "ex_left 0"
        and b = ?b and b' = ?b and ev = ex_env and key = "''k''" and s = "''a''" and e = "''b''"] by simp
qed

text \<open>
  C25. No request panics. On a well-formed tenant whose values are shorter than 2 GiB, each of
  the four requests returns a result or an error, whatever the clock, the system calls and the
  engine's failures.
\<close>

theorem requests_never_panic:
  assumes "engine_ok api srv dat inr" "tenant_wf srv dat w db" "short_values (db_view dat w db)"
  shows "fst (db_Get api ev key w db) \<noteq> Crash \<and> fst (db_Put api ev key val w db) \<noteq> Crash \<and>
    fst (db_Delete api ev key w db) \<noteq> Crash \<and> fst (db_Range api ev s e w db) \<noteq> Crash"
proof (intro conjI)
  have l: "db_linked srv dat w db" using assms(2) by (simp add: tenant_wf_def)
  show "fst (db_Get api ev key w db) \<noteq> Crash"
    using db_Get_spec(3) [OF assms(1) l assms(3)] by (metis prod.collapse)
  show "fst (db_Put api ev key val w db) \<noteq> Crash"
    using db_Put_spec(6) [OF assms(1) l] by (metis prod.collapse)
  show "fst (db_Range api ev s e w db) \<noteq> Crash"
    using db_Range_spec(3) [OF assms(1) l] by (metis prod.collapse)
  show "fst (db_Delete api ev key w db) \<noteq> Crash"
    by (auto simp: db_Delete_def Let_def split: prod.splits option.splits sum.splits)
qed

lemma requests_never_panic_witness:
  "fst (db_Get ref_api ex_env ''k'' (ex_store []) ex_tenant) \<noteq> Crash"
  using requests_never_panic [OF ref_engine_ok ex_tenant_wf, of "[]"]
  by (simp add: ex_view short_values_def)

text \<open>
  A pending tenant is a promise only. \<open>Get\<close>, \<open>Delete\<close> and \<open>Range\<close> on it touch neither
  the file system nor the engine, leave it pending and leave its activity stamp, and when they
  succeed they answer with a miss, with nothing to delete, and with the empty slice.
\<close>

lemma pending_requests_touch_nothing:
  assumes "db_state db = tenantPending"
    and "db_Get api ev key w db = (rg, wg, dbg)" "db_Delete api ev key w db = (rd, wd, dbd)"
    and "db_Range api ev s e w db = (rr, wr, dbr)"
  shows "wg = w \<and> wd = w \<and> wr = w \<and>
    (\<forall>db' \<in> {dbg, dbd, dbr}. \<exists>b. db' = db\<lparr>db_bucket := b\<rparr>) \<and>
    (rg = Ok ('''', False) \<or> rg = Err errEmptyKey \<or> rg = Err ErrRateLimited) \<and>
    (rd = Ok () \<or> rd = Err errEmptyKey \<or> rd = Err ErrRateLimited) \<and>
    (rr = Ok None \<or> rr = Err errEmptyRangeBounds \<or> rr = Err ErrRateLimited)"
proof -
  have id: "\<exists>b. db = db\<lparr>db_bucket := b\<rparr>" by (rule exI [of _ "db_bucket db"]) simp
  have g: "wg = w \<and> (\<exists>b. dbg = db\<lparr>db_bucket := b\<rparr>) \<and>
      (rg = Ok ('''', False) \<or> rg = Err errEmptyKey \<or> rg = Err ErrRateLimited)"
    using assms(1,2) id by (auto simp: db_Get_def Let_def split: if_splits prod.splits)
  have d: "wd = w \<and> (\<exists>b. dbd = db\<lparr>db_bucket := b\<rparr>) \<and>
      (rd = Ok () \<or> rd = Err errEmptyKey \<or> rd = Err ErrRateLimited)"
    using assms(1,3) id by (auto simp: db_Delete_def Let_def split: if_splits prod.splits)
  have r: "wr = w \<and> (\<exists>b. dbr = db\<lparr>db_bucket := b\<rparr>) \<and>
      (rr = Ok None \<or> rr = Err errEmptyRangeBounds \<or> rr = Err ErrRateLimited)"
    using assms(1,4) id by (auto simp: db_Range_def Let_def split: if_splits prod.splits)
  from g d r show ?thesis by blast
qed

lemma ex_pending_state: "db_state ex_pending = tenantPending"
  by (simp add: ex_pending_def)

lemma pending_requests_touch_nothing_witness:
  "fst (snd (db_Get ref_api ex_env ''k'' ex_world ex_pending)) = ex_world"
proof -
  obtain rg wg dbg where g: "db_Get ref_api ex_env ''k'' ex_world ex_pending = (rg, wg, dbg)"
    by (cases "db_Get ref_api ex_env ''k'' ex_world ex_pending")
  obtain rd wd dbd where d: "db_Delete ref_api ex_env ''k'' ex_world ex_pending = (rd, wd, dbd)"
    by (cases "db_Delete ref_api ex_env ''k'' ex_world ex_pending")
  obtain rr wr dbr where r: "db_Range ref_api ex_env ''a'' ''b'' ex_world ex_pending = (rr, wr, dbr)"
    by (cases "db_Range ref_api ex_env ''a'' ''b'' ex_world ex_pending")
  from pending_requests_touch_nothing [OF ex_pending_state g d r] g show ?thesis by simp
qed

text \<open>
  The first \<open>Put\<close> spends the disk before the tokens. On a pending tenant whose bucket
  refuses the cost of the value, \<open>Put\<close> answers 429, but the tenant's directory has been
  created, its engine opened and its activity marker written: the refused request made it
  active.
\<close>

lemma refused_put_materializes:
  assumes "db_state db = tenantPending" "key \<noteq> ''''" "int (length val) \<le> db_maxValueBytes db"
    and "materialize api ev w db = (Inr (), w1, db1)"
    and "db_bucket db = Some b"
    and "tb_Consume (clk ev 0) (PutCost (db_rateLimit db) (int (length val))) b = (False, b')"
  shows "db_Put api ev key val w db = (Err ErrRateLimited, w1, db1\<lparr>db_bucket := Some b'\<rparr>) \<and>
    db_state db1 = tenantActive \<and> (\<exists>h. db_engine db1 = Some h)"
proof -
  from materialize_cases [OF assms(4)] obtain h where
    h: "db1 = db\<lparr>db_engine := Some h, db_state := tenantActive\<rparr>" by auto
  with assms show ?thesis by (simp add: db_Put_def bucket_Consume_def Let_def)
qed

lemma ex_materialize:
  "\<exists>w1 db1. materialize ref_api ex_env ex_world db = (Inr (), w1, db1)"
proof -
  obtain m w1 where m: "os_MkdirAll ex_env (db_dataDirPath db) ex_world = (m, w1)" by fastforce
  have "is_file (fmlookup (nodes ex_world) p) = False" for p
    by (simp add: ex_world_def is_file_def)
  then have "m = Inr ()"
    using m by (simp add: os_MkdirAll_def Let_def ex_env_def list_ex_iff)
  then show ?thesis
    using m by (simp add: materialize_def InitializeEngine_def on_engine_def OpenCgoEngine_def ref_api_def)
qed

lemma refused_put_materializes_witness:
  "fst (db_Put ref_api ex_env ''k'' ''v'' ex_world (ex_pending\<lparr>db_bucket := db_bucket (ex_left 0)\<rparr>)) =
     Err ErrRateLimited"
proof -
  let ?b = "ex_bucket\<lparr>tb_tokens := Fin 0, tb_last := ex_time 0\<rparr>"
  let ?db = "ex_pending\<lparr>db_bucket := db_bucket (ex_left 0)\<rparr>"
  obtain w1 db1 where m: "materialize ref_api ex_env ex_world ?db = (Inr (), w1, db1)"
    using ex_materialize by blast
  have "tb_Consume (clk ex_env 0) (PutCost (db_rateLimit ?db) (int (length ''v''))) ?b = (False, ?b)"
    using ex_credit by (simp add: tb_Consume_def tb_refill_def Let_def f64_min_def ex_bucket_def
        ex_env_def ex_pending_def ex_tenant_def ex_config_def PutCost_def)
  from refused_put_materializes [OF _ _ _ m _ this, of "''k''"] show ?thesis
    by (simp add: ex_pending_def ex_left_def ex_tenant_def)
qed

end
