(* ===== verification/Manager_Properties.thy ===== *)
theory Manager_Properties
  imports Server_System Tenant_Properties
begin

text \<open>
  Properties of the manager and of whole runs of the server, with witnesses on the reference
  engine.
\<close>

section \<open>The registry follows the table\<close>


lemma reg_sync_served:
  assumes sync: "reg_sync w man" and dom: "fmdom (man_tenants man') = fmdom (man_tenants man)"
    and root: "registryPath man' = registryPath man"
    and node: "\<And>n. registry_node w man = Some n \<Longrightarrow> registry_node w' man' = Some n"
    and id: "fset (fmdom (man_tenants man)) = {} \<Longrightarrow> w' = w"
  shows "reg_sync w' man'"
proof -
  from sync obtain ks where f: "reg_file w man ks" "\<forall>k \<in> set ks. is_api_key k"
    "fset (fmdom (man_tenants man)) = set ks" by (auto simp: reg_sync_def)
  have "reg_file w' man' ks"
  proof (cases "registry_node w man")
    case None
    with f(1) have "ks = []" by (simp add: reg_file_def)
    with f(3) have "w' = w" using id by simp
    with None \<open>ks = []\<close> root show ?thesis by (simp add: reg_file_def registry_node_def)
  next
    case (Some n)
    with f(1) node [OF Some] show ?thesis by (auto simp: reg_file_def)
  qed
  with f(2,3) dom show ?thesis by (auto simp: reg_sync_def)
qed

context tenant_request
begin

lemma man_serve_sync:
  assumes ok: "engine_ok api srv dat inr" and inv: "man_inv srv dat w man"
    and call: "man_serve op ev k w man = (r, w', man')" and sync: "reg_sync w man"
  shows "reg_sync w' man'"
proof (rule reg_sync_served [OF sync])
  note I = man_serve_inv [OF ok inv call]
  show "fmdom (man_tenants man') = fmdom (man_tenants man)" by (rule I(4))
  show "registry_node w' man' = Some n" if "registry_node w man = Some n" for n
    using I(5) [OF that] .
  show "registryPath man' = registryPath man" using man_serve_cases [OF call] by auto
  show "w' = w" if "fset (fmdom (man_tenants man)) = {}"
    using man_serve_cases [OF call] that
    by (metis empty_iff fmdom_iff option.distinct(1))
qed

end



section \<open>A concrete server\<close>

definition ex_start :: "ref_engine world" where
  "ex_start = \<lparr>nodes = fmempty, engw = \<lparr>re_open = [], re_data = (\<lambda>d. [])\<rparr>\<rparr>"

definition ex_man :: "string manager" where
  "ex_man = NewDatabaseManager ''/data'' 50 1000 ex_config"

lemma hex_repeat: "hex_EncodeToString (replicate n 170) = replicate (2 * n) CHR ''a''"
proof (induction n)
  case 0
  then show ?case by (simp add: hex_EncodeToString_def)
next
  case (Suc n)
  have "unat (170 :: byte) = 170" by simp
  moreover have "hex_digit 10 = CHR ''a''" by (simp add: hex_digit_def)
  ultimately have "hex_EncodeToString (replicate (Suc n) 170) =
      ''aa'' @ hex_EncodeToString (replicate n 170)"
    by (simp add: hex_EncodeToString_def)
  then show ?case by (simp add: Suc.IH)
qed

lemma ex_hex: "hex_EncodeToString (replicate 24 170) = ex_key"
  using hex_repeat [of 24] by (simp only: ex_key_def) simp

lemma ex_key_api: "is_api_key ex_key"
  using hex_api_key [of "replicate 24 170"] by (simp add: ex_hex)

lemma ex_rand: "rand_ok ex_env"
  by (simp add: rand_ok_def ex_env_def)

lemma ex_gen:
  assumes "fmlookup (man_tenants man) ex_key = None"
  shows "generateAPIKey ex_env man = Inr ex_key"
proof -
  have "rand_Read ex_env 0 = Inr (replicate 24 170)" by (simp only: ex_env_def env.simps)
  moreover have "generateAPIKey ex_env man = gen_key ex_env (Suc 4) 0 man"
    by (simp add: generateAPIKey_def)
  ultimately show ?thesis using assms by (simp only: gen_key.simps) (simp add: ex_hex)
qed

lemma ex_inv: "man_inv ref_srv ref_dat ex_start ex_man"
  unfolding ex_man_def using ex_config_sane
  by (intro man_inv_New) (simp_all add: ref_dat_def ex_start_def fun_eq_iff)

lemma ex_sync: "reg_sync ex_start ex_man"
  by (auto simp: reg_sync_def reg_file_def registry_node_def ex_start_def ex_man_def
      NewDatabaseManager_def intro!: exI [of _ "[]"])

lemma data_paths:
  "path_Clean ''/data'' = ''/data''" "path_Join ''/data'' ''keys.txt'' = ''/data/keys.txt''"
  "path_parent ''/data/keys.txt'' = ''/data''"
  by (simp_all add: path_Clean_def path_rooted_def path_comps_def clean_step_def path_render_def
      path_Join_def path_parent_def)

lemma ex_man_fields:
  "man_dataRoot ex_man = ''/data''" "man_tenants ex_man = fmempty" "registryPath ex_man = ''/data/keys.txt''"
  "tenant_dir ex_man ex_key = ex_dir"
  using ex_dir_clean(3)
  by (simp_all add: ex_man_def NewDatabaseManager_def registryPath_def data_paths tenant_dir_def)

lemma ex_roots: "\<exists>w1. ensureRoots ex_env ex_start ex_man = (Inr (), w1) \<and>
    fmlookup (nodes w1) ''/data'' = Some NDir \<and> fmlookup (nodes w1) ''/data/keys.txt'' = None"
proof -
  obtain r w1 where m: "os_MkdirAll ex_env ''/data'' ex_start = (r, w1)" by fastforce
  have "is_file (fmlookup (nodes ex_start) p) = False" for p
    by (simp add: ex_start_def is_file_def)
  then have r: "r = Inr ()"
    using m by (simp add: os_MkdirAll_def Let_def ex_env_def list_ex_iff)
  then have "fmlookup (nodes w1) ''/data'' = Some NDir"
    using os_MkdirAll_dir [of ex_env "''/data''" ex_start w1] m by (simp add: data_paths)
  moreover have "registry_node w1 ex_man = None"
    using ensureRoots_registry [of ex_start ex_man ex_env] m
    by (simp add: ensureRoots_def ex_man_fields registry_node_def ex_start_def)
  ultimately show ?thesis using m r by (simp add: ensureRoots_def ex_man_fields registry_node_def)
qed

lemma ex_provision: "\<exists>w1. RequestProvision ex_env ex_start ex_man =
    (Inr ex_key, w1, set_tenant ex_key (man_NewDatabase (ex_time 0) (ex_time 0) ex_key ex_man) ex_man)"
proof -
  obtain w1 where e: "ensureRoots ex_env ex_start ex_man = (Inr (), w1)"
    "fmlookup (nodes w1) ''/data'' = Some NDir" "fmlookup (nodes w1) ''/data/keys.txt'' = None"
    using ex_roots by blast
  have "\<exists>w2. appendToRegistry ex_env ex_key w1 ex_man = (Inr (), w2)"
    using e(2,3) by (simp add: appendToRegistry_def os_OpenAppend_def os_WriteString_def Let_def
        ex_env_def ex_man_fields parent_ok_def data_paths)
  then obtain w2 where a: "appendToRegistry ex_env ex_key w1 ex_man = (Inr (), w2)" ..
  have "clk ex_env n = ex_time 0" for n by (simp add: ex_env_def)
  moreover have "fmlookup (man_tenants ex_man) ex_key = None" by (simp add: ex_man_fields)
  ultimately show ?thesis using e(1) a by (simp add: RequestProvision_def ex_gen)
qed

lemma ex_miss: "\<exists>db'. db_Get api ex_env ''k'' w (man_NewDatabase (ex_time 0) (ex_time 0) ex_key ex_man) =
    (Ok ('''', False), w, db')"
  using ex_credit
  by (simp add: db_Get_def man_NewDatabase_def NewDatabase_def TouchActivity_def NewTokenBucket_def
      ex_man_def NewDatabaseManager_def ex_config_def bucket_Consume_def FlatCost_def
      tb_Consume_def tb_refill_def Let_def f64_min_def f64_sub_def ex_env_def)

text \<open>A run: a tenant is provisioned, and its client reads a key that is not there.\<close>

lemma ex_run: "\<exists>s'. server_run ref_api (ex_start, ex_man)
    [L_provision ex_key, L_get ex_key ''k'' None] s'"
proof -
  let ?db = "man_NewDatabase (ex_time 0) (ex_time 0) ex_key ex_man"
  let ?man = "set_tenant ex_key ?db ex_man"
  obtain w1 where p: "RequestProvision ex_env ex_start ex_man = (Inr ex_key, w1, ?man)"
    using ex_provision by blast
  have 1: "server_step ref_api (ex_start, ex_man) (L_provision ex_key) (w1, ?man)"
    using p ex_rand by (rule do_provision) (simp add: ex_start_def)
  obtain db' where g: "db_Get ref_api ex_env ''k'' w1 ?db = (Ok ('''', False), w1, db')"
    using ex_miss by blast
  have "man_serve (\<lambda>ev w db. db_Get ref_api ev ''k'' w db) ex_env ex_key w1 ?man =
      (Ok ('''', False), w1, set_tenant ex_key db' ?man)"
    by (simp add: man_serve_def Lookup_def g)
  then have 2: "server_step ref_api (w1, ?man) (L_get ex_key ''k'' None) (w1, set_tenant ex_key db' ?man)"
    by (rule do_get) (simp add: result_label_def)
  from 1 2 show ?thesis by (blast intro: server_run_step server_run_nil)
qed

section \<open>Properties\<close>

text \<open>
  C1. The server refines a map of maps. Every run of the API (provisioning, the four requests,
  deprovisioning, passes of the reaper, in any order, with any clocks and any failures of the
  system calls and of the engine) is, label by label, a run of the specification in which each
  tenant is a key-value map and a step changes only the map it is about. The invariant of the
  tenant table holds again at its end.
\<close>

theorem server_refines_maps:
  assumes "engine_ok api srv dat inr" "man_inv srv dat w man"
    and "server_run api (w, man) ls (w', man')"
  shows "spec_run inr (man_view dat w man) ls (man_view dat w' man') \<and> man_inv srv dat w' man'"
  using server_run_sim [OF assms(1,3)] assms(2) by simp

lemma ex_start_view: "man_view ref_dat ex_start ex_man = Map.empty"
  by (simp add: man_view_def ex_man_fields fun_eq_iff)

lemma server_refines_maps_witness:
  "\<exists>S. spec_run ref_inr Map.empty [L_provision ex_key, L_get ex_key ''k'' None] S"
proof -
  obtain s where "server_run ref_api (ex_start, ex_man) [L_provision ex_key, L_get ex_key ''k'' None] s"
    using ex_run by blast
  moreover obtain w' man' where "s = (w', man')" by (cases s)
  ultimately show ?thesis
    using server_refines_maps [OF ref_engine_ok ex_inv] ex_start_view by fastforce
qed

text \<open>The tenants a step is about.\<close>

fun label_tenants :: "label \<Rightarrow> string set" where
  "label_tenants L_none = {}"
| "label_tenants (L_provision k) = {k}"
| "label_tenants (L_put k key v) = {k}"
| "label_tenants (L_get k key r) = {}"
| "label_tenants (L_delete k key) = {k}"
| "label_tenants (L_range k s e kvs) = {}"
| "label_tenants (L_refused k x) = {k}"
| "label_tenants (L_deprovision k) = {k}"
| "label_tenants (L_deprovision_failed k x) = {k}"
| "label_tenants (L_reap old ks) = old"

lemma spec_step_isolated: "spec_step inr S l S' \<Longrightarrow> k \<notin> label_tenants l \<Longrightarrow> S' k = S k"
  by (erule spec_step.cases) auto

lemma spec_run_isolated:
  "spec_run inr S ls S' \<Longrightarrow> \<forall>l \<in> set ls. k \<notin> label_tenants l \<Longrightarrow> S' k = S k"
proof (induction rule: spec_run.induct)
  case (spec_run_step S l S1 ls S2)
  then have "S2 k = S1 k" "S1 k = S k" using spec_step_isolated by simp_all
  then show ?case by simp
qed simp

text \<open>
  C5. Tenants are isolated. A run without a step about a tenant, whatever the others do and
  whatever fails for them, leaves the tenant's map exactly as it was, and leaves it absent if
  it was absent.
\<close>

theorem tenants_isolated:
  assumes "engine_ok api srv dat inr" "man_inv srv dat w man"
    and "server_run api (w, man) ls (w', man')" "\<forall>l \<in> set ls. k \<notin> label_tenants l"
  shows "man_view dat w' man' k = man_view dat w man k"
  using spec_run_isolated [of inr _ ls _ k] server_run_sim [OF assms(1,3)] assms(2,4) by simp

lemma tenants_isolated_witness:
  "\<exists>w' man'. man_view ref_dat w' man' ''other'' = None \<and>
     server_run ref_api (ex_start, ex_man) [L_provision ex_key, L_get ex_key ''k'' None] (w', man')"
proof -
  obtain w' man' where r: "server_run ref_api (ex_start, ex_man)
      [L_provision ex_key, L_get ex_key ''k'' None] (w', man')"
    using ex_run by fastforce
  have "length ex_key \<noteq> length ''other''" by (simp add: ex_key_def)
  then have "''other'' \<noteq> ex_key" by metis
  then have "man_view ref_dat w' man' ''other'' = man_view ref_dat ex_start ex_man ''other''"
    by (intro tenants_isolated [OF ref_engine_ok ex_inv r]) simp
  with r show ?thesis by (auto simp: ex_start_view)
qed














text \<open>
  C17. Updating the registry is atomic. \<open>removeFromRegistry\<close> either reports success, and the
  file lists the other keys in their order, or reports an error, and the file is untouched:
  whatever write or rename fails, and however much of it was written, no key is lost.
\<close>

theorem registry_update_atomic:
  assumes "reg_file w man ks" "\<forall>j \<in> set ks. is_api_key j"
    and "removeFromRegistry ev k w man = (r, w')"
  shows "(r = Inr () \<longrightarrow> reg_file w' man (filter (\<lambda>j. j \<noteq> k) ks)) \<and>
    (\<forall>e. r = Inl e \<longrightarrow> registry_node w' man = registry_node w man)"
proof -
  have "\<forall>j \<in> set ks. line_ok j" using assms(2) by (simp add: api_key_line)
  from removeFromRegistry_file [OF assms(1) this assms(3)] show ?thesis by simp
qed

definition ex_registry :: "ref_engine world" where
  "ex_registry = ex_start\<lparr>nodes := fmupd ''/data/keys.txt'' (NFile (ex_key @ [newline]) 0)
     (fmupd ''/data'' NDir fmempty)\<rparr>"

lemma ex_registry_file: "reg_file ex_registry ex_man [ex_key]"
  by (simp add: reg_file_def registry_node_def ex_man_fields ex_registry_def registry_content_def)

lemma ex_faults [simp]: "os_faults ex_env c = None" "clk ex_env n = ex_time 0"
  by (simp_all add: ex_env_def)

text \<open>Without faults, and with the directory there, removing a key succeeds.\<close>

lemma ex_remove:
  assumes "reg_file w man [ex_key]" "registryPath man = ''/data/keys.txt''"
    and "fmlookup (nodes w) ''/data'' = Some NDir" "fmlookup (nodes w) ''/data/keys.txt.tmp'' = None"
  shows "\<exists>w'. removeFromRegistry ex_env ex_key w man = (Inr (), w')"
proof -
  have r: "readRegistry ex_env w man = Inr [ex_key]"
    using ex_key_api assms(1) by (intro readRegistry_file) (simp_all add: api_key_line)
  have "path_parent ''/data/keys.txt.tmp'' = ''/data''" by (simp add: path_parent_def)
  moreover have "fmlookup (nodes w) ''/data/keys.txt'' \<noteq> Some NDir"
    using assms(1,2) by (auto simp: reg_file_def registry_node_def)
  ultimately have "fst (removeFromRegistry ex_env ex_key w man) = Inr ()"
    using assms by (simp add: removeFromRegistry_def r Let_def os_WriteFile_def os_Rename_def parent_ok_def)
  then show ?thesis by (metis prod.collapse)
qed

lemma registry_update_atomic_witness:
  "\<exists>w'. removeFromRegistry ex_env ex_key ex_registry ex_man = (Inr (), w') \<and> reg_file w' ex_man []"
proof -
  obtain w' where w': "removeFromRegistry ex_env ex_key ex_registry ex_man = (Inr (), w')"
    using ex_remove [OF ex_registry_file] by (auto simp: ex_man_fields ex_registry_def)
  from registry_update_atomic [OF ex_registry_file _ w'] ex_key_api w' show ?thesis by simp
qed

text \<open>
  C18. Provisioning hands out a fresh key and records it first. A key that \<open>RequestProvision\<close>
  returns is 48 hexadecimal digits, belonged to no tenant, is appended to the registry after
  all keys that were there, and now names a pending tenant with no data; no other tenant
  changes.
\<close>

theorem provision_records_fresh_key:
  assumes "man_inv srv dat w man" "rand_ok ev" "reg_file w man ks" "\<forall>j \<in> set ks. is_api_key j"
    and "RequestProvision ev w man = (Inr k, w', man')"
    and "fmlookup (nodes w) (tenant_dir man k) = None"
  shows "length k = 48 \<and> set k \<subseteq> hex_chars \<and> fmlookup (man_tenants man) k = None \<and>
    reg_file w' man' (ks @ [k]) \<and>
    (\<exists>db. fmlookup (man_tenants man') k = Some db \<and> IsPending db \<and> db_APIKey db = k) \<and>
    man_view dat w' man' = (man_view dat w man)(k \<mapsto> Map.empty)"
proof -
  have fresh: "fmlookup (nodes w) (tenant_dir man j) = None" if "Inr k = (Inr j :: string + string)" for j
    using that assms(6) by simp
  have inv: "is_api_key k \<and> fmlookup (man_tenants man) k = None \<and>
      man_view dat w' man' = (man_view dat w man)(k \<mapsto> Map.empty)"
    using RequestProvision_inv(2) [OF assms(1,2) _ assms(5)] fresh by blast
  have m: "man' = set_tenant k (man_NewDatabase (clk ev 0) (clk ev 1) k man) man"
    using assms(5) by (cases rule: RequestProvision_cases) auto
  show ?thesis
    using inv RequestProvision_file(1) [OF assms(5,2,3,4)]
    by (simp add: is_api_key_def m IsPending_def man_NewDatabase_fields)
qed

lemma provision_records_fresh_key_witness:
  "\<exists>w' man'. RequestProvision ex_env ex_start ex_man = (Inr ex_key, w', man') \<and>
     reg_file w' man' [ex_key]"
proof -
  obtain w' man' where p: "RequestProvision ex_env ex_start ex_man = (Inr ex_key, w', man')"
    using ex_provision by blast
  have f: "reg_file ex_start ex_man []"
    by (simp add: reg_file_def registry_node_def ex_start_def)
  from provision_records_fresh_key [OF ex_inv ex_rand f _ p] p show ?thesis
    by (auto simp: ex_start_def)
qed

text \<open>
  Key generation gives up for a reason only: an error means that the random source
  failed, or that all five draws were keys of existing tenants.
\<close>

lemma key_generation_fails_for_a_reason:
  assumes "generateAPIKey ev man = Inl e"
  shows "(\<exists>j < 5. rand_Read ev j = Inl e) \<or>
    (\<forall>j < 5. \<exists>b. rand_Read ev j = Inr b \<and> fmlookup (man_tenants man) (hex_EncodeToString b) \<noteq> None)"
  using gen_key_fails [OF assms [unfolded generateAPIKey_def]] by auto

lemma key_generation_fails_for_a_reason_witness:
  "\<exists>j < 5. rand_Read (ex_env\<lparr>rand_Read := \<lambda>n. Inl ''no entropy''\<rparr>) j = Inl ''no entropy''"
proof -
  have "generateAPIKey (ex_env\<lparr>rand_Read := \<lambda>n. Inl ''no entropy''\<rparr>) ex_man = Inl ''no entropy''"
    by (simp add: generateAPIKey_def numeral_eq_Suc)
  from key_generation_fails_for_a_reason [OF this] show ?thesis
    by (elim disjE) (simp, force dest: spec [of _ 0])
qed

text \<open>
  C16. Deprovisioning removes a tenant completely. When \<open>Deprovision\<close> reports success, the key
  names no tenant, its directory and everything below it is gone from the file system, its
  data is gone from the engine, and the registry lists the other keys only; every other tenant
  has its data and the registry its order.
\<close>

theorem deprovision_removes_completely:
  assumes "engine_ok api srv dat inr" "man_inv srv dat w man" "reg_file w man ks"
    and "\<forall>j \<in> set ks. is_api_key j" "Deprovision api ev k w man = (None, w', man')"
  shows "fmlookup (man_tenants man') k = None \<and>
    (\<forall>q. path_under (tenant_dir man k) q \<longrightarrow> fmlookup (nodes w') q = None) \<and>
    dat (engw w') (tenant_dir man k) = Map.empty \<and>
    reg_file w' man' (filter (\<lambda>j. j \<noteq> k) ks) \<and>
    man_view dat w' man' = (man_view dat w man)(k := None) \<and> man_inv srv dat w' man'"
proof -
  note D = Deprovision_inv [OF assms(1,2,5)]
  have v: "man_view dat w' man' = (man_view dat w man)(k := None)"
    using D(2,3) by (auto simp: fun_eq_iff)
  have k: "fmlookup (man_tenants man') k = None" using D(3) by (simp add: man_view_def)
  from assms(5) obtain db w1 db1 where d: "fmlookup (man_tenants man) k = Some db"
    "Destroy api ev w db = (Inr (), w1, db1)" "removeFromRegistry ev k w1 man' = (Inr (), w')"
    "man' = drop_tenant k man"
    by (cases rule: Deprovision_cases) auto
  from man_invD [OF assms(2) d(1)] have dir: "db_dataDirPath db = tenant_dir man k" "is_api_key k"
    by (simp_all add: tenant_ok_def)
  have e: "engw w' = engw w1"
    using removeFromRegistry_frame(1) [of ev k w1 man'] d(3) by simp
  have data: "dat (engw w') (tenant_dir man k) = Map.empty"
    using Destroy_spec(5) [OF assms(1) d(2)] dir e by simp
  have "fmlookup (nodes w') q = None" if q: "path_under (tenant_dir man k) q" for q
  proof -
    have "fmlookup (nodes w1) q = None"
      using d(2) os_RemoveAll_gone [of "fredb_dir_removed api" ev "tenant_dir man k" _ w1 q] q dir
      by (auto simp: Destroy_def split: option.splits prod.splits)
    moreover have "q \<noteq> registryPath man'" "q \<noteq> registryPath man' @ ''.tmp''"
      using q dir tenant_dir_registry [OF dir(2), of man] tenant_dir_tmp [OF dir(2), of man] d(4)
      by auto
    ultimately show ?thesis
      using removeFromRegistry_frame(2) [of q man' ev k w1] d(3) by simp
  qed
  with v k data Deprovision_file(1) [OF assms(1,2,5,3,4)] D(1) show ?thesis by simp
qed

definition ex_man1 :: "string manager" where
  "ex_man1 = set_tenant ex_key (man_NewDatabase (ex_time 0) (ex_time 0) ex_key ex_man) ex_man"

lemma ex_man1_inv: "man_inv ref_srv ref_dat ex_registry ex_man1"
proof -
  have d: "ref_dat (engw ex_registry) p = Map.empty" for p
    by (simp add: ref_dat_def ex_registry_def ex_start_def fun_eq_iff)
  have "man_inv ref_srv ref_dat ex_registry ex_man"
    unfolding ex_man_def using ex_config_sane d by (intro man_inv_New) simp_all
  moreover from this have "man_sane ex_man" by (simp add: man_inv_def)
  ultimately show ?thesis
    unfolding ex_man1_def
    by (intro man_inv_set man_NewDatabase_ok(1) [where dat = ref_dat and w = ex_registry] ex_key_api d)
qed

lemma ex_man1_fields:
  "registryPath ex_man1 = ''/data/keys.txt''" "tenant_dir ex_man1 ex_key = ex_dir"
  "fmlookup (man_tenants ex_man1) ex_key = Some (man_NewDatabase (ex_time 0) (ex_time 0) ex_key ex_man)"
  "reg_file ex_registry ex_man1 = reg_file ex_registry ex_man"
  by (simp_all add: ex_man1_def ex_man_fields)

lemma ex_deprovision:
  "\<exists>w' man'. Deprovision ref_api ex_env ex_key ex_registry ex_man1 = (None, w', man')"
proof -
  let ?db = "man_NewDatabase (ex_time 0) (ex_time 0) ex_key ex_man"
  let ?gone = "fredb_dir_removed ref_api"
  obtain w1 where r: "os_RemoveAll ?gone ex_env ex_dir ex_registry = (Inr (), w1)"
    by (simp add: os_RemoveAll_def)
  have d: "Destroy ref_api ex_env ex_registry ?db = (Inr (), w1, ?db)"
    by (simp add: Destroy_def man_NewDatabase_fields ex_man_fields r)
  have "ex_dir @ ''/'' = ''/data/'' @ ex_key @ ''/''" by (simp add: ex_dir_def)
  then have "\<not> path_under ex_dir ''/data''"
    by (simp add: path_under_def ex_dir_def del: append_assoc)
  moreover have "\<not> path_under ex_dir ''/data/keys.txt''" "\<not> path_under ex_dir ''/data/keys.txt.tmp''"
    using tenant_dir_registry(3) [OF ex_key_api, of ex_man] tenant_dir_tmp [OF ex_key_api, of ex_man]
    by (simp_all add: ex_man_fields)
  ultimately have n: "fmlookup (nodes w1) q = fmlookup (nodes ex_registry) q"
    if "q \<in> {''/data'', ''/data/keys.txt'', ''/data/keys.txt.tmp''}" for q
    using that os_RemoveAll_frame [of ex_dir q ?gone ex_env ex_registry] r by auto
  let ?man = "drop_tenant ex_key ex_man1"
  have "reg_file w1 ?man [ex_key]"
    using ex_registry_file n by (simp add: reg_file_def registry_node_def ex_man_fields ex_man1_fields)
  from ex_remove [OF this] n obtain w2 where "removeFromRegistry ex_env ex_key w1 ?man = (Inr (), w2)"
    by (auto simp: ex_man1_fields ex_registry_def)
  with d show ?thesis by (simp add: Deprovision_def ex_man1_fields Let_def)
qed

lemma deprovision_removes_completely_witness:
  "\<exists>w' man'. Deprovision ref_api ex_env ex_key ex_registry ex_man1 = (None, w', man') \<and>
     fmlookup (man_tenants man') ex_key = None \<and> reg_file w' man' []"
proof -
  obtain w' man' where d: "Deprovision ref_api ex_env ex_key ex_registry ex_man1 = (None, w', man')"
    using ex_deprovision by blast
  have "reg_file ex_registry ex_man1 [ex_key]" using ex_registry_file by (simp add: ex_man1_fields)
  from deprovision_removes_completely [OF ref_engine_ok ex_man1_inv this _ d] ex_key_api d
  show ?thesis by auto
qed

text \<open>
  C19. The reaper removes idle tenants only. A pass reports only keys of tenants that were
  active when it started and had been idle for longer than the limit, and those are gone;
  every pending tenant and every tenant within the limit keeps its data, whatever fails
  during the pass.
\<close>

theorem reaper_removes_idle_only:
  assumes "engine_ok api srv dat inr" "man_inv srv dat w man" "distinct order"
    and "reapInactive api now maxIdle evs order w man = (ks, w', man')"
  shows "(\<forall>k \<in> set ks. man_view dat w' man' k = None \<and> (\<exists>db. fmlookup (man_tenants man) k = Some db \<and>
       \<not> IsPending db \<and> maxIdle < time_Sub now (LastActive db))) \<and>
    (\<forall>k db. fmlookup (man_tenants man) k = Some db \<longrightarrow>
       IsPending db \<or> time_Sub now (LastActive db) \<le> maxIdle \<longrightarrow>
       man_view dat w' man' k = man_view dat w man k)"
proof -
  from reap_sim(2) [OF assms(1,2,4,3)] show ?thesis
    by (cases rule: spec_step.cases) (auto simp: reap_old_def expired_def IsPending_def)
qed

lemma ex_reap: "\<exists>w' man'. reapInactive ref_api (ex_time 9) 0 (\<lambda>k. ex_env) [ex_key] ex_registry ex_man1 =
    ([], w', man')"
  by (simp add: reapInactive_def reap_snapshot_def ex_man1_fields IsPending_def man_NewDatabase_fields)

lemma reaper_removes_idle_only_witness:
  "\<exists>w' man'. reapInactive ref_api (ex_time 9) 0 (\<lambda>k. ex_env) [ex_key] ex_registry ex_man1 =
       ([], w', man') \<and> man_view ref_dat w' man' ex_key = man_view ref_dat ex_registry ex_man1 ex_key"
proof -
  obtain w' man' where r: "reapInactive ref_api (ex_time 9) 0 (\<lambda>k. ex_env) [ex_key] ex_registry ex_man1 =
    ([], w', man')" using ex_reap by blast
  have "IsPending (man_NewDatabase (ex_time 0) (ex_time 0) ex_key ex_man)"
    by (simp add: IsPending_def man_NewDatabase_fields)
  with reaper_removes_idle_only [OF ref_engine_ok ex_man1_inv _ r] ex_man1_fields(3)
  have "man_view ref_dat w' man' ex_key = man_view ref_dat ex_registry ex_man1 ex_key" by simp
  with r show ?thesis by blast
qed

end
