(* ===== verification/Go_Fmt.thy ===== *)
theory Go_Fmt
  imports Go_Std
begin

text \<open>
  The parts of \<open>fmt\<close>, \<open>strconv\<close>, \<open>time\<close> and \<open>slices\<close> that the status page and the
  configuration use: decimal output of integers and of binary64 values with a fixed number of
  decimals, decimal input of a 64-bit number, rounding of a duration, a clock reading as text.
\<close>

section \<open>Decimal numerals\<close>

definition dec_digit :: "nat \<Rightarrow> char" where
  "dec_digit d = ''0123456789'' ! d"

fun dec_nat :: "nat \<Rightarrow> string" where
  "dec_nat n = (if n < 10 then [dec_digit n] else dec_nat (n div 10) @ [dec_digit (n mod 10)])"

declare dec_nat.simps [simp del]

text \<open>\<open>%d\<close> of a signed number.\<close>

definition fmt_d :: "int \<Rightarrow> string" where
  "fmt_d i = (if i < 0 then CHR ''-'' # dec_nat (nat (- i)) else dec_nat (nat i))"

text \<open>The last \<open>k\<close> digits of \<open>n\<close>, with leading zeros.\<close>

fun dec_pad :: "nat \<Rightarrow> nat \<Rightarrow> string" where
  "dec_pad 0 n = []"
| "dec_pad (Suc k) n = dec_pad k (n div 10) @ [dec_digit (n mod 10)]"

text \<open>\<open>%.kf\<close>: the exact value rounded to \<open>k\<close> decimals, ties to even.\<close>

definition fixed_abs :: "nat \<Rightarrow> rat \<Rightarrow> string" where
  "fixed_abs k x =
     (let m = nat (round_half_even (x * 10 ^ k)) in
      dec_nat (m div 10 ^ k) @ (if k = 0 then '''' else CHR ''.'' # dec_pad k m))"

fun fmt_f :: "nat \<Rightarrow> float64 \<Rightarrow> string" where
  "fmt_f k NaN = ''NaN''"
| "fmt_f k PInf = ''+Inf''"
| "fmt_f k NInf = ''-Inf''"
| "fmt_f k (Fin x) = (if x < 0 then CHR ''-'' # fixed_abs k (- x) else fixed_abs k x)"

text \<open>\<open>strconv.ParseUint(s, 10, 64)\<close>; every error of it is \<open>None\<close>.\<close>

definition digit_val :: "char \<Rightarrow> nat option" where
  "digit_val c = (if 48 \<le> (of_char c :: nat) \<and> (of_char c :: nat) \<le> 57
                  then Some (of_char c - 48) else None)"

fun parse_digits :: "nat \<Rightarrow> string \<Rightarrow> nat option" where
  "parse_digits n [] = Some n"
| "parse_digits n (c # cs) =
     (case digit_val c of
        None \<Rightarrow> None
      | Some d \<Rightarrow>
          if 2 ^ 64 div 10 + 1 \<le> n then None
          else if 2 ^ 64 \<le> n * 10 + d then None
          else parse_digits (n * 10 + d) cs)"

definition ParseUint :: "string \<Rightarrow> 64 word option" where
  "ParseUint s = (if s = '''' then None else map_option of_nat (parse_digits 0 s))"

text \<open>Evaluation on numerals.\<close>

lemma dec_pad_numeral [simp]:
  "dec_pad (numeral k) n = dec_pad (pred_numeral k) (n div 10) @ [dec_digit (n mod 10)]"
  by (simp only: numeral_eq_Suc [of k] dec_pad.simps)

lemmas fmt_eval = fmt_d_def fixed_abs_def round_half_even_def Let_def dec_nat.simps dec_digit_def

section \<open>Reading back what was written\<close>

lemma digit_val_dec_digit: "d < 10 \<Longrightarrow> digit_val (dec_digit d) = Some d"
proof -
  assume "d < 10"
  then have "d \<in> {0, 1, 2, 3, 4, 5, 6, 7, 8, 9}" by auto
  then show ?thesis by (auto simp: dec_digit_def digit_val_def)
qed

lemma dec_nat_not_Nil [simp]: "dec_nat n \<noteq> []"
  by (subst dec_nat.simps) simp

lemma parse_digits_snoc:
  "parse_digits n (s @ [c]) =
     (case parse_digits n s of None \<Rightarrow> None | Some m \<Rightarrow> parse_digits m [c])"
  by (induction n s rule: parse_digits.induct) (auto split: option.splits)

lemma parse_digits_dec_nat: "n < 2 ^ 64 \<Longrightarrow> parse_digits 0 (dec_nat n) = Some n"
proof (induction n rule: dec_nat.induct)
  case (1 n)
  show ?case
  proof (cases "n < 10")
    case True
    then show ?thesis by (subst dec_nat.simps) (simp add: digit_val_dec_digit)
  next
    case False
    have "n div 10 < 2 ^ 64" using "1.prems" by (simp add: less_mult_imp_div_less)
    from "1.IH" [OF False this] have "parse_digits 0 (dec_nat (n div 10)) = Some (n div 10)" .
    moreover have "n div 10 < 2 ^ 64 div 10 + 1" using "1.prems" by simp
    moreover have "n div 10 * 10 + n mod 10 = n" by simp
    ultimately show ?thesis using False "1.prems"
      by (subst dec_nat.simps) (simp add: parse_digits_snoc digit_val_dec_digit)
  qed
qed

lemma ParseUint_dec_nat: "n < 2 ^ 64 \<Longrightarrow> ParseUint (dec_nat n) = Some (of_nat n)"
  by (simp add: ParseUint_def parse_digits_dec_nat)

lemma parse_digits_bound:
  "n < 2 ^ 64 \<Longrightarrow> parse_digits n s = Some m \<Longrightarrow> m < 2 ^ 64 \<and> (\<forall>c \<in> set s. digit_val c \<noteq> None)"
  by (induction n s rule: parse_digits.induct) (auto split: option.splits if_splits)

section \<open>Durations and clock readings\<close>

text \<open>\<open>Duration.Round\<close>: to the nearest multiple, halves away from zero, saturating.\<close>

definition less_than_half :: "int \<Rightarrow> int \<Rightarrow> bool" where
  "less_than_half x y = ((x + x) mod 2 ^ 64 < y mod 2 ^ 64)"

definition duration_Round :: "int \<Rightarrow> int \<Rightarrow> int" where
  "duration_Round m d =
     (if m \<le> 0 then d
      else if d < 0 then
        (let r = - go_mod d m in
         if less_than_half r m then d + r
         else let d1 = wrap64 (d - m + r) in if d1 < d then d1 else - (2 ^ 63))
      else
        (let r = go_mod d m in
         if less_than_half r m then d - r
         else let d1 = wrap64 (d + m - r) in if d < d1 then d1 else 2 ^ 63 - 1))"

text \<open>\<open>Time.Format("15:04:05")\<close>: \<open>tz\<close> is the offset of the local time zone at an instant.\<close>

definition clock_text :: "(int \<Rightarrow> int) \<Rightarrow> gotime \<Rightarrow> string" where
  "clock_text tz t =
     (let s = time_Unix_sec t; l = (s + tz s) mod 86400 in
      dec_pad 2 (nat (l div 3600)) @ '':'' @ dec_pad 2 (nat (l mod 3600 div 60)) @ '':'' @
      dec_pad 2 (nat (l mod 60)))"

lemma length_dec_pad [simp]: "length (dec_pad k n) = k"
  by (induction k arbitrary: n) simp_all

lemma length_clock_text: "length (clock_text tz t) = 8"
  by (simp add: clock_text_def Let_def)

lemma duration_Round_Second:
  assumes "0 \<le> d" "d < 2 ^ 63"
  shows "0 \<le> duration_Round Second d"
    and "d < 2 ^ 63 - Second \<Longrightarrow> duration_Round Second d = (d + 500000000) div Second * Second"
proof -
  let ?r = "d mod 1000000000" and ?q = "d div 1000000000"
  have r: "0 \<le> ?r" "?r < 1000000000" and dq: "d = ?q * 1000000000 + ?r" by simp_all
  have h: "less_than_half ?r 1000000000 \<longleftrightarrow> ?r < 500000000"
    using r by (simp add: less_than_half_def)
  have "?r \<le> d" using assms by (simp add: zmod_le_nonneg_dividend)
  then show "0 \<le> duration_Round Second d"
    using assms r h by (auto simp: duration_Round_def duration_units Let_def)
  assume b: "d < 2 ^ 63 - Second"
  then have w: "wrap64 (d + 1000000000 - ?r) = ?q * 1000000000 + 1000000000"
    using assms r by (subst wrap64_id) (simp_all add: duration_units minus_mod_eq_div_mult [symmetric])
  have "(d + 500000000) div 1000000000 = (if ?r < 500000000 then ?q else ?q + 1)"
    using r dq int_div_pos_eq [of "d + 500000000" 1000000000 ?q "?r + 500000000"]
      int_div_pos_eq [of "d + 500000000" 1000000000 "?q + 1" "?r - 500000000"] by simp
  then show "duration_Round Second d = (d + 500000000) div Second * Second"
    using assms r h w dq by (auto simp: duration_Round_def duration_units Let_def minus_mod_eq_div_mult distrib_right)
qed

section \<open>Truncating a float to an integer\<close>

text \<open>Out of the range of the type, the conversion of amd64 gives the least value.\<close>

fun f64_to_int :: "float64 \<Rightarrow> int" where
  "f64_to_int (Fin x) =
     (let i = rat_trunc x in if - (2 ^ 63) \<le> i \<and> i < 2 ^ 63 then i else - (2 ^ 63))"
| "f64_to_int a = - (2 ^ 63)"

lemma f64_to_int_between:
  assumes "f64_le (Fin 0) a" "f64_le a (Fin (of_int n))" "n < 2 ^ 63"
  shows "0 \<le> f64_to_int a" "f64_to_int a \<le> n"
proof -
  from assms obtain x where x: "a = Fin x" "0 \<le> x" "x \<le> of_int n"
    by (cases a) auto
  then have f: "0 \<le> \<lfloor>x\<rfloor>" "\<lfloor>x\<rfloor> \<le> n" by (simp_all add: floor_le_iff)
  with assms(3) have "- (2 ^ 63) \<le> \<lfloor>x\<rfloor>" "\<lfloor>x\<rfloor> < 2 ^ 63" by linarith+
  then have "f64_to_int a = \<lfloor>x\<rfloor>"
    unfolding x(1) f64_to_int.simps rat_trunc_def Let_def using x(2) by simp
  with f show "0 \<le> f64_to_int a" "f64_to_int a \<le> n" by simp_all
qed

lemma f64_to_int_mono:
  assumes "f64_le (Fin 0) a" "f64_le a b" "f64_le b (Fin (of_int n))" "n < 2 ^ 63"
  shows "f64_to_int a \<le> f64_to_int b"
proof -
  from assms obtain x y where x: "a = Fin x" "b = Fin y" "0 \<le> x" "x \<le> y" "y \<le> of_int n"
    by (cases a; cases b) auto
  then have "0 \<le> \<lfloor>x\<rfloor>" "\<lfloor>x\<rfloor> \<le> \<lfloor>y\<rfloor>" "\<lfloor>y\<rfloor> \<le> n"
    using floor_mono [of x y] by (simp_all add: floor_le_iff)
  with assms(4) have "- (2 ^ 63) \<le> \<lfloor>x\<rfloor>" "\<lfloor>x\<rfloor> < 2 ^ 63" "- (2 ^ 63) \<le> \<lfloor>y\<rfloor>" "\<lfloor>y\<rfloor> < 2 ^ 63" by linarith+
  then have "f64_to_int a = \<lfloor>x\<rfloor>" "f64_to_int b = \<lfloor>y\<rfloor>"
    unfolding x(1,2) f64_to_int.simps rat_trunc_def Let_def using x(3,4) by simp_all
  with floor_mono [OF x(4)] show ?thesis by simp
qed

section \<open>strings.ToLower\<close>

text \<open>One ASCII letter.\<close>

definition lower_char :: "char \<Rightarrow> char" where
  "lower_char c =
     (let n = (of_char c :: nat) in if 65 \<le> n \<and> n \<le> 90 then char_of (n + 32) else c)"

end
