(* ===== verification/Status_Window.thy ===== *)
theory Status_Window
  imports Go_Fmt "HOL-Library.Multiset"
begin

text \<open>
  \<open>server/status.go\<close>, the two bounded histories of the status page: the ring of latencies
  \<open>latRing\<close> with its percentiles, and the feed of recent operations. Both promise the same
  thing, the last so many of the samples that were added; the locale \<open>bounded_history\<close>
  states that contract, and both are interpreted in it.
\<close>

section \<open>The contract: the last samples\<close>

definition window :: "nat \<Rightarrow> 'a list \<Rightarrow> 'a list" where
  "window n xs = drop (length xs - n) xs"

lemma length_window [simp]: "length (window n xs) = min n (length xs)"
  by (auto simp: window_def)

lemma window_Nil: "window n xs = [] \<longleftrightarrow> n = 0 \<or> xs = []"
proof -
  have "window n xs = [] \<longleftrightarrow> min n (length xs) = 0" by (metis length_0_conv length_window)
  then show ?thesis by (auto simp: min_def)
qed

lemma window_short: "length xs \<le> n \<Longrightarrow> window n xs = xs"
  by (simp add: window_def)

lemma window_append_window: "window n (window n xs @ ys) = window n (xs @ ys)"
  by (cases "length xs \<le> n") (simp_all add: window_def add.commute)

lemma window_snoc_full: "length xs = n \<Longrightarrow> 0 < n \<Longrightarrow> window n (xs @ [x]) = tl xs @ [x]"
  by (cases xs) (simp_all add: window_def)

locale bounded_history =
  fixes add :: "'a \<Rightarrow> 's \<Rightarrow> 's option"
    and contents :: "'s \<Rightarrow> 'a list"
    and inv :: "'s \<Rightarrow> bool"
    and cap :: nat
  assumes add_total: "inv s \<Longrightarrow> \<exists>s'. add x s = Some s'"
    and add_inv: "inv s \<Longrightarrow> add x s = Some s' \<Longrightarrow> inv s'"
    and add_contents: "inv s \<Longrightarrow> add x s = Some s' \<Longrightarrow> contents s' = window cap (contents s @ [x])"
    and contents_le: "inv s \<Longrightarrow> length (contents s) \<le> cap"
begin

fun add_all :: "'a list \<Rightarrow> 's \<Rightarrow> 's option" where
  "add_all [] s = Some s"
| "add_all (x # xs) s = (case add x s of None \<Rightarrow> None | Some s' \<Rightarrow> add_all xs s')"

lemma add_all_window:
  "inv s \<Longrightarrow> \<exists>s'. add_all xs s = Some s' \<and> inv s' \<and> contents s' = window cap (contents s @ xs)"
proof (induction xs arbitrary: s)
  case Nil
  then show ?case by (simp add: window_short contents_le)
next
  case (Cons x xs)
  obtain s1 where s1: "add x s = Some s1" using add_total [OF Cons.prems] by blast
  from Cons.IH [OF add_inv [OF Cons.prems s1]] obtain s' where
    "add_all xs s1 = Some s'" "inv s'" "contents s' = window cap (contents s1 @ xs)" by blast
  with add_contents [OF Cons.prems s1] s1 show ?case
    by (simp add: window_append_window)
qed

end

section \<open>The ring of latencies\<close>

text \<open>A panic of the Go code (an index out of range) is \<open>None\<close>.\<close>

record lat_ring =
  lr_buf :: "int list"
  lr_next :: nat
  lr_full :: bool

definition newLatRing :: "nat \<Rightarrow> lat_ring" where
  "newLatRing n = \<lparr>lr_buf = replicate n 0, lr_next = 0, lr_full = False\<rparr>"

definition lr_add :: "int \<Rightarrow> lat_ring \<Rightarrow> lat_ring option" where
  "lr_add d r =
     (if length (lr_buf r) \<le> lr_next r then None
      else
        let r1 = r\<lparr>lr_buf := (lr_buf r)[lr_next r := d]\<rparr>;
            r2 = r1\<lparr>lr_next := (lr_next r1 + 1) mod length (lr_buf r1)\<rparr>
        in Some (if lr_next r2 = 0 then r2\<lparr>lr_full := True\<rparr> else r2))"

text \<open>\<open>p / 100 * float64(n-1)\<close>, truncated.\<close>

definition pct_index :: "float64 \<Rightarrow> nat \<Rightarrow> int" where
  "pct_index p n = f64_to_int (f64_mul (f64_div p (Fin 100)) (f64_of_int (int n - 1)))"

definition lr_percentile :: "float64 \<Rightarrow> lat_ring \<Rightarrow> (int \<times> bool) option" where
  "lr_percentile p r =
     (let n = (if lr_full r then length (lr_buf r) else lr_next r) in
      if n = 0 then Some (0, False)
      else if length (lr_buf r) < n then None
      else
        let s = sort (take n (lr_buf r)); idx = pct_index p n in
        if 0 \<le> idx \<and> idx < int n then Some (s ! nat idx, True) else None)"

definition lr_inv :: "nat \<Rightarrow> lat_ring \<Rightarrow> bool" where
  "lr_inv n r \<longleftrightarrow> length (lr_buf r) = n \<and> lr_next r < n"

text \<open>The samples of the ring, oldest first.\<close>

definition lr_samples :: "lat_ring \<Rightarrow> int list" where
  "lr_samples r =
     (if lr_full r then drop (lr_next r) (lr_buf r) @ take (lr_next r) (lr_buf r)
      else take (lr_next r) (lr_buf r))"

lemma newLatRing_inv [simp]: "0 < n \<Longrightarrow> lr_inv n (newLatRing n)"
  "lr_samples (newLatRing n) = []"
  by (simp_all add: lr_inv_def lr_samples_def newLatRing_def)

lemma lr_add_spec:
  assumes "lr_inv n r"
  shows "\<exists>r'. lr_add d r = Some r' \<and> lr_inv n r' \<and> lr_samples r' = window n (lr_samples r @ [d])"
proof (cases "lr_next r + 1 = n")
  case True
  define b where "b = lr_buf r"
  define i where "i = lr_next r"
  have n: "length b = Suc i" "n = Suc i" using assms True by (simp_all add: lr_inv_def b_def i_def)
  have "window (Suc i) (lr_samples r @ [d]) = take i b @ [d]"
    using n by (auto simp: lr_samples_def window_def b_def [symmetric] i_def [symmetric] drop_Suc)
  moreover have "b[i := d] = take i b @ [d]"
    using n by (simp add: upd_conv_take_nth_drop)
  ultimately show ?thesis using n
    by (auto simp: lr_add_def lr_inv_def lr_samples_def Let_def b_def i_def)
next
  case False
  define b where "b = lr_buf r"
  define i where "i = lr_next r"
  have n: "length b = n" "Suc i < n" using assms False by (simp_all add: lr_inv_def b_def i_def)
  have u: "take (Suc i) (b[i := d]) = take i b @ [d]"
    using n by (simp add: take_Suc_conv_app_nth take_update_cancel)
  have v: "drop i b = b ! i # drop (Suc i) b" using n by (simp add: Cons_nth_drop_Suc)
  have "window n (lr_samples r @ [d]) =
      (if lr_full r then drop (Suc i) b @ take i b @ [d] else take i b @ [d])"
    using n v by (auto simp: lr_samples_def window_def b_def [symmetric] i_def [symmetric])
  then show ?thesis using n u
    by (auto simp: lr_add_def lr_inv_def lr_samples_def Let_def b_def i_def)
qed

interpretation ring: bounded_history lr_add lr_samples "lr_inv n" n
  for n
proof unfold_locales
  fix r d
  assume i: "lr_inv n r"
  show "\<exists>r'. lr_add d r = Some r'" using lr_add_spec [OF i] by blast
  show "lr_inv n r'" if "lr_add d r = Some r'" for r' using lr_add_spec [OF i, of d] that by auto
  show "lr_samples r' = window n (lr_samples r @ [d])" if "lr_add d r = Some r'" for r'
    using lr_add_spec [OF i, of d] that by auto
  show "length (lr_samples r) \<le> n" using i by (auto simp: lr_inv_def lr_samples_def)
qed

section \<open>Percentiles\<close>

lemma sort_take_ring:
  assumes "lr_inv n r"
  shows "sort (take (if lr_full r then length (lr_buf r) else lr_next r) (lr_buf r)) = sort (lr_samples r)"
proof -
  have "mset (take k b) + mset (drop k b) = mset b" for k and b :: "int list"
    by (metis append_take_drop_id mset_append)
  then have "mset (take (if lr_full r then length (lr_buf r) else lr_next r) (lr_buf r)) = mset (lr_samples r)"
    by (simp add: lr_samples_def add.commute)
  then show ?thesis by (metis properties_for_sort mset_sort sorted_sort)
qed

lemma length_samples_ring:
  "lr_inv n r \<Longrightarrow> length (lr_samples r) = (if lr_full r then length (lr_buf r) else lr_next r)"
  by (simp add: lr_inv_def lr_samples_def)

text \<open>The percentile is a function of the samples alone.\<close>

lemma lr_percentile_samples:
  assumes "lr_inv n r"
  shows "lr_percentile p r =
    (if lr_samples r = [] then Some (0, False)
     else if 0 \<le> pct_index p (length (lr_samples r)) \<and>
             pct_index p (length (lr_samples r)) < int (length (lr_samples r))
     then Some (sort (lr_samples r) ! nat (pct_index p (length (lr_samples r))), True) else None)"
proof -
  let ?k = "if lr_full r then length (lr_buf r) else lr_next r"
  have "?k \<le> length (lr_buf r)" using assms by (simp add: lr_inv_def)
  moreover have "lr_samples r = [] \<longleftrightarrow> ?k = 0"
    using length_samples_ring [OF assms] by (metis length_0_conv)
  ultimately show ?thesis
    unfolding lr_percentile_def Let_def sort_take_ring [OF assms] length_samples_ring [OF assms]
    by (simp add: not_less)
qed

text \<open>The share \<open>p / 100\<close> of a percentage is a number between 0 and 1.\<close>

lemma pct_share:
  assumes "0 \<le> p" "p \<le> 100"
  shows "\<exists>s. f64_div (Fin p) (Fin 100) = Fin s \<and> 0 \<le> s \<and> s \<le> 1"
proof -
  have "f64_ok (Fin 1)" using f64_ok_of_small_int [of 1] by simp
  from rnd_le_exact [OF this, of "p / 100"] assms show ?thesis by auto
qed

lemma pct_index_mono_bounds:
  assumes p: "0 \<le> p" "p \<le> q" "q \<le> 100" and n: "0 < n" "n \<le> 2 ^ 53"
  shows "0 \<le> pct_index (Fin p) n" "pct_index (Fin p) n \<le> pct_index (Fin q) n"
    "pct_index (Fin q) n < int n"
proof -
  obtain s t where s: "f64_div (Fin p) (Fin 100) = Fin s" "0 \<le> s" "s \<le> 1"
    and t: "f64_div (Fin q) (Fin 100) = Fin t" "0 \<le> t" "t \<le> 1"
    using pct_share [of p] pct_share [of q] p by auto
  have st: "s \<le> t" using s(1) t(1) p rnd_mono [of "p / 100" "q / 100"] by simp
  let ?k = "int n - 1"
  have k: "0 \<le> ?k" "\<bar>?k\<bar> < 2 ^ 53" "?k < 2 ^ 63" using n by auto
  have ok: "f64_ok (Fin (of_int ?k))" using f64_ok_of_small_int [OF k(2)] .
  have K: "f64_of_int ?k = Fin (of_int ?k)" using f64_of_small_int [OF k(2)] .
  have kr: "0 \<le> (of_int ?k :: rat)" using k(1) by (simp only: of_int_0_le_iff)
  have le: "s * of_int ?k \<le> t * of_int ?k" "0 \<le> s * of_int ?k" "t * of_int ?k \<le> of_int ?k"
    using s t st kr mult_right_mono [of t 1 "of_int ?k"] by (auto intro: mult_right_mono)
  have f: "f64_le (Fin 0) (rnd (s * of_int ?k))" "f64_le (rnd (s * of_int ?k)) (rnd (t * of_int ?k))"
    "f64_le (rnd (t * of_int ?k)) (Fin (of_int ?k))"
    using rnd_mono [OF le(2)] rnd_mono [OF le(1)] rnd_mono [OF le(3)] rnd_exact [OF ok] by simp_all
  have e: "pct_index (Fin p) n = f64_to_int (rnd (s * of_int ?k))"
    "pct_index (Fin q) n = f64_to_int (rnd (t * of_int ?k))"
    unfolding pct_index_def s(1) t(1) K by simp_all
  show "0 \<le> pct_index (Fin p) n"
    unfolding e using f64_to_int_between [OF f(1) f64_le_trans [OF f(2,3)] k(3)] by simp
  show "pct_index (Fin p) n \<le> pct_index (Fin q) n"
    unfolding e using f64_to_int_mono [OF f(1,2,3) k(3)] .
  show "pct_index (Fin q) n < int n"
    unfolding e using f64_to_int_between [OF f64_le_trans [OF f(1,2)] f(3) k(3)] by simp
qed

end
