(* ===== verification/Status_View.thy ===== *)
theory Status_View
  imports Go_Fmt
begin

text \<open>
  \<open>website/status_view.go\<close>: what the status sampler hands to the web site, texts only.
\<close>

record status_op =
  so_When :: string
  so_Op :: string
  so_Latency :: string
  so_OK :: bool

record status_view =
  sv_Healthy :: bool
  sv_TenantCount :: string
  sv_DiskUsed :: string
  sv_Uptime :: string
  sv_WriteP50 :: string
  sv_WriteP99 :: string
  sv_ReadP50 :: string
  sv_ReadP99 :: string
  sv_OpsPerSec :: string
  sv_TotalOps :: string
  sv_RecentOps :: "status_op list"

text \<open>The zero value of the Go struct.\<close>

definition no_status :: status_view where
  "no_status =
     \<lparr>sv_Healthy = False, sv_TenantCount = '''', sv_DiskUsed = '''', sv_Uptime = '''',
      sv_WriteP50 = '''', sv_WriteP99 = '''', sv_ReadP50 = '''', sv_ReadP99 = '''',
      sv_OpsPerSec = '''', sv_TotalOps = '''', sv_RecentOps = []\<rparr>"

definition StatusClass :: "status_op \<Rightarrow> string" where
  "StatusClass v = (if so_OK v then ''status-ok'' else ''status-err'')"

definition StatusText :: "status_op \<Rightarrow> string" where
  "StatusText v = (if so_OK v then ''ok'' else ''err'')"

end
