(* ===== verification/Manager_Background.thy ===== *)
theory Manager_Background
  imports Manager_Startup
begin

text \<open>
  The rest of \<open>server/database-manager.go\<close>: the goroutine of the reaper, and the disk
  statistics that the status page and the administration interface read. A walk over the data
  directory runs beside the requests, so its input is what the calls of this walk return: a
  tree of directory entries, each with the result of its \<open>Info\<close>, and for a directory the
  error of \<open>ReadDir\<close> and the entries it returned (both may be there).
\<close>

section \<open>Walking the data directory\<close>

record file_info =
  fi_blocks :: "int option"
  fi_size :: int

datatype walk_tree =
    WFile "os_error + file_info"
  | WDir "os_error + file_info" "os_error option" "walk_tree list"

definition IsNotExist :: "os_error \<Rightarrow> bool" where
  "IsNotExist e = (case e of NotExist s \<Rightarrow> True | _ \<Rightarrow> False)"

text \<open>The bytes of one entry: its blocks where the platform reports them, else its size.\<close>

definition entry_bytes :: "file_info \<Rightarrow> 64 word" where
  "entry_bytes info =
     (case fi_blocks info of
        Some b \<Rightarrow> word_of_int b * 512
      | None \<Rightarrow> word_of_int (fi_size info))"

text \<open>The function \<open>DiskFootprint\<close> passes to \<open>WalkDir\<close>, with the total it captures.\<close>

definition footprint_visit ::
  "os_error option \<Rightarrow> os_error + file_info \<Rightarrow> 64 word \<Rightarrow> os_error option \<times> 64 word" where
  "footprint_visit walkErr info acc =
     (case walkErr of
        Some e \<Rightarrow> (if IsNotExist e then (None, acc) else (Some e, acc))
      | None \<Rightarrow>
          (case info of
             Inl e \<Rightarrow> (if IsNotExist e then (None, acc) else (Some e, acc))
           | Inr i \<Rightarrow> (None, acc + entry_bytes i)))"

text \<open>\<open>filepath.WalkDir\<close> below the root, for this function.\<close>

fun walkDir :: "walk_tree \<Rightarrow> 64 word \<Rightarrow> os_error option \<times> 64 word"
  and walkEntries :: "walk_tree list \<Rightarrow> 64 word \<Rightarrow> os_error option \<times> 64 word" where
  "walkDir (WFile info) acc = footprint_visit None info acc"
| "walkDir (WDir info readErr entries) acc =
     (case footprint_visit None info acc of
        (Some e, t) \<Rightarrow> (Some e, t)
      | (None, t) \<Rightarrow>
          (case readErr of
             None \<Rightarrow> walkEntries entries t
           | Some e \<Rightarrow>
               (case footprint_visit (Some e) info t of
                  (Some e', t') \<Rightarrow> (Some e', t')
                | (None, t') \<Rightarrow> walkEntries entries t')))"
| "walkEntries [] acc = (None, acc)"
| "walkEntries (d # ds) acc =
     (case walkDir d acc of (Some e, t) \<Rightarrow> (Some e, t) | (None, t) \<Rightarrow> walkEntries ds t)"

record statfs =
  sf_Blocks :: "64 word"
  sf_Bavail :: "64 word"
  sf_Bsize :: int

text \<open>What the two calls report for a path: the walk (or the failed \<open>Lstat\<close> of its root), \<open>Statfs\<close>.\<close>

record disk =
  dk_walk :: "string \<Rightarrow> os_error + walk_tree"
  dk_statfs :: "string \<Rightarrow> os_error + statfs"

definition WalkDir :: "(os_error + walk_tree) \<Rightarrow> 64 word \<Rightarrow> os_error option \<times> 64 word" where
  "WalkDir r acc =
     (case r of Inl e \<Rightarrow> footprint_visit (Some e) (Inl e) acc | Inr tr \<Rightarrow> walkDir tr acc)"

definition DiskFootprint :: "disk \<Rightarrow> 'h manager \<Rightarrow> os_error + 64 word" where
  "DiskFootprint dk man =
     (case WalkDir (dk_walk dk (man_dataRoot man)) 0 of
        (None, acc) \<Rightarrow> Inr acc
      | (Some e, acc) \<Rightarrow> if IsNotExist e then Inr 0 else Inl e)"

record storage_stats =
  DiskUsedBytes :: "64 word"
  MachineTotalBytes :: "64 word"
  MachineFreeBytes :: "64 word"

definition StorageStats :: "disk \<Rightarrow> 'h manager \<Rightarrow> os_error + storage_stats" where
  "StorageStats dk man =
     (case DiskFootprint dk man of
        Inl e \<Rightarrow> Inl e
      | Inr diskUsed \<Rightarrow>
          (case dk_statfs dk (man_dataRoot man) of
             Inl e \<Rightarrow> Inl e
           | Inr stat \<Rightarrow>
               (let bsize = word_of_int (sf_Bsize stat) in
                Inr \<lparr>DiskUsedBytes = diskUsed, MachineTotalBytes = sf_Blocks stat * bsize,
                     MachineFreeBytes = sf_Bavail stat * bsize\<rparr>)))"

section \<open>What a walk sums up\<close>

text \<open>The results of \<open>Info\<close> and \<open>ReadDir\<close> that a walk without a failure meets.\<close>

fun tree_infos :: "walk_tree \<Rightarrow> file_info list" where
  "tree_infos (WFile info) = (case info of Inl e \<Rightarrow> [] | Inr i \<Rightarrow> [i])"
| "tree_infos (WDir info readErr entries) =
     (case info of Inl e \<Rightarrow> [] | Inr i \<Rightarrow> [i]) @ concat (map tree_infos entries)"

fun tree_errors :: "walk_tree \<Rightarrow> os_error list" where
  "tree_errors (WFile info) = (case info of Inl e \<Rightarrow> [e] | Inr i \<Rightarrow> [])"
| "tree_errors (WDir info readErr entries) =
     (case info of Inl e \<Rightarrow> [e] | Inr i \<Rightarrow> []) @ (case readErr of Some e \<Rightarrow> [e] | None \<Rightarrow> []) @
     concat (map tree_errors entries)"

definition sum_bytes :: "file_info list \<Rightarrow> 64 word" where
  "sum_bytes is = sum_list (map entry_bytes is)"

lemma sum_bytes_simps [simp]:
  "sum_bytes [] = 0" "sum_bytes (i # is) = entry_bytes i + sum_bytes is"
  "sum_bytes (is @ js) = sum_bytes is + sum_bytes js"
  by (simp_all add: sum_bytes_def)

text \<open>A walk stops at its first real error, and sums up every entry when there is none.\<close>

definition first_failure :: "os_error list \<Rightarrow> os_error option" where
  "first_failure es = List.find (\<lambda>e. \<not> IsNotExist e) es"

lemma first_failure_simps [simp]:
  "first_failure [] = None"
  "first_failure (e # es) = (if IsNotExist e then first_failure es else Some e)"
  by (simp_all add: first_failure_def)

lemma first_failure_append [simp]:
  "first_failure (es @ fs) = (case first_failure es of Some e \<Rightarrow> Some e | None \<Rightarrow> first_failure fs)"
  by (induction es) simp_all

lemma walk_result:
  "fst (walkDir tr acc) = first_failure (tree_errors tr) \<and>
   (first_failure (tree_errors tr) = None \<longrightarrow>
      snd (walkDir tr acc) = acc + sum_bytes (tree_infos tr))"
  "fst (walkEntries ds acc) = first_failure (concat (map tree_errors ds)) \<and>
   (first_failure (concat (map tree_errors ds)) = None \<longrightarrow>
      snd (walkEntries ds acc) = acc + sum_bytes (concat (map tree_infos ds)))"
proof (induction tr acc and ds acc rule: walkDir_walkEntries.induct)
  case (1 info acc)
  then show ?case by (cases info) (simp_all add: footprint_visit_def)
next
  case (2 info readErr entries acc)
  then show ?case
    by (cases info; cases readErr) (auto simp: footprint_visit_def add.assoc split: if_splits)
next
  case (3 acc)
  then show ?case by simp
next
  case (4 d ds acc)
  then show ?case by (cases "walkDir d acc") (auto simp: add.assoc split: option.splits)
qed

definition walk_errors :: "os_error + walk_tree \<Rightarrow> os_error list" where
  "walk_errors r = (case r of Inl e \<Rightarrow> [e] | Inr tr \<Rightarrow> tree_errors tr)"

definition walk_infos :: "os_error + walk_tree \<Rightarrow> file_info list" where
  "walk_infos r = (case r of Inl e \<Rightarrow> [] | Inr tr \<Rightarrow> tree_infos tr)"

lemma first_failure_real: "first_failure es = Some e \<Longrightarrow> \<not> IsNotExist e \<and> e \<in> set es"
  by (induction es) (auto split: if_splits)

lemma DiskFootprint_spec:
  "DiskFootprint dk man =
     (let r = dk_walk dk (man_dataRoot man) in
      case first_failure (walk_errors r) of
        Some e \<Rightarrow> Inl e | None \<Rightarrow> Inr (sum_bytes (walk_infos r)))"
proof (cases "dk_walk dk (man_dataRoot man)")
  case (Inl e)
  then show ?thesis
    by (simp add: DiskFootprint_def WalkDir_def footprint_visit_def walk_errors_def walk_infos_def)
next
  case (Inr tr)
  then show ?thesis
    using walk_result(1) [of tr 0] first_failure_real [of "tree_errors tr"]
    by (cases "walkDir tr 0")
       (auto simp: DiskFootprint_def WalkDir_def walk_errors_def walk_infos_def split: option.splits)
qed

section \<open>The goroutine of the reaper\<close>

text \<open>
  Each tick of the reaper's ticker is one pass: the time of the pass, the environments of its
  turns and the order of Go's map iteration. A ticker with a non-positive period panics.
\<close>

record reap_tick =
  rt_now :: gotime
  rt_env :: "string \<Rightarrow> env"
  rt_order :: "string list"

fun reap_ticks ::
  "('h, 'w) fredb_api \<Rightarrow> int \<Rightarrow> reap_tick list \<Rightarrow> 'w world \<Rightarrow> 'h manager \<Rightarrow>
   string list list \<times> 'w world \<times> 'h manager" where
  "reap_ticks api maxIdle [] w man = ([], w, man)"
| "reap_ticks api maxIdle (t # ts) w man =
     (case reapInactive api (rt_now t) maxIdle (rt_env t) (rt_order t) w man of
        (reaped, w1, man1) \<Rightarrow>
          (case reap_ticks api maxIdle ts w1 man1 of
             (rs, w2, man2) \<Rightarrow> (reaped # rs, w2, man2)))"

definition StartReaper ::
  "('h, 'w) fredb_api \<Rightarrow> int \<Rightarrow> int \<Rightarrow> reap_tick list \<Rightarrow> 'w world \<Rightarrow> 'h manager \<Rightarrow>
   (string list list \<times> 'w world \<times> 'h manager) option" where
  "StartReaper api interval maxIdle ticks w man =
     (if interval \<le> 0 then None else Some (reap_ticks api maxIdle ticks w man))"

section \<open>Tenants the passes spare\<close>

text \<open>A tenant that no turn of a pass finds expired keeps its entry in the table.\<close>

lemma reap_loop_table:
  assumes ok: "engine_ok api srv dat inr"
  shows "reap_loop api now maxIdle ev dbs w man = (reaped, w', man') \<Longrightarrow> man_inv srv dat w man \<Longrightarrow>
    (\<And>db. (k, db) \<in> set dbs \<Longrightarrow> time_Sub now (LastActive db) \<le> maxIdle) \<Longrightarrow>
    fmlookup (man_tenants man') k = fmlookup (man_tenants man) k"
proof (induction dbs arbitrary: w man reaped)
  case Nil
  then show ?case by simp
next
  case (Cons p dbs)
  obtain j db where p: "p = (j, db)" by (cases p)
  obtain g w1 man1 where o: "reap_one api now maxIdle (ev j) j db w man = (g, w1, man1)"
    by (cases "reap_one api now maxIdle (ev j) j db w man")
  obtain rs where l: "reap_loop api now maxIdle ev dbs w1 man1 = (rs, w', man')"
    using Cons.prems(1) p o by (auto split: prod.splits)
  note O = reap_one_spec [OF ok Cons.prems(2) o]
  have "fmlookup (man_tenants man') k = fmlookup (man_tenants man1) k"
    using Cons.prems(3) by (intro Cons.IH [OF l O(1)]) simp
  also have "\<dots> = fmlookup (man_tenants man) k"
    using O(3,5) Cons.prems(3) [of db] p by (cases "k = j") auto
  finally show ?case .
qed

lemma reap_pass:
  assumes ok: "engine_ok api srv dat inr" and inv: "man_inv srv dat w man" and o: "distinct order"
    and call: "reapInactive api now maxIdle evs order w man = (reaped, w', man')"
    and k: "fmlookup (man_tenants man) k = Some db"
      "IsPending db \<or> time_Sub now (LastActive db) \<le> maxIdle"
  shows "man_inv srv dat w' man'" "fmlookup (man_tenants man') k = Some db"
    "man_view dat w' man' k = man_view dat w man k"
proof -
  have c: "reap_loop api now maxIdle evs (reap_snapshot order man) w man = (reaped, w', man')"
    using call by (simp add: reapInactive_def)
  have s: "time_Sub now (LastActive db') \<le> maxIdle" if "(k, db') \<in> set (reap_snapshot order man)" for db'
    using that k by (auto simp: reap_snapshot_iff IsPending_def)
  from reap_loop_spec [OF ok c inv reap_snapshot_distinct [OF o]] s
  show "man_inv srv dat w' man'" "man_view dat w' man' k = man_view dat w man k" by blast+
  show "fmlookup (man_tenants man') k = Some db"
    using reap_loop_table [OF ok c inv s] k(1) by simp
qed

lemma reap_ticks_spare:
  assumes ok: "engine_ok api srv dat inr"
  shows "reap_ticks api maxIdle ts w man = (rs, w', man') \<Longrightarrow> man_inv srv dat w man \<Longrightarrow>
    (\<And>t. t \<in> set ts \<Longrightarrow> distinct (rt_order t)) \<Longrightarrow>
    fmlookup (man_tenants man) k = Some db \<Longrightarrow>
    (\<And>t. t \<in> set ts \<Longrightarrow> IsPending db \<or> time_Sub (rt_now t) (LastActive db) \<le> maxIdle) \<Longrightarrow>
    man_inv srv dat w' man' \<and> fmlookup (man_tenants man') k = Some db \<and>
    man_view dat w' man' k = man_view dat w man k"
proof (induction ts arbitrary: w man rs)
  case Nil
  then show ?case by simp
next
  case (Cons t ts)
  obtain reaped w1 man1 where o:
    "reapInactive api (rt_now t) maxIdle (rt_env t) (rt_order t) w man = (reaped, w1, man1)"
    by (cases "reapInactive api (rt_now t) maxIdle (rt_env t) (rt_order t) w man")
  then obtain rs1 where l: "reap_ticks api maxIdle ts w1 man1 = (rs1, w', man')"
    using Cons.prems(1) by (auto split: prod.splits)
  have d: "distinct (rt_order t)" "IsPending db \<or> time_Sub (rt_now t) (LastActive db) \<le> maxIdle"
    using Cons.prems(3,5) by simp_all
  note P = reap_pass [OF ok Cons.prems(2) d(1) o Cons.prems(4) d(2)]
  show ?case using Cons.IH [OF l P(1) _ P(2)] Cons.prems(3,5) P(3) by simp
qed

end
