(* ===== verification/Status.thy ===== *)
theory Status
  imports Status_Window Status_View Manager_Background
begin

text \<open>
  \<open>server/status.go\<close>: the sampler behind the status page. It records every tracked request,
  measures the disk and the rate of operations now and then, and publishes a view of texts
  every second. The two rings and the feed are those of \<open>Status_Window\<close>. The clock readings
  of an operation are its arguments, in the order of the source. \<open>None\<close> is a panic.
\<close>

section \<open>State\<close>

definition statusPublishInterval :: int where "statusPublishInterval = 1 * Second"
definition statusHealthInterval :: int where "statusHealthInterval = 5 * Second"
definition statusLatWindow :: nat where "statusLatWindow = 4096"
definition statusFeedSize :: nat where "statusFeedSize = 12"

record op_record =
  op_when :: gotime
  op_op :: string
  op_latency :: int
  op_ok :: bool

record sampler =
  sm_startTime :: gotime
  sm_diskUsed :: "64 word"
  sm_writeLat :: lat_ring
  sm_readLat :: lat_ring
  sm_totalOps :: "64 word"
  sm_recentOps :: "op_record list"
  sm_lastOK :: bool
  sm_opsPerSec :: float64
  sm_lastOpsTime :: gotime
  sm_lastOpsCnt :: "64 word"
  sm_snapshot :: "status_view option"

definition NewStatusSampler :: "gotime \<Rightarrow> gotime \<Rightarrow> sampler" where
  "NewStatusSampler t1 t2 =
     \<lparr>sm_startTime = t1, sm_diskUsed = 0, sm_writeLat = newLatRing statusLatWindow,
      sm_readLat = newLatRing statusLatWindow, sm_totalOps = 0, sm_recentOps = [],
      sm_lastOK = True, sm_opsPerSec = Fin 0, sm_lastOpsTime = t2, sm_lastOpsCnt = 0,
      sm_snapshot = None\<rparr>"

section \<open>Texts\<close>

definition em_dash :: string where
  "em_dash = [CHR 0xE2, CHR 0x80, CHR 0x94]"

definition micro_sign :: string where
  "micro_sign = [CHR 0xC2, CHR 0xB5]"

definition humanLatency :: "int \<Rightarrow> string" where
  "humanLatency d =
     (if d < 1000 then fmt_d d @ ''ns''
      else if d < 1000000 then fmt_f 1 (f64_div (f64_of_int d) (Fin 1000)) @ micro_sign @ ''s''
      else fmt_f 2 (f64_div (f64_of_int d) (Fin 1000000)) @ ''ms'')"

definition percentileText :: "lat_ring \<Rightarrow> float64 \<Rightarrow> string option" where
  "percentileText r p =
     (case lr_percentile p r of
        None \<Rightarrow> None
      | Some (d, ok) \<Rightarrow> Some (if \<not> ok then em_dash else humanLatency d))"

text \<open>The loop of \<open>humanBytes\<close>, with its 64-bit divisor and its exponent.\<close>

function unit_loop :: "nat \<Rightarrow> 64 word \<Rightarrow> nat \<Rightarrow> 64 word \<times> nat" where
  "unit_loop m d e = (if 1024 \<le> m then unit_loop (m div 1024) (d * 1024) (e + 1) else (d, e))"
  by pat_completeness auto
termination by (relation "measure (\<lambda>(m, d, e). m)") auto

declare unit_loop.simps [simp del]

definition humanBytes :: "64 word \<Rightarrow> string option" where
  "humanBytes n =
     (if unat n < 1024 then Some (dec_nat (unat n) @ '' B'')
      else
        (case unit_loop (unat n div 1024) 1024 0 of
           (d, e) \<Rightarrow>
             if length ''KMGTPE'' \<le> e then None
             else Some (fmt_f 1 (f64_div (f64_of_int (uint n)) (f64_of_int (uint d))) @
                        '' '' @ [''KMGTPE'' ! e] @ ''B'')))"

definition humanCount :: "64 word \<Rightarrow> string" where
  "humanCount n =
     (if unat n < 1000 then dec_nat (unat n)
      else if unat n < 1000000 then fmt_f 1 (f64_div (f64_of_int (uint n)) (Fin 1000)) @ ''K''
      else fmt_f 2 (f64_div (f64_of_int (uint n)) (Fin 1000000)) @ ''M'')"

text \<open>The days, hours, minutes and seconds of a duration; none of the differences overflows.\<close>

definition uptime_parts :: "int \<Rightarrow> int \<times> int \<times> int \<times> int" where
  "uptime_parts d0 =
     (let d = duration_Round Second d0;
          days = go_div d (24 * Hour); d = d - days * (24 * Hour);
          h = go_div d Hour; d = d - h * Hour;
          m = go_div d Minute; d = d - m * Minute
      in (days, h, m, go_div d Second))"

definition humanUptime :: "int \<Rightarrow> string" where
  "humanUptime d =
     (case uptime_parts d of
        (days, h, m, sec) \<Rightarrow>
          if 0 < days then fmt_d days @ ''d '' @ fmt_d h @ ''h''
          else if 0 < h then fmt_d h @ ''h '' @ fmt_d m @ ''m''
          else if 0 < m then fmt_d m @ ''m '' @ fmt_d sec @ ''s''
          else fmt_d sec @ ''s'')"

section \<open>Recording requests\<close>

text \<open>\<open>copy(ops, ops[1:])\<close> moves the feed by one and leaves the last entry, which is replaced.\<close>

definition feed_add :: "op_record \<Rightarrow> op_record list \<Rightarrow> op_record list" where
  "feed_add rec ops =
     (if length ops < statusFeedSize then ops @ [rec]
      else (tl ops @ [last ops])[length ops - 1 := rec])"

definition sampler_record ::
  "string \<Rightarrow> bool \<Rightarrow> int \<Rightarrow> bool \<Rightarrow> gotime \<Rightarrow> sampler \<Rightarrow> sampler option" where
  "sampler_record op isWrite d ok now s =
     (case (if isWrite
            then map_option (\<lambda>r. s\<lparr>sm_writeLat := r\<rparr>) (lr_add d (sm_writeLat s))
            else map_option (\<lambda>r. s\<lparr>sm_readLat := r\<rparr>) (lr_add d (sm_readLat s))) of
        None \<Rightarrow> None
      | Some s1 \<Rightarrow>
          (let s2 = s1\<lparr>sm_totalOps := sm_totalOps s1 + 1, sm_lastOK := ok\<rparr>;
               rec = \<lparr>op_when = now, op_op = op, op_latency = d, op_ok = ok\<rparr>
           in Some (s2\<lparr>sm_recentOps := feed_add rec (sm_recentOps s2)\<rparr>)))"

text \<open>The operation a request counts as: its name and whether it writes.\<close>

definition classifyRequest :: "string \<Rightarrow> string \<Rightarrow> (string \<times> bool) option" where
  "classifyRequest method' path =
     (if has_prefix path ''/key/'' then
        (if method' = ''GET'' then Some (''GET'', False)
         else if method' = ''PUT'' then Some (''PUT'', True)
         else if method' = ''DELETE'' then Some (''DELETE'', True)
         else None)
      else if path = ''/range'' \<and> method' = ''GET'' then Some (''RANGE'', False)
      else None)"

section \<open>Sampling and publishing\<close>

definition sampleHealth :: "os_error + storage_stats \<Rightarrow> gotime \<Rightarrow> sampler \<Rightarrow> sampler" where
  "sampleHealth stats now s =
     (let s1 = (case stats of Inl e \<Rightarrow> s | Inr st \<Rightarrow> s\<lparr>sm_diskUsed := DiskUsedBytes st\<rparr>);
          elapsed = duration_Seconds (time_Sub now (sm_lastOpsTime s1)) in
      if f64_less (Fin 0) elapsed then
        s1\<lparr>sm_opsPerSec := f64_div (f64_of_int (uint (sm_totalOps s1 - sm_lastOpsCnt s1))) elapsed,
           sm_lastOpsCnt := sm_totalOps s1, sm_lastOpsTime := now\<rparr>
      else s1)"

definition view_op :: "(int \<Rightarrow> int) \<Rightarrow> op_record \<Rightarrow> status_op" where
  "view_op tz r =
     \<lparr>so_When = clock_text tz (op_when r), so_Op = op_op r, so_Latency = humanLatency (op_latency r),
      so_OK = op_ok r\<rparr>"

definition buildView :: "(int \<Rightarrow> int) \<Rightarrow> nat \<Rightarrow> gotime \<Rightarrow> sampler \<Rightarrow> status_view option" where
  "buildView tz tenants now s =
     (case (humanBytes (sm_diskUsed s), percentileText (sm_writeLat s) (Fin 50),
            percentileText (sm_writeLat s) (Fin 99), percentileText (sm_readLat s) (Fin 50),
            percentileText (sm_readLat s) (Fin 99)) of
        (Some disk, Some w50, Some w99, Some r50, Some r99) \<Rightarrow>
          Some \<lparr>sv_Healthy = sm_lastOK s, sv_TenantCount = fmt_d (int tenants), sv_DiskUsed = disk,
            sv_Uptime = humanUptime (time_Sub now (sm_startTime s)), sv_WriteP50 = w50,
            sv_WriteP99 = w99, sv_ReadP50 = r50, sv_ReadP99 = r99,
            sv_OpsPerSec = fmt_f 0 (sm_opsPerSec s), sv_TotalOps = humanCount (sm_totalOps s),
            sv_RecentOps = map (view_op tz) (rev (sm_recentOps s))\<rparr>
      | _ \<Rightarrow> None)"

definition sampler_publish :: "(int \<Rightarrow> int) \<Rightarrow> nat \<Rightarrow> gotime \<Rightarrow> sampler \<Rightarrow> sampler option" where
  "sampler_publish tz tenants now s =
     map_option (\<lambda>v. s\<lparr>sm_snapshot := Some v\<rparr>) (buildView tz tenants now s)"

definition Status :: "sampler \<Rightarrow> status_view" where
  "Status s = (case sm_snapshot s of Some v \<Rightarrow> v | None \<Rightarrow> no_status)"

text \<open>
  One turn of the loop: the reading that decides about the health sample, what \<open>StorageStats\<close>
  and \<open>TenantCount\<close> report, the readings of the sample, after it, and of the view.
\<close>

record tick =
  tk_since :: gotime
  tk_stats :: "os_error + storage_stats"
  tk_sample :: gotime
  tk_after :: gotime
  tk_tenants :: nat
  tk_view :: gotime

text \<open>The loop before the ticker: a first sample and view, then the time of that sample.\<close>

definition loop_start :: "(int \<Rightarrow> int) \<Rightarrow> tick \<Rightarrow> sampler \<Rightarrow> (sampler \<times> gotime) option" where
  "loop_start tz k s =
     map_option (\<lambda>s1. (s1, tk_after k))
       (sampler_publish tz (tk_tenants k) (tk_view k) (sampleHealth (tk_stats k) (tk_sample k) s))"

definition loop_turn :: "(int \<Rightarrow> int) \<Rightarrow> tick \<Rightarrow> sampler \<times> gotime \<Rightarrow> (sampler \<times> gotime) option" where
  "loop_turn tz k = (\<lambda>(s, lastHealth).
     let (s1, lh) =
       (if statusHealthInterval \<le> time_Sub (tk_since k) lastHealth
        then (sampleHealth (tk_stats k) (tk_sample k) s, tk_after k) else (s, lastHealth))
     in map_option (\<lambda>s2. (s2, lh)) (sampler_publish tz (tk_tenants k) (tk_view k) s1))"

text \<open>Recordings and the turns of the loop come in any order, also recordings before its start.\<close>

datatype sampler_event =
    Recorded string bool int bool gotime
  | Started tick
  | Ticked tick

definition sampler_step ::
  "(int \<Rightarrow> int) \<Rightarrow> sampler_event \<Rightarrow> sampler \<times> gotime \<Rightarrow> (sampler \<times> gotime) option" where
  "sampler_step tz e = (\<lambda>(s, lh).
     case e of
       Recorded op isWrite d ok now \<Rightarrow> map_option (\<lambda>s'. (s', lh)) (sampler_record op isWrite d ok now s)
     | Started k \<Rightarrow> loop_start tz k s
     | Ticked k \<Rightarrow> loop_turn tz k (s, lh))"

fun sampler_steps ::
  "(int \<Rightarrow> int) \<Rightarrow> sampler_event list \<Rightarrow> sampler \<times> gotime \<Rightarrow> (sampler \<times> gotime) option" where
  "sampler_steps tz [] s = Some s"
| "sampler_steps tz (e # es) s =
     (case sampler_step tz e s of None \<Rightarrow> None | Some s' \<Rightarrow> sampler_steps tz es s')"

end
