(* ===== verification/Status_Laws.thy ===== *)
theory Status_Laws
  imports Status
begin

text \<open>
  What the status sampler promises: the feed is a bounded history too, the two percentiles of
  the page are exact order statistics, the texts are formed without a panic, and every
  recording and every turn of the loop keeps the state well-formed.
\<close>

section \<open>The feed of recent operations\<close>

lemma feed_add_window:
  "length ops \<le> statusFeedSize \<Longrightarrow> feed_add r ops = window statusFeedSize (ops @ [r])"
proof (cases "length ops < statusFeedSize")
  case True
  then show ?thesis by (simp add: feed_add_def window_short)
next
  case False
  assume "length ops \<le> statusFeedSize"
  with False have l: "length ops = statusFeedSize" by simp
  have "(tl ops @ [last ops])[length ops - 1 := r] = tl ops @ [r]"
    by (simp add: list_update_append)
  then show ?thesis
    using l window_snoc_full [OF l] by (simp add: feed_add_def statusFeedSize_def)
qed

interpretation feed: bounded_history "\<lambda>r ops. Some (feed_add r ops)" "\<lambda>ops. ops"
  "\<lambda>ops. length ops \<le> statusFeedSize" statusFeedSize
  by unfold_locales (auto simp: feed_add_window)

section \<open>The two percentiles of the page\<close>

lemma below_limit: "x \<le> 8192 \<Longrightarrow> x < f64_limit" "- 8192 \<le> x \<Longrightarrow> - f64_limit < x"
proof -
  have l: "(8192 :: rat) < f64_limit" by simp
  show "x < f64_limit" if "x \<le> 8192" using that l by (rule le_less_trans)
  show "- f64_limit < x" if "- 8192 \<le> x"
    using l that by (meson neg_less_iff_less less_le_trans)
qed

lemma pct_index_50:
  assumes "0 < n" "n \<le> 4096"
  shows "pct_index (Fin 50) n = (int n - 1) div 2"
proof -
  let ?k = "int n - 1"
  have K: "f64_of_int ?k = Fin (of_int ?k)" using assms by (intro f64_of_small_int) auto
  have half: "f64_div (Fin 50) (Fin 100) = Fin (1 / 2)" by (simp add: rnd_eval)
  have "round53 (of_int ?k * pow2 (- 1)) = of_int ?k * pow2 (- 1)"
    using assms by (intro round53_exact) auto
  then have r: "round53 (of_int ?k / 2) = of_int ?k / 2" by (simp add: pow2_def)
  have kr: "0 \<le> (of_int ?k :: rat)" "(of_int ?k :: rat) \<le> 4096"
    using assms of_int_le_iff [of ?k 4096, where 'a = rat] by simp_all
  have "(of_int ?k :: rat) / 2 \<le> 8192" "- 8192 \<le> (of_int ?k :: rat) / 2" using kr by simp_all
  from below_limit(1) [OF this(1)] below_limit(2) [OF this(2)]
  have ok: "f64_ok (Fin (of_int ?k / 2))"
    unfolding f64_ok.simps abs_less_iff using r by (simp only: simp_thms)
  have "\<lfloor>(of_int ?k :: rat) / 2\<rfloor> = ?k div 2"
    using floor_divide_of_int_eq [of ?k 2, where 'a = rat] by simp
  moreover have "pct_index (Fin 50) n = f64_to_int (Fin (of_int ?k / 2))"
    unfolding pct_index_def K half using rnd_exact [OF ok] by (simp add: mult.commute)
  moreover have "0 \<le> ?k div 2" "?k div 2 < 4096" using assms by auto
  ultimately show ?thesis using assms kr by (simp add: rat_trunc_def Let_def)
qed

text \<open>
  The binary value of \<open>99/100\<close> is a little below it, so its product with a number that is
  no multiple of 100 stays in the same unit, and the product with a multiple of 100 is rounded
  back up to the integer.
\<close>

definition q99 :: rat where "q99 = 4458563631096791 / 4503599627370496"

lemma rnd_q99: "f64_div (Fin 99) (Fin 100) = Fin q99"
  by (simp add: rnd_eval q99_def)

lemma q99_hundreds:
  "j \<in> set [1..<41] \<Longrightarrow> rnd (q99 * of_int (100 * int j)) = Fin (99 * of_nat j)"
  unfolding q99_def by (simp add: upt_rec) (elim disjE; simp add: rnd_eval)

lemma q99_product:
  assumes k: "0 \<le> k" "k < 4096"
  shows "\<exists>x. rnd (q99 * of_int k) = Fin x \<and> of_int (99 * k div 100) \<le> x \<and> x < of_int (99 * k div 100) + 1"
proof (cases "k mod 100 = 0")
  case True
  then have "int (nat (k div 100)) * 100 = k" using k by auto
  then obtain j where j: "k = 100 * int j" by (metis mult.commute)
  then consider "j = 0" | "j \<in> set [1..<41]" using k by fastforce
  then show ?thesis
  proof cases
    case 1
    then show ?thesis using j by simp
  next
    case 2
    from q99_hundreds [OF this] j show ?thesis by simp
  qed
next
  case False
  define f where "f = 99 * k div 100"
  have "\<not> 100 dvd 99 * k"
  proof
    assume "100 dvd 99 * k"
    then have "100 dvd 100 * k - 99 * k" by (intro dvd_diff) simp_all
    with False show False by (simp add: dvd_eq_mod_eq_0)
  qed
  moreover have "0 \<le> 99 * k mod 100" "99 * k mod 100 < 100" by simp_all
  ultimately have "1 \<le> 99 * k mod 100" "99 * k mod 100 \<le> 99" by (auto simp: dvd_eq_mod_eq_0)
  moreover have "99 * k = 100 * f + 99 * k mod 100" by (simp add: f_def)
  ultimately have f: "100 * f + 1 \<le> 99 * k" "99 * k \<le> 100 * f + 99" by linarith+
  have fb: "0 \<le> f" "f < 4096" using f k by linarith+
  have r: "100 * (of_int f :: rat) + 1 \<le> 99 * of_int k" "99 * (of_int k :: rat) \<le> 100 * of_int f + 99"
    using f of_int_le_iff [of "100 * f + 1" "99 * k", where 'a = rat]
      of_int_le_iff [of "99 * k" "100 * f + 99", where 'a = rat] by simp_all
  have kr: "0 \<le> (of_int k :: rat)" "(of_int k :: rat) \<le> 4096"
    using k of_int_le_iff [of k 4096, where 'a = rat] by simp_all
  have q: "99 / 100 - 1 / 10 ^ 16 \<le> q99" "q99 \<le> 99 / 100" by (simp_all add: q99_def)
  have "(99 / 100 - 1 / 10 ^ 16) * of_int k \<le> q99 * of_int k" "q99 * of_int k \<le> 99 / 100 * of_int k"
    using mult_right_mono [OF q(1) kr(1)] mult_right_mono [OF q(2) kr(1)] by simp_all
  then have lo: "of_int f \<le> q99 * of_int k" and hi: "q99 * of_int k \<le> of_int (128 * f + 127) / 128"
    using r kr by (simp_all add: field_simps)
  have okf: "f64_ok (Fin (of_int f))" using fb by (intro f64_ok_of_small_int) auto
  have "round53 (of_int (128 * f + 127) * pow2 (- 7)) = of_int (128 * f + 127) * pow2 (- 7)"
    using fb by (intro round53_exact) auto
  then have rz: "round53 (of_int (128 * f + 127) / 128) = of_int (128 * f + 127) / 128"
    by (simp add: pow2_def)
  have fr: "0 \<le> (of_int f :: rat)" "(of_int f :: rat) \<le> 4096"
    using fb of_int_le_iff [of f 4096, where 'a = rat] by simp_all
  have "(of_int (128 * f + 127) :: rat) / 128 \<le> 8192" "- 8192 \<le> (of_int (128 * f + 127) :: rat) / 128"
    using fr by simp_all
  from below_limit(1) [OF this(1)] below_limit(2) [OF this(2)]
  have okz: "f64_ok (Fin (of_int (128 * f + 127) / 128))"
    unfolding f64_ok.simps abs_less_iff using rz by (simp only: simp_thms)
  have "f64_le (Fin (of_int f)) (rnd (q99 * of_int k))"
    "f64_le (rnd (q99 * of_int k)) (Fin (of_int (128 * f + 127) / 128))"
    using rnd_mono [OF lo] rnd_mono [OF hi] rnd_exact [OF okf] rnd_exact [OF okz] by simp_all
  then obtain x where "rnd (q99 * of_int k) = Fin x" "of_int f \<le> x" "x \<le> of_int (128 * f + 127) / 128"
    by (cases "rnd (q99 * of_int k)") auto
  then show ?thesis by (auto simp: f_def [symmetric])
qed

lemma pct_index_99:
  assumes "0 < n" "n \<le> 4096"
  shows "pct_index (Fin 99) n = 99 * (int n - 1) div 100"
proof -
  let ?k = "int n - 1" and ?f = "99 * (int n - 1) div 100"
  have K: "f64_of_int ?k = Fin (of_int ?k)" using assms by (intro f64_of_small_int) auto
  obtain x where x: "rnd (q99 * of_int ?k) = Fin x" "of_int ?f \<le> x" "x < of_int ?f + 1"
    using q99_product [of ?k] assms by auto
  have f: "0 \<le> ?f" "?f < 4096" using assms by auto
  have fl: "\<lfloor>x\<rfloor> = ?f" using x(2,3) by (simp add: floor_eq_iff)
  have x0: "0 \<le> x" using x(2) f(1) by (metis of_int_0_le_iff order_trans)
  have "pct_index (Fin 99) n = f64_to_int (Fin x)"
    unfolding pct_index_def K rnd_q99 using x(1) by simp
  also have "\<dots> = ?f"
    unfolding f64_to_int.simps rat_trunc_def Let_def using fl f x0 by simp
  finally show ?thesis .
qed

text \<open>No percentile between 0 and 100 leaves the samples.\<close>

lemma lr_percentile_defined:
  assumes i: "lr_inv n r" "n \<le> 2 ^ 53" and p: "0 \<le> p" "p \<le> 100"
  shows "lr_percentile (Fin p) r =
    (if lr_samples r = [] then Some (0, False)
     else Some (sort (lr_samples r) ! nat (pct_index (Fin p) (length (lr_samples r))), True))"
proof -
  have "length (lr_samples r) \<le> 2 ^ 53" using i by (auto simp: lr_inv_def lr_samples_def)
  with pct_index_mono_bounds [of p p "length (lr_samples r)"] p show ?thesis
    by (auto simp: lr_percentile_samples [OF i(1)])
qed

section \<open>Texts\<close>

lemma unit_loop_spec:
  assumes "m * unat d \<le> N" "N < (m + 1) * unat d" "N < 2 ^ 64" "unat d = 1024 ^ Suc e" "0 < m"
  shows "\<exists>d' e'. unit_loop m d e = (d', e') \<and> unat d' = 1024 ^ Suc e' \<and>
    1024 ^ Suc e' \<le> N \<and> N < 1024 ^ Suc (Suc e') \<and> e' < 6"
  using assms
proof (induction m d e rule: unit_loop.induct)
  case (1 m d e)
  show ?case
  proof (cases "1024 \<le> m")
    case False
    have "1024 ^ Suc e \<le> N" using "1.prems" by (metis mult_le_mono1 Suc_leI mult_1 One_nat_def le_trans)
    moreover have "N < 1024 * unat d"
      using False "1.prems"(2) by (metis Suc_eq_plus1 Suc_leI less_le_trans mult_le_mono1 not_le)
    moreover have "Suc e \<le> 6"
    proof (rule ccontr)
      assume "\<not> Suc e \<le> 6"
      then have "(1024 :: nat) ^ 7 \<le> 1024 ^ Suc e" by (intro power_increasing) auto
      with \<open>1024 ^ Suc e \<le> N\<close> "1.prems"(3) show False by simp
    qed
    ultimately show ?thesis using False "1.prems"(4)
      by (subst unit_loop.simps) auto
  next
    case True
    have md: "1024 * unat d \<le> N" using True "1.prems"(1) by (meson le_trans mult_le_mono1)
    then have lt: "unat d * 1024 < 2 ^ 64" using "1.prems"(3) by (simp add: mult.commute)
    then have u: "unat (d * 1024) = 1024 * unat d" by (simp add: unat_mult_lem [THEN iffD1])
    have q: "m div 1024 * 1024 \<le> m" "m + 1 \<le> (m div 1024 + 1) * 1024" by simp_all
    have "m div 1024 * unat (d * 1024) = m div 1024 * 1024 * unat d" by (simp add: u)
    also have "\<dots> \<le> m * unat d" by (rule mult_le_mono1 [OF q(1)])
    finally have a: "m div 1024 * unat (d * 1024) \<le> N" using "1.prems"(1) by simp
    have "(m + 1) * unat d \<le> (m div 1024 + 1) * 1024 * unat d" by (rule mult_le_mono1 [OF q(2)])
    also have "\<dots> = (m div 1024 + 1) * unat (d * 1024)" by (simp only: u mult.assoc)
    finally have b: "N < (m div 1024 + 1) * unat (d * 1024)" using "1.prems"(2) by simp
    from "1.IH" [OF True a b "1.prems"(3)] u "1.prems"(4) True show ?thesis
      by (subst unit_loop.simps) simp
  qed
qed

lemma humanBytes_spec:
  assumes "1024 \<le> unat n"
  shows "\<exists>(d :: 64 word) e. humanBytes n =
      Some (fmt_f 1 (f64_div (f64_of_int (uint n)) (f64_of_int (uint d))) @ '' '' @ [''KMGTPE'' ! e] @ ''B'') \<and>
    e < 6 \<and> unat d = 1024 ^ Suc e \<and> 1024 ^ Suc e \<le> unat n \<and> unat n < 1024 ^ Suc (Suc e)"
proof -
  let ?m = "unat n div 1024"
  have "?m * unat (1024 :: 64 word) \<le> unat n" "unat n < (?m + 1) * unat (1024 :: 64 word)"
    "unat n < 2 ^ 64" "0 < ?m"
    using assms unsigned_less [of n] by simp_all
  from unit_loop_spec [OF this(1,2,3) _ this(4), of 0] obtain d e where
    "unit_loop ?m 1024 0 = (d, e)" "unat d = 1024 ^ Suc e" "1024 ^ Suc e \<le> unat n"
    "unat n < 1024 ^ Suc (Suc e)" "e < 6" by auto
  then show ?thesis using assms by (intro exI [of _ d] exI [of _ e]) (simp add: humanBytes_def)
qed

lemma humanBytes_defined: "humanBytes n \<noteq> None"
  using humanBytes_spec [of n] by (cases "unat n < 1024") (auto simp: humanBytes_def)

text \<open>One step of \<open>humanUptime\<close> on a whole number of seconds.\<close>

lemma go_div_seconds:
  "0 \<le> q \<Longrightarrow> 0 < c \<Longrightarrow> go_div (q * Second) (c * Second) = q div c"
  by (simp add: duration_units)

lemma uptime_parts_spec:
  assumes "0 \<le> d" "d < 2 ^ 63 - Second"
  shows "let q = (d + 500000000) div Second in
    uptime_parts d = (q div 86400, q mod 86400 div 3600, q mod 3600 div 60, q mod 60)"
proof -
  define q where "q = (d + 500000000) div Second"
  have q: "0 \<le> q" using assms by (simp add: q_def duration_units)
  have R: "duration_Round Second d = q * Second"
    using duration_Round_Second(2) [of d] assms by (simp add: q_def duration_units)
  have u: "24 * Hour = 86400 * Second" "Hour = 3600 * Second" "Minute = 60 * Second" "Second = 1 * Second"
    by (simp_all add: duration_units)
  have s: "q * Second - q div c * (c * Second) = q mod c * Second" for q c
    by (simp add: minus_div_mult_eq_mod [symmetric] left_diff_distrib)
  have m: "q mod 86400 mod 3600 = q mod 3600" "q mod 3600 mod 60 = q mod 60"
    by (simp_all add: mod_mod_cancel)
  have b: "0 \<le> q mod 86400" "0 \<le> q mod 3600" "0 \<le> q mod 60" by simp_all
  have g: "go_div (q mod 60 * Second) Second = q mod 60"
    using go_div_seconds [OF b(3), of 1] by simp
  show ?thesis
    unfolding uptime_parts_def R Let_def q_def [symmetric] u(1)
    unfolding go_div_seconds [OF q, of 86400, simplified] s
    unfolding u(2) go_div_seconds [OF b(1), of 3600, simplified] s m
    unfolding u(3) go_div_seconds [OF b(2), of 60, simplified] s m g by simp
qed

section \<open>The state stays well-formed\<close>

definition sm_inv :: "sampler \<Rightarrow> bool" where
  "sm_inv s \<longleftrightarrow> lr_inv statusLatWindow (sm_writeLat s) \<and> lr_inv statusLatWindow (sm_readLat s) \<and>
     length (sm_recentOps s) \<le> statusFeedSize"

lemma NewStatusSampler_inv: "sm_inv (NewStatusSampler t1 t2)"
  by (simp add: sm_inv_def NewStatusSampler_def statusLatWindow_def)

lemma percentileText_defined:
  "lr_inv statusLatWindow r \<Longrightarrow> 0 \<le> p \<Longrightarrow> p \<le> 100 \<Longrightarrow> percentileText r (Fin p) \<noteq> None"
  by (simp add: percentileText_def lr_percentile_defined [of statusLatWindow] statusLatWindow_def)

lemma buildView_defined: "sm_inv s \<Longrightarrow> \<exists>v. buildView tz n now s = Some v"
  using humanBytes_defined [of "sm_diskUsed s"] percentileText_defined [of "sm_writeLat s" 50]
    percentileText_defined [of "sm_writeLat s" 99] percentileText_defined [of "sm_readLat s" 50]
    percentileText_defined [of "sm_readLat s" 99]
  by (auto simp: buildView_def sm_inv_def)

text \<open>What a health sample and a publication leave alone: the recorded history.\<close>

definition sm_history :: "sampler \<Rightarrow> int list \<times> int list \<times> op_record list \<times> 64 word \<times> bool" where
  "sm_history s = (lr_samples (sm_writeLat s), lr_samples (sm_readLat s), sm_recentOps s,
     sm_totalOps s, sm_lastOK s)"

lemma sampleHealth_keeps:
  "sm_inv (sampleHealth st now s) = sm_inv s" "sm_history (sampleHealth st now s) = sm_history s"
  "sm_snapshot (sampleHealth st now s) = sm_snapshot s"
  by (auto simp: sampleHealth_def Let_def sm_inv_def sm_history_def split: sum.splits)

lemma sampler_publish_spec:
  assumes "sm_inv s"
  shows "\<exists>s' v. sampler_publish tz n now s = Some s' \<and> buildView tz n now s = Some v \<and>
    sm_snapshot s' = Some v \<and> sm_inv s' \<and> sm_history s' = sm_history s"
  using buildView_defined [OF assms, of tz n now] assms
  by (auto simp: sampler_publish_def sm_inv_def sm_history_def)

lemma loop_turn_spec:
  assumes "sm_inv s"
  shows "\<exists>s' lh'. loop_turn tz k (s, lh) = Some (s', lh') \<and> sm_inv s' \<and> sm_history s' = sm_history s"
proof -
  define due where "due \<longleftrightarrow> statusHealthInterval \<le> time_Sub (tk_since k) lh"
  define s1 where "s1 = (if due then sampleHealth (tk_stats k) (tk_sample k) s else s)"
  have "sm_inv s1" "sm_history s1 = sm_history s" using assms by (simp_all add: s1_def sampleHealth_keeps)
  then obtain s' where "sampler_publish tz (tk_tenants k) (tk_view k) s1 = Some s'" "sm_inv s'"
    "sm_history s' = sm_history s" using sampler_publish_spec [of s1] by metis
  then show ?thesis by (auto simp: loop_turn_def due_def [symmetric] s1_def)
qed

lemma loop_start_spec:
  assumes "sm_inv s"
  shows "\<exists>s' lh'. loop_start tz k s = Some (s', lh') \<and> sm_inv s' \<and> sm_history s' = sm_history s"
proof -
  let ?s1 = "sampleHealth (tk_stats k) (tk_sample k) s"
  have "sm_inv ?s1" "sm_history ?s1 = sm_history s" using assms by (simp_all add: sampleHealth_keeps)
  then show ?thesis
    using sampler_publish_spec [of ?s1 tz "tk_tenants k" "tk_view k"] by (auto simp: loop_start_def)
qed

lemma sampler_record_spec:
  assumes i: "sm_inv s"
  shows "\<exists>s'. sampler_record op isWrite d ok now s = Some s' \<and> sm_inv s' \<and>
    lr_samples (sm_writeLat s') = window statusLatWindow (lr_samples (sm_writeLat s) @ (if isWrite then [d] else [])) \<and>
    lr_samples (sm_readLat s') = window statusLatWindow (lr_samples (sm_readLat s) @ (if isWrite then [] else [d])) \<and>
    sm_recentOps s' = window statusFeedSize (sm_recentOps s @
      [\<lparr>op_when = now, op_op = op, op_latency = d, op_ok = ok\<rparr>]) \<and>
    sm_totalOps s' = sm_totalOps s + 1 \<and> sm_lastOK s' = ok"
proof -
  have w: "lr_inv statusLatWindow (sm_writeLat s)" and r: "lr_inv statusLatWindow (sm_readLat s)"
    and l: "length (sm_recentOps s) \<le> statusFeedSize" using i by (simp_all add: sm_inv_def)
  have short: "window statusLatWindow (lr_samples (sm_writeLat s)) = lr_samples (sm_writeLat s)"
    "window statusLatWindow (lr_samples (sm_readLat s)) = lr_samples (sm_readLat s)"
    using ring.contents_le [OF w] ring.contents_le [OF r] by (simp_all add: window_short)
  show ?thesis
    using lr_add_spec [OF w, of d] lr_add_spec [OF r, of d] w r l short
    by (cases isWrite) (auto simp: sampler_record_def sm_inv_def feed_add_window Let_def)
qed

end
