(* ===== verification/Status_Properties.thy ===== *)
theory Status_Properties
  imports Status_Laws
begin

text \<open>
  The properties of the status sampler, over its whole event history, with their witnesses,
  and the property of the disk statistics it shows.
\<close>

section \<open>The history of a run\<close>

fun event_records :: "sampler_event list \<Rightarrow> op_record list" where
  "event_records [] = []"
| "event_records (Recorded op isWrite d ok now # es) =
     \<lparr>op_when = now, op_op = op, op_latency = d, op_ok = ok\<rparr> # event_records es"
| "event_records (e # es) = event_records es"

fun event_latencies :: "bool \<Rightarrow> sampler_event list \<Rightarrow> int list" where
  "event_latencies wr [] = []"
| "event_latencies wr (Recorded op isWrite d ok now # es) =
     (if isWrite = wr then d # event_latencies wr es else event_latencies wr es)"
| "event_latencies wr (e # es) = event_latencies wr es"

lemma event_append:
  "event_records (es @ fs) = event_records es @ event_records fs"
  "event_latencies wr (es @ fs) = event_latencies wr es @ event_latencies wr fs"
  by (induction es rule: event_records.induct) simp_all

lemma sampler_steps_append:
  "sampler_steps tz (es @ fs) s =
     (case sampler_steps tz es s of None \<Rightarrow> None | Some s' \<Rightarrow> sampler_steps tz fs s')"
  by (induction es arbitrary: s) (auto split: option.splits)

definition history_matches :: "sampler_event list \<Rightarrow> sampler \<Rightarrow> bool" where
  "history_matches es s \<longleftrightarrow>
     lr_samples (sm_writeLat s) = window statusLatWindow (event_latencies True es) \<and>
     lr_samples (sm_readLat s) = window statusLatWindow (event_latencies False es) \<and>
     sm_recentOps s = window statusFeedSize (event_records es) \<and>
     sm_totalOps s = of_nat (length (event_records es)) \<and>
     sm_lastOK s = (event_records es = [] \<or> op_ok (last (event_records es)))"

lemma history_matches_eq: "sm_history s' = sm_history s \<Longrightarrow> history_matches es s' = history_matches es s"
  by (simp add: history_matches_def sm_history_def)

lemma sampler_step_history:
  assumes i: "sm_inv s" and h: "history_matches es s"
  shows "\<exists>s' lh'. sampler_step tz e (s, lh) = Some (s', lh') \<and> sm_inv s' \<and> history_matches (es @ [e]) s'"
proof (cases e)
  case (Recorded op isWrite d ok now)
  from sampler_record_spec [OF i, of op isWrite d ok now] obtain s' where
    s': "sampler_record op isWrite d ok now s = Some s'" "sm_inv s'"
    "lr_samples (sm_writeLat s') = window statusLatWindow (lr_samples (sm_writeLat s) @ (if isWrite then [d] else []))"
    "lr_samples (sm_readLat s') = window statusLatWindow (lr_samples (sm_readLat s) @ (if isWrite then [] else [d]))"
    "sm_recentOps s' = window statusFeedSize (sm_recentOps s @
      [\<lparr>op_when = now, op_op = op, op_latency = d, op_ok = ok\<rparr>])"
    "sm_totalOps s' = sm_totalOps s + 1" "sm_lastOK s' = ok" by blast
  have "history_matches (es @ [e]) s'"
    using h s' Recorded by (auto simp: history_matches_def event_append window_append_window)
  with s' Recorded show ?thesis by (simp add: sampler_step_def)
next
  case (Started k)
  from loop_start_spec [OF i, of tz k] obtain s' lh' where
    "loop_start tz k s = Some (s', lh')" "sm_inv s'" "sm_history s' = sm_history s" by blast
  with h Started history_matches_eq [of s' s es] show ?thesis
    by (simp add: sampler_step_def history_matches_def event_append)
next
  case (Ticked k)
  from loop_turn_spec [OF i, of tz k lh] obtain s' lh' where
    "loop_turn tz k (s, lh) = Some (s', lh')" "sm_inv s'" "sm_history s' = sm_history s" by blast
  with h Ticked history_matches_eq [of s' s es] show ?thesis
    by (simp add: sampler_step_def history_matches_def event_append)
qed

lemma sampler_steps_history:
  "\<exists>s lh'. sampler_steps tz es (NewStatusSampler t1 t2, lh) = Some (s, lh') \<and> sm_inv s \<and> history_matches es s"
proof (induction es rule: rev_induct)
  case Nil
  show ?case
    using NewStatusSampler_inv by (simp add: history_matches_def NewStatusSampler_def window_def statusLatWindow_def)
next
  case (snoc e es)
  then obtain s lh' where s: "sampler_steps tz es (NewStatusSampler t1 t2, lh) = Some (s, lh')"
    "sm_inv s" "history_matches es s" by blast
  from sampler_step_history [OF s(2,3), of tz e lh'] s(1) show ?case
    by (auto simp: sampler_steps_append)
qed

section \<open>Properties\<close>

text \<open>
  C29. Any sequence of recordings and turns of the sampler's loop runs without a panic, and its
  bounded buffers hold exactly the end of the whole history: the last 4096 latencies of writes
  and of reads, the last twelve operations, the number of operations modulo \<open>2^64\<close> and whether
  the last one succeeded.
\<close>

theorem sampler_keeps_last:
  "\<exists>s lh'. sampler_steps tz es (NewStatusSampler t1 t2, lh) = Some (s, lh') \<and>
     lr_samples (sm_writeLat s) = window statusLatWindow (event_latencies True es) \<and>
     lr_samples (sm_readLat s) = window statusLatWindow (event_latencies False es) \<and>
     sm_recentOps s = window statusFeedSize (event_records es) \<and>
     sm_totalOps s = of_nat (length (event_records es)) \<and>
     sm_lastOK s = (event_records es = [] \<or> op_ok (last (event_records es)))"
  using sampler_steps_history [of tz es t1 t2 lh] by (auto simp: history_matches_def)

lemma lr_percentile_page:
  assumes i: "lr_inv statusLatWindow r" and n: "lr_samples r \<noteq> []"
  shows "lr_percentile (Fin 50) r = Some (sort (lr_samples r) ! ((length (lr_samples r) - 1) div 2), True)"
    "lr_percentile (Fin 99) r = Some (sort (lr_samples r) ! (99 * (length (lr_samples r) - 1) div 100), True)"
proof -
  let ?n = "length (lr_samples r)"
  have l: "0 < ?n" "?n \<le> 4096" using ring.contents_le [OF i] n by (simp_all add: statusLatWindow_def)
  have d: "int ?n - 1 = int (?n - 1)" using l(1) by linarith
  have "nat (pct_index (Fin 50) ?n) = (?n - 1) div 2" "nat (pct_index (Fin 99) ?n) = 99 * (?n - 1) div 100"
    unfolding pct_index_50 [OF l] pct_index_99 [OF l] d by (simp_all add: nat_div_distrib nat_mult_distrib)
  then show "lr_percentile (Fin 50) r = Some (sort (lr_samples r) ! ((?n - 1) div 2), True)"
    "lr_percentile (Fin 99) r = Some (sort (lr_samples r) ! (99 * (?n - 1) div 100), True)"
    using i n by (simp_all add: lr_percentile_defined [of statusLatWindow] statusLatWindow_def)
qed

lemma percentileText_page:
  assumes i: "lr_inv statusLatWindow r"
  shows "percentileText r (Fin 50) = Some (let xs = sort (lr_samples r) in
      if xs = [] then em_dash else humanLatency (xs ! ((length xs - 1) div 2)))"
    "percentileText r (Fin 99) = Some (let xs = sort (lr_samples r) in
      if xs = [] then em_dash else humanLatency (xs ! (99 * (length xs - 1) div 100)))"
proof -
  have e: "sort (lr_samples r) = [] \<longleftrightarrow> lr_samples r = []" by (metis length_0_conv length_sort)
  have "statusLatWindow \<le> 2 ^ 53" by (simp add: statusLatWindow_def)
  note D = lr_percentile_defined [OF i this]
  show "percentileText r (Fin 50) = Some (let xs = sort (lr_samples r) in
      if xs = [] then em_dash else humanLatency (xs ! ((length xs - 1) div 2)))"
    "percentileText r (Fin 99) = Some (let xs = sort (lr_samples r) in
      if xs = [] then em_dash else humanLatency (xs ! (99 * (length xs - 1) div 100)))"
    using D [of 50] D [of 99] lr_percentile_page [OF i]
    by (cases "lr_samples r = []"; simp add: percentileText_def e)+
qed

text \<open>
  C28. The percentiles of a latency ring that has received the latencies \<open>ds\<close> are those of the
  sorted list of the last 4096 of them: the median is the element of rank
  \<open>\<lfloor>(n-1)/2\<rfloor>\<close> and the 99th percentile that of rank \<open>\<lfloor>99(n-1)/100\<rfloor>\<close>, in spite of the
  binary rounding of \<open>99/100\<close> and of the order in which the ring stores its samples.
\<close>

theorem percentile_of_last_samples:
  assumes "ds \<noteq> []"
  shows "\<exists>r. ring.add_all ds (newLatRing statusLatWindow) = Some r \<and>
    (let xs = sort (window statusLatWindow ds) in
       lr_percentile (Fin 50) r = Some (xs ! ((length xs - 1) div 2), True) \<and>
       lr_percentile (Fin 99) r = Some (xs ! (99 * (length xs - 1) div 100), True))"
proof -
  have "lr_inv statusLatWindow (newLatRing statusLatWindow)" by (simp add: statusLatWindow_def)
  from ring.add_all_window [OF this, of ds] obtain r where
    r: "ring.add_all ds (newLatRing statusLatWindow) = Some r" "lr_inv statusLatWindow r"
      "lr_samples r = window statusLatWindow ds" by auto
  have "lr_samples r \<noteq> []" using assms by (simp add: r(3) window_Nil statusLatWindow_def)
  from lr_percentile_page [OF r(2) this] r(1) show ?thesis by (simp add: r(3) Let_def)
qed

lemma percentile_of_last_samples_witness:
  "\<exists>r. ring.add_all [70, 10, 30] (newLatRing statusLatWindow) = Some r \<and>
     lr_percentile (Fin 50) r = Some (30, True) \<and> lr_percentile (Fin 99) r = Some (30, True)"
  using percentile_of_last_samples [of "[70, 10, 30]"]
  by (simp add: window_def statusLatWindow_def Let_def)

text \<open>
  C30. The page shows the state of its last turn: after a turn of the loop, its feed is the last
  twelve operations with the newest first, it reports healthy exactly when the last operation
  succeeded (or there was none), its counter is that of all operations, and the write
  percentiles are the texts of the ranks above, or a dash when there was no write.
\<close>

theorem status_page_shows_history:
  assumes "sampler_steps tz (es @ [Ticked k]) (NewStatusSampler t1 t2, lh) = Some (s, lh')"
  shows "sv_RecentOps (Status s) = map (view_op tz) (rev (window statusFeedSize (event_records es))) \<and>
    sv_Healthy (Status s) = (event_records es = [] \<or> op_ok (last (event_records es))) \<and>
    sv_TotalOps (Status s) = humanCount (of_nat (length (event_records es))) \<and>
    (let xs = sort (window statusLatWindow (event_latencies True es)) in
       sv_WriteP50 (Status s) =
         (if xs = [] then em_dash else humanLatency (xs ! ((length xs - 1) div 2))) \<and>
       sv_WriteP99 (Status s) =
         (if xs = [] then em_dash else humanLatency (xs ! (99 * (length xs - 1) div 100))))"
proof -
  obtain s0 lh0 where s0: "sampler_steps tz es (NewStatusSampler t1 t2, lh) = Some (s0, lh0)"
    "sm_inv s0" "history_matches es s0" using sampler_steps_history by blast
  define due where "due \<longleftrightarrow> statusHealthInterval \<le> time_Sub (tk_since k) lh0"
  define s1 where "s1 = (if due then sampleHealth (tk_stats k) (tk_sample k) s0 else s0)"
  have i: "sm_inv s1" and h: "history_matches es s1"
    using s0 history_matches_eq [of s1 s0 es] by (simp_all add: s1_def sampleHealth_keeps)
  from sampler_publish_spec [OF i, of tz "tk_tenants k" "tk_view k"] obtain s2 v where
    p: "sampler_publish tz (tk_tenants k) (tk_view k) s1 = Some s2"
    and b: "buildView tz (tk_tenants k) (tk_view k) s1 = Some v" and v: "sm_snapshot s2 = Some v" by blast
  have "s = s2"
    using assms s0(1) p
    by (auto simp: sampler_steps_append sampler_step_def loop_turn_def due_def [symmetric] s1_def split: if_splits)
  then have sv: "Status s = v" using v by (simp add: Status_def)
  have w: "lr_inv statusLatWindow (sm_writeLat s1)" using i by (simp add: sm_inv_def)
  have P: "percentileText (sm_writeLat s1) (Fin 50) = Some (sv_WriteP50 v)"
    "percentileText (sm_writeLat s1) (Fin 99) = Some (sv_WriteP99 v)"
    and V: "sv_RecentOps v = map (view_op tz) (rev (sm_recentOps s1))" "sv_Healthy v = sm_lastOK s1"
    "sv_TotalOps v = humanCount (sm_totalOps s1)"
    using b by (auto simp: buildView_def split: option.splits)
  have x: "lr_samples (sm_writeLat s1) = window statusLatWindow (event_latencies True es)"
    using h by (simp add: history_matches_def)
  have V': "sv_RecentOps v = map (view_op tz) (rev (window statusFeedSize (event_records es)))"
    "sv_Healthy v = (event_records es = [] \<or> op_ok (last (event_records es)))"
    "sv_TotalOps v = humanCount (of_nat (length (event_records es)))"
    unfolding V using h by (simp_all add: history_matches_def)
  note T = percentileText_page [OF w, unfolded x P, simplified option.inject Let_def]
  show ?thesis unfolding sv Let_def by (intro conjI T V')
qed


lemma ex_latency: "rnd (3 / 2) = Fin (3 / 2)"
  by (simp add: rnd_eval)

definition ex_clock :: gotime where
  "ex_clock = \<lparr>wall_ns = 0, mono_ns = None\<rparr>"

definition ex_tick :: tick where
  "ex_tick =
     \<lparr>tk_since = ex_clock, tk_stats = Inl (OsFail ''down''), tk_sample = ex_clock, tk_after = ex_clock,
      tk_tenants = 0, tk_view = ex_clock\<rparr>"

lemma status_page_shows_history_witness:
  "\<exists>s lh'. sampler_steps (\<lambda>t. 0) [Recorded ''PUT'' True 1500000 True ex_clock,
       Recorded ''GET'' False 20 False ex_clock, Ticked ex_tick]
       (NewStatusSampler ex_clock ex_clock, ex_clock) = Some (s, lh') \<and>
     sv_WriteP50 (Status s) = ''1.50ms'' \<and> \<not> sv_Healthy (Status s) \<and> sv_TotalOps (Status s) = ''2''"
proof -
  let ?es = "[Recorded ''PUT'' True 1500000 True ex_clock, Recorded ''GET'' False 20 False ex_clock]"
  obtain s lh' where s: "sampler_steps (\<lambda>t. 0) (?es @ [Ticked ex_tick])
      (NewStatusSampler ex_clock ex_clock, ex_clock) = Some (s, lh')"
    using sampler_steps_history by blast
  have "humanLatency 1500000 = ''1.50ms''"
    unfolding humanLatency_def by (simp add: ex_latency fmt_eval)
  moreover have "humanCount 2 = ''2''"
    by (simp add: humanCount_def fmt_eval)
  ultimately show ?thesis
    using status_page_shows_history [OF s] s
    by (intro exI [of _ s] exI [of _ lh']) (simp add: window_def statusLatWindow_def Let_def)
qed

text \<open>
  C32. The text of a disk size from 1 KiB on takes the largest unit that fits. The loop ends with the divisor
  \<open>1024^(e+1)\<close>, which never overflows 64 bits, where \<open>1024^(e+1) \<le> n < 1024^(e+2)\<close>, so
  the unit is the largest one that fits and the index into \<open>"KMGTPE"\<close> is always in range.
\<close>

theorem disk_text_unit:
  assumes "1024 \<le> unat n"
  shows "\<exists>(d :: 64 word) e. humanBytes n =
      Some (fmt_f 1 (f64_div (f64_of_int (uint n)) (f64_of_int (uint d))) @ '' '' @ [''KMGTPE'' ! e] @ ''B'') \<and>
    e < 6 \<and> unat d = 1024 ^ Suc e \<and> 1024 ^ Suc e \<le> unat n \<and> unat n < 1024 ^ Suc (Suc e)"
  by (rule humanBytes_spec [OF assms])

lemma disk_text_unit_witness: "humanBytes 1536 = Some ''1.5 KB''"
proof -
  have "1024 \<le> unat (1536 :: 64 word)" by simp
  from disk_text_unit [OF this] obtain d :: "64 word" and e where
    h: "humanBytes 1536 = Some (fmt_f 1 (f64_div (f64_of_int (uint (1536 :: 64 word))) (f64_of_int (uint d))) @
      '' '' @ [''KMGTPE'' ! e] @ ''B'')" and d: "unat d = 1024 ^ Suc e" "1024 ^ Suc e \<le> unat (1536 :: 64 word)"
    by blast
  have e: "e = 0"
  proof (cases e)
    case (Suc f)
    have "(1 :: nat) \<le> 1024 ^ f" by simp
    with d(2) Suc show ?thesis by simp
  qed simp
  then have "uint d = 1024" using d(1) by (metis One_nat_def of_nat_numeral power_one_right uint_nat)
  moreover have "f64_div (f64_of_int 1536) (f64_of_int 1024) = Fin (3 / 2)" by (simp add: rnd_eval)
  ultimately show ?thesis using h e by (simp add: fmt_eval)
qed

lemma parts_sum:
  fixes a :: int
  shows "a * 86400 + r = q \<Longrightarrow> b * 3600 + s = r \<Longrightarrow> c * 60 + t = s \<Longrightarrow> ((a * 24 + b) * 60 + c) * 60 + t = q"
  by simp

text \<open>
  The uptime of the page adds up: for any non-negative duration (up to a second below the
  largest), days, hours, minutes and seconds are in range and their total is the duration
  rounded to the nearest second.
\<close>

lemma uptime_adds_up:
  assumes "0 \<le> d" "d < 2 ^ 63 - Second"
  shows "\<exists>days h m sec. uptime_parts d = (days, h, m, sec) \<and> 0 \<le> days \<and> 0 \<le> h \<and> h < 24 \<and>
    0 \<le> m \<and> m < 60 \<and> 0 \<le> sec \<and> sec < 60 \<and>
    ((days * 24 + h) * 60 + m) * 60 + sec = (d + 500000000) div Second"
proof -
  define q where "q = (d + 500000000) div Second"
  have q: "0 \<le> q" using assms by (simp add: q_def duration_units)
  have e: "q div 86400 * 86400 + q mod 86400 = q" "q mod 86400 div 3600 * 3600 + q mod 3600 = q mod 86400"
    "q mod 3600 div 60 * 60 + q mod 60 = q mod 3600"
    using div_mult_mod_eq [of "q mod 86400" 3600] div_mult_mod_eq [of "q mod 3600" 60]
    by (simp_all add: mod_mod_cancel)
  have sum: "((q div 86400 * 24 + q mod 86400 div 3600) * 60 + q mod 3600 div 60) * 60 + q mod 60 = q"
    by (rule parts_sum [OF e])
  have b: "q mod 86400 div 3600 < 24" "q mod 3600 div 60 < 60" "q mod 60 < 60"
    using pos_mod_bound [of 86400 q] pos_mod_bound [of 3600 q] by (simp_all add: div_less_iff_less_mult)
  have n: "0 \<le> q div 86400" "0 \<le> q mod 86400 div 3600" "0 \<le> q mod 3600 div 60" "0 \<le> q mod 60"
    using q by (simp_all add: pos_imp_zdiv_nonneg_iff)
  have p: "uptime_parts d = (q div 86400, q mod 86400 div 3600, q mod 3600 div 60, q mod 60)"
    using uptime_parts_spec [OF assms] unfolding Let_def q_def [symmetric] .
  show ?thesis
    unfolding q_def [symmetric] p prod.inject
    by (intro exI [of _ "q div 86400"] exI [of _ "q mod 86400 div 3600"]
        exI [of _ "q mod 3600 div 60"] exI [of _ "q mod 60"] conjI refl n b sum)
qed

lemma uptime_adds_up_witness: "humanUptime 93784500000000 = ''1d 2h''"
proof -
  have "0 \<le> (93784500000000 :: int)" "(93784500000000 :: int) < 2 ^ 63 - Second"
    by (simp_all add: duration_units)
  from uptime_adds_up [OF this] obtain days h m sec where u: "uptime_parts 93784500000000 = (days, h, m, sec)"
    "0 \<le> h" "h < 24" "0 \<le> m" "m < 60" "0 \<le> sec" "sec < 60"
    "((days * 24 + h) * 60 + m) * 60 + sec = 93785" by (auto simp: duration_units)
  then have t: "93785 = 86400 * days + (h * 3600 + (m * 60 + sec))" by (simp add: algebra_simps)
  have r: "0 \<le> h * 3600 + (m * 60 + sec)" "h * 3600 + (m * 60 + sec) < 86400"
    "0 \<le> m * 60 + sec" "m * 60 + sec < 3600" using u by simp_all
  have "days = 1" using int_div_pos_eq [OF t r(1,2)] by simp
  moreover have t2: "7385 = 3600 * h + (m * 60 + sec)" using t \<open>days = 1\<close> by simp
  have "h = 2" using int_div_pos_eq [OF t2 r(3,4)] by simp
  ultimately show ?thesis using u(1) by (simp add: humanUptime_def fmt_eval)
qed

text \<open>
  The disk footprint is an exact account: it fails exactly with the first error of the walk
  that is not a missing file, and otherwise is the sum, modulo \<open>2^64\<close>, of the space of every
  entry whose metadata could be read; files that vanish during the walk are left out.
\<close>

lemma disk_footprint_accounts:
  "DiskFootprint dk man =
     (let r = dk_walk dk (man_dataRoot man) in
      case first_failure (walk_errors r) of
        Some e \<Rightarrow> Inl e | None \<Rightarrow> Inr (sum_bytes (walk_infos r)))"
  by (rule DiskFootprint_spec)

end
