(* ===== verification/Go_Http.thy ===== *)
theory Go_Http
  imports Go_Path Go_Fmt
begin

text \<open>
  The parts of \<open>net/http\<close> and \<open>encoding/json\<close> the handlers use. A request is what the
  library has parsed from the wire; a handler answers with the calls it makes on its
  \<open>ResponseWriter\<close>, in order, from which the status, the headers and the body of the response
  follow. \<open>ServeMux\<close> may answer with a redirect to the cleaned path instead, and a panic of
  the handler makes the library drop the connection.
\<close>

section \<open>Requests and replies\<close>

text \<open>
  \<open>rq_Path\<close> is the decoded path \<open>URL.Path\<close>, \<open>rq_EscapedPath\<close> the path as it was sent; headers
  and query values are looked up by name, with the empty string for a missing one. The body is
  the bytes that arrive, after which reading fails when \<open>rq_BodyFails\<close>.
\<close>

record http_request =
  rq_Method :: string
  rq_EscapedPath :: string
  rq_Path :: string
  rq_Header :: "string \<Rightarrow> string"
  rq_Query :: "string \<Rightarrow> string"
  rq_Body :: string
  rq_BodyFails :: bool

datatype resp_call = SetHeader string string | WriteHeader int | Write string

datatype reply = Replied "resp_call list" | Redirected string | Panicked

text \<open>The first \<open>WriteHeader\<close> decides the status, a \<open>Write\<close> before it implies 200.\<close>

fun resp_status :: "resp_call list \<Rightarrow> int" where
  "resp_status [] = 200"
| "resp_status (SetHeader k v # cs) = resp_status cs"
| "resp_status (WriteHeader c # cs) = c"
| "resp_status (Write s # cs) = 200"

fun resp_body :: "resp_call list \<Rightarrow> string" where
  "resp_body [] = ''''"
| "resp_body (Write s # cs) = s @ resp_body cs"
| "resp_body (c # cs) = resp_body cs"

text \<open>Headers set after the status line are not sent.\<close>

fun resp_header :: "string \<Rightarrow> resp_call list \<Rightarrow> string option" where
  "resp_header k [] = None"
| "resp_header k (SetHeader j v # cs) =
     (case resp_header k cs of Some u \<Rightarrow> Some u | None \<Rightarrow> if j = k then Some v else None)"
| "resp_header k (c # cs) = None"

text \<open>\<open>http.Error\<close> and \<open>http.NotFound\<close>.\<close>

definition http_Error :: "string \<Rightarrow> int \<Rightarrow> resp_call list" where
  "http_Error msg code =
     [SetHeader ''Content-Type'' ''text/plain; charset=utf-8'',
      SetHeader ''X-Content-Type-Options'' ''nosniff'',
      WriteHeader code, Write (msg @ [newline])]"

definition http_NotFound :: "resp_call list" where
  "http_NotFound = http_Error ''404 page not found'' 404"

text \<open>\<open>io.ReadAll(io.LimitReader(body, n))\<close>: at most \<open>n\<close> bytes; \<open>None\<close> is a read error.\<close>

definition read_limited :: "nat \<Rightarrow> http_request \<Rightarrow> string option" where
  "read_limited n rq =
     (if n \<le> length (rq_Body rq) then Some (take n (rq_Body rq))
      else if rq_BodyFails rq then None else Some (rq_Body rq))"

section \<open>ServeMux\<close>

text \<open>\<open>cleanPath\<close>: rooted, cleaned, with its final slash kept.\<close>

definition cleanPath :: "string \<Rightarrow> string" where
  "cleanPath p0 =
     (if p0 = '''' then ''/''
      else
        let p = (if hd p0 \<noteq> slash then slash # p0 else p0);
            np = path_Clean p
        in if last p = slash \<and> np \<noteq> ''/'' then np @ ''/'' else np)"

text \<open>Percent decoding of one path segment; a malformed one is left as it is.\<close>

definition hex_val :: "char \<Rightarrow> nat option" where
  "hex_val c =
     (let n = (of_char c :: nat) in
      if 48 \<le> n \<and> n \<le> 57 then Some (n - 48)
      else if 97 \<le> n \<and> n \<le> 102 then Some (n - 87)
      else if 65 \<le> n \<and> n \<le> 70 then Some (n - 55) else None)"

fun pct_decode :: "string \<Rightarrow> string option" where
  "pct_decode [] = Some []"
| "pct_decode (c # cs) =
     (if c = CHR ''%'' then
        (case cs of
           a # b # ds \<Rightarrow>
             (case (hex_val a, hex_val b, pct_decode ds) of
                (Some x, Some y, Some s) \<Rightarrow> Some (char_of (16 * x + y) # s) | _ \<Rightarrow> None)
         | _ \<Rightarrow> None)
      else map_option (\<lambda>s. c # s) (pct_decode cs))"

definition pathUnescape :: "string \<Rightarrow> string" where
  "pathUnescape s = (case pct_decode s of Some t \<Rightarrow> t | None \<Rightarrow> s)"

definition path_segments :: "string \<Rightarrow> string list" where
  "path_segments p = map pathUnescape (split_on slash (tl p))"

section \<open>JSON\<close>

text \<open>The length of the UTF-8 sequence at the start of a byte string, 0 for an invalid one.\<close>

definition utf8_cont :: "nat \<Rightarrow> bool" where
  "utf8_cont b \<longleftrightarrow> 128 \<le> b \<and> b \<le> 191"

text \<open>The range of the second byte of a longer sequence depends on the first.\<close>

definition utf8_second :: "nat \<Rightarrow> nat \<Rightarrow> bool" where
  "utf8_second a b \<longleftrightarrow>
     (if a = 224 then 160 else if a = 240 then 144 else 128) \<le> b \<and>
     b \<le> (if a = 237 then 159 else if a = 244 then 143 else 191)"

definition utf8_len :: "string \<Rightarrow> nat" where
  "utf8_len s =
     (case map of_char s :: nat list of
        [] \<Rightarrow> 0
      | a # r \<Rightarrow>
          if a < 128 then 1
          else if 194 \<le> a \<and> a \<le> 223 then
            (case r of b # _ \<Rightarrow> if utf8_cont b then 2 else 0 | _ \<Rightarrow> 0)
          else if 224 \<le> a \<and> a \<le> 239 then
            (case r of b # c # _ \<Rightarrow> if utf8_second a b \<and> utf8_cont c then 3 else 0 | _ \<Rightarrow> 0)
          else if 240 \<le> a \<and> a \<le> 244 then
            (case r of b # c # d # _ \<Rightarrow> if utf8_second a b \<and> utf8_cont c \<and> utf8_cont d then 4 else 0
             | _ \<Rightarrow> 0)
          else 0)"

definition hex4 :: "nat \<Rightarrow> string" where
  "hex4 n = [hex_digit (n div 4096), hex_digit (n div 256 mod 16), hex_digit (n div 16 mod 16), hex_digit (n mod 16)]"

text \<open>One byte below 128, with the HTML characters escaped as \<open>Encoder\<close> does by default.\<close>

definition json_ascii :: "char \<Rightarrow> string" where
  "json_ascii c =
     (let n = (of_char c :: nat) in
      if n = 34 \<or> n = 92 then [CHR 0x5C, c]
      else if n = 8 then [CHR 0x5C, CHR ''b'']
      else if n = 12 then [CHR 0x5C, CHR ''f'']
      else if n = 10 then [CHR 0x5C, CHR ''n'']
      else if n = 13 then [CHR 0x5C, CHR ''r'']
      else if n = 9 then [CHR 0x5C, CHR ''t'']
      else if n < 32 \<or> n = 60 \<or> n = 62 \<or> n = 38 then CHR 0x5C # CHR ''u'' # hex4 n
      else [c])"

definition line_sep :: string where "line_sep = [CHR 0xE2, CHR 0x80, CHR 0xA8]"
definition para_sep :: string where "para_sep = [CHR 0xE2, CHR 0x80, CHR 0xA9]"

text \<open>An invalid byte becomes the escape of the replacement character.\<close>

function json_chars :: "string \<Rightarrow> string" where
  "json_chars s =
     (if s = [] then []
      else
        let n = utf8_len s in
        if n = 0 then CHR 0x5C # ''ufffd'' @ json_chars (tl s)
        else if n = 1 then json_ascii (hd s) @ json_chars (tl s)
        else if take n s = line_sep then CHR 0x5C # ''u2028'' @ json_chars (drop n s)
        else if take n s = para_sep then CHR 0x5C # ''u2029'' @ json_chars (drop n s)
        else take n s @ json_chars (drop n s))"
  by pat_completeness auto
termination by (relation "measure length") auto

declare json_chars.simps [simp del]

definition json_string :: "string \<Rightarrow> string" where
  "json_string s = CHR 0x22 # json_chars s @ [CHR 0x22]"

text \<open>Objects of strings in the order given (\<open>Encode\<close> sorts the keys of a map), and arrays.\<close>

definition json_member :: "string \<Rightarrow> string \<Rightarrow> string" where
  "json_member k v = json_string k @ '':'' @ v"

definition json_object :: "string list \<Rightarrow> string" where
  "json_object ms = ''{'' @ join_with (CHR '','') ms @ ''}''"

definition json_array :: "string list \<Rightarrow> string" where
  "json_array vs = ''['' @ join_with (CHR '','') vs @ '']''"

end
