(* ===== verification/Public_Api.thy ===== *)
theory Public_Api
  imports Go_Http Status_Laws Server_System
begin

text \<open>
  \<open>server/public.go\<close>, the HTTP interface of the store, and the wrappers of \<open>server/main.go\<close>
  and \<open>server/status.go\<close> around it: CORS, the recording of requests for the status page and
  the request log. A handler takes the environment of the call, the request, the world and the
  manager.
\<close>

section \<open>The wrappers\<close>

text \<open>
  \<open>statusWriter\<close> embeds the \<open>ResponseWriter\<close> it is given, so that headers and bodies go to it
  directly; its own \<open>WriteHeader\<close> keeps the status and passes it on. The first field is what
  the embedded writer has been given so far.
\<close>

record status_writer =
  sw_ResponseWriter :: "resp_call list"
  sw_code :: int

definition sw_forward :: "resp_call \<Rightarrow> status_writer \<Rightarrow> status_writer" where
  "sw_forward c w = w\<lparr>sw_ResponseWriter := sw_ResponseWriter w @ [c]\<rparr>"

definition sw_WriteHeader :: "int \<Rightarrow> status_writer \<Rightarrow> status_writer" where
  "sw_WriteHeader code w = (let w1 = w\<lparr>sw_code := code\<rparr> in sw_forward (WriteHeader code) w1)"

fun sw_call :: "resp_call \<Rightarrow> status_writer \<Rightarrow> status_writer" where
  "sw_call (WriteHeader code) w = sw_WriteHeader code w"
| "sw_call (SetHeader k v) w = sw_forward (SetHeader k v) w"
| "sw_call (Write s) w = sw_forward (Write s) w"

text \<open>
  What the client gets of a reply made on a fresh \<open>statusWriter\<close>, and the status it holds in the
  end, if the handler returns. A redirect is made by the library with one \<open>WriteHeader\<close> of
  status 307.
\<close>

definition through_statusWriter :: "reply \<Rightarrow> reply \<times> int option" where
  "through_statusWriter r =
     (case r of
        Replied cs \<Rightarrow>
          (let sw = fold sw_call cs \<lparr>sw_ResponseWriter = [], sw_code = 200\<rparr>
           in (Replied (sw_ResponseWriter sw), Some (sw_code sw)))
      | Redirected p \<Rightarrow> (Redirected p, Some 307)
      | Panicked \<Rightarrow> (Panicked, None))"
definition cors_headers :: "resp_call list" where
  "cors_headers =
     [SetHeader ''Access-Control-Allow-Origin'' ''*'',
      SetHeader ''Access-Control-Allow-Methods'' ''GET, PUT, DELETE, OPTIONS'',
      SetHeader ''Access-Control-Allow-Headers'' ''Content-Type, X-Api-Key'']"

definition add_calls :: "resp_call list \<Rightarrow> reply \<Rightarrow> reply" where
  "add_calls cs r = (case r of Replied ds \<Rightarrow> Replied (cs @ ds) | _ \<Rightarrow> r)"

definition WithCORS ::
  "(http_request \<Rightarrow> 's \<Rightarrow> reply \<times> 's) \<Rightarrow> http_request \<Rightarrow> 's \<Rightarrow> reply \<times> 's" where
  "WithCORS h rq s =
     (if rq_Method rq = ''OPTIONS'' then (Replied (cors_headers @ [WriteHeader 204]), s)
      else (case h rq s of (r, s') \<Rightarrow> (add_calls cors_headers r, s')))"

text \<open>The log line of a verbose server: method and status. A panic skips it.\<close>

definition withLogging ::
  "(http_request \<Rightarrow> 's \<Rightarrow> reply \<times> 's) \<Rightarrow> bool \<Rightarrow> http_request \<Rightarrow> 's \<Rightarrow> reply \<times> 's \<times> (string \<times> int) list" where
  "withLogging h verbose rq s =
     (case h rq s of
        (r, s') \<Rightarrow>
          (case through_statusWriter r of
             (r', Some code) \<Rightarrow> (r', s', if verbose then [(rq_Method rq, code)] else [])
           | (r', None) \<Rightarrow> (r', s', [])))"

text \<open>
  \<open>Measure\<close>: the readings are the one before the request, the one of \<open>time.Since\<close>, and that of
  the record. The inner handler runs on its part of the state.
\<close>

definition Measure ::
  "(http_request \<Rightarrow> 's \<Rightarrow> reply \<times> 's) \<Rightarrow> gotime \<Rightarrow> gotime \<Rightarrow> gotime \<Rightarrow> http_request \<Rightarrow>
   's \<times> sampler \<Rightarrow> (reply \<times> 's \<times> sampler) option" where
  "Measure h t0 t1 now rq = (\<lambda>(s, sm).
     case classifyRequest (rq_Method rq) (rq_Path rq) of
       None \<Rightarrow> (case h rq s of (r, s') \<Rightarrow> Some (r, s', sm))
     | Some (op, isWrite) \<Rightarrow>
         (case h rq s of
            (r, s') \<Rightarrow>
              (case through_statusWriter r of
                 (r', None) \<Rightarrow> Some (r', s', sm)
               | (r', Some code) \<Rightarrow>
                   map_option (\<lambda>sm'. (r', s', sm'))
                     (sampler_record op isWrite (time_Sub t1 t0) (code < 400) now sm))))"

section \<open>The handlers\<close>

type_synonym ('h, 'w) srv_state = "'w world \<times> 'h manager"

definition MaxValueBytes :: nat where "MaxValueBytes = 50 * 1024 * 1024"

definition store_Error :: "store_error \<Rightarrow> reply" where
  "store_Error e = Replied (http_Error (se_Message e) (se_Status e))"

definition not_allowed :: reply where
  "not_allowed = Replied (http_Error ''method not allowed'' 405)"

definition no_content :: reply where
  "no_content = Replied [WriteHeader 204]"

definition json_reply :: "string \<Rightarrow> reply" where
  "json_reply v = Replied [SetHeader ''Content-Type'' ''application/json'', Write (v @ [newline])]"

text \<open>The answer to the result of a request: an error, a panic, or the answer to its value.\<close>

definition answer :: "('a \<Rightarrow> reply) \<Rightarrow> 'a result \<Rightarrow> reply" where
  "answer f r = (case r of Ok a \<Rightarrow> f a | Err e \<Rightarrow> store_Error e | Crash \<Rightarrow> Panicked)"

definition json_kv :: "kv \<Rightarrow> string" where
  "json_kv p = json_object [json_member ''key'' (json_string (kv_Key p)),
                            json_member ''value'' (json_string (kv_Value p))]"

definition json_pairs :: "kv list option \<Rightarrow> string" where
  "json_pairs r = (case r of None \<Rightarrow> ''null'' | Some ps \<Rightarrow> json_array (map json_kv ps))"

definition provision_handler ::
  "('h, 'w) fredb_api \<Rightarrow> env \<Rightarrow> http_request \<Rightarrow> ('h, 'w) srv_state \<Rightarrow> reply \<times> ('h, 'w) srv_state" where
  "provision_handler api ev rq = (\<lambda>(w, man).
     if rq_Method rq = ''POST'' then
       (case RequestProvision ev w man of
          (Inl e, s) \<Rightarrow> (Replied (http_Error e 500), s)
        | (Inr apiKey, s) \<Rightarrow> (json_reply (json_object [json_member ''api_key'' (json_string apiKey)]), s))
     else if rq_Method rq = ''DELETE'' then
       (case Deprovision api ev (rq_Header rq ''X-Api-Key'') w man of
          (Some e, s) \<Rightarrow> (store_Error e, s)
        | (None, s) \<Rightarrow> (no_content, s))
     else (not_allowed, w, man))"

definition key_handler ::
  "('h, 'w) fredb_api \<Rightarrow> env \<Rightarrow> http_request \<Rightarrow> ('h, 'w) srv_state \<Rightarrow> reply \<times> ('h, 'w) srv_state" where
  "key_handler api ev rq = (\<lambda>(w, man).
     let apiKey = rq_Header rq ''X-Api-Key'';
         key = trim_prefix (rq_Path rq) ''/key/'' in
     if rq_Method rq = ''GET'' then
       (case man_serve (\<lambda>ev w db. db_Get api ev key w db) ev apiKey w man of
          (r, s) \<Rightarrow>
            (answer (\<lambda>(val, ok). Replied (if \<not> ok then http_NotFound else [Write val])) r, s))
     else if rq_Method rq = ''PUT'' then
       (case read_limited (MaxValueBytes + 1) rq of
          None \<Rightarrow> (Replied (http_Error ''failed to read body'' 400), w, man)
        | Some body \<Rightarrow>
            (case man_serve (\<lambda>ev w db. db_Put api ev key body w db) ev apiKey w man of
               (r, s) \<Rightarrow> (answer (\<lambda>_. no_content) r, s)))
     else if rq_Method rq = ''DELETE'' then
       (case man_serve (\<lambda>ev w db. db_Delete api ev key w db) ev apiKey w man of
          (r, s) \<Rightarrow> (answer (\<lambda>_. no_content) r, s))
     else (not_allowed, w, man))"

definition range_handler ::
  "('h, 'w) fredb_api \<Rightarrow> env \<Rightarrow> http_request \<Rightarrow> ('h, 'w) srv_state \<Rightarrow> reply \<times> ('h, 'w) srv_state" where
  "range_handler api ev rq = (\<lambda>(w, man).
     if rq_Method rq \<noteq> ''GET'' then (not_allowed, w, man)
     else
       (case man_serve (\<lambda>ev w db. db_Range api ev (rq_Query rq ''start'') (rq_Query rq ''end'') w db) ev
               (rq_Header rq ''X-Api-Key'') w man of
          (r, s) \<Rightarrow> (answer (\<lambda>pairs. json_reply (json_pairs pairs)) r, s)))"

text \<open>The three patterns of the mux, in the order in which they cannot overlap.\<close>

definition public_mux ::
  "('h, 'w) fredb_api \<Rightarrow> env \<Rightarrow> http_request \<Rightarrow> ('h, 'w) srv_state \<Rightarrow> reply \<times> ('h, 'w) srv_state" where
  "public_mux api ev rq s =
     (let p = (if rq_Method rq = ''CONNECT'' then rq_EscapedPath rq else cleanPath (rq_EscapedPath rq));
          segs = path_segments p in
      if segs = [''key''] then (Redirected ''/key/'', s)
      else if p \<noteq> rq_EscapedPath rq then (Redirected p, s)
      else if segs = [''provision''] then provision_handler api ev rq s
      else if segs = [''range''] then range_handler api ev rq s
      else if hd segs = ''key'' then key_handler api ev rq s
      else (Replied http_NotFound, s))"

definition NewPublicHandler ::
  "('h, 'w) fredb_api \<Rightarrow> env \<Rightarrow> http_request \<Rightarrow> ('h, 'w) srv_state \<Rightarrow> reply \<times> ('h, 'w) srv_state" where
  "NewPublicHandler api ev = WithCORS (public_mux api ev)"

end
