(* ===== verification/Public_Laws.thy ===== *)
theory Public_Laws
  imports Public_Api
begin

text \<open>
  The HTTP interface as a refinement. \<open>http_step\<close> says, over the abstract store alone, what each
  request may be answered and what the answer means for the data: the route, the method and the
  status of the reply leave one rule. Every answered request of the public handler is such a
  step, by way of the steps of \<open>Server_System\<close>. The laws of the wrapper \<open>statusWriter\<close> come
  first.
\<close>

section \<open>Reading a reply\<close>

definition reply_status :: "reply \<Rightarrow> int" where
  "reply_status r = (case r of Replied cs \<Rightarrow> resp_status cs | Redirected p \<Rightarrow> 307 | Panicked \<Rightarrow> 0)"

definition reply_body :: "reply \<Rightarrow> string" where
  "reply_body r = (case r of Replied cs \<Rightarrow> resp_body cs | _ \<Rightarrow> '''')"

lemma resp_append [simp]:
  "resp_status (SetHeader k v # cs) = resp_status cs"
  "resp_status (cors_headers @ cs) = resp_status cs" "resp_body (cors_headers @ cs) = resp_body cs"
  by (simp_all add: cors_headers_def)

lemma reply_cors [simp]:
  "reply_status (add_calls cors_headers r) = reply_status r"
  "reply_body (add_calls cors_headers r) = reply_body r"
  "add_calls cors_headers r = Redirected p \<longleftrightarrow> r = Redirected p"
  "add_calls cors_headers r = Panicked \<longleftrightarrow> r = Panicked"
  by (cases r; simp add: reply_status_def reply_body_def add_calls_def)+

lemma reply_eval [simp]:
  "reply_status (store_Error e) = se_Status e" "reply_body (store_Error e) = se_Message e @ [newline]"
  "reply_status (Replied (http_Error m c)) = c" "reply_body (Replied (http_Error m c)) = m @ [newline]"
  "reply_status not_allowed = 405" "reply_status no_content = 204"
  "reply_status (Replied http_NotFound) = 404"
  "reply_status (json_reply v) = 200" "reply_body (json_reply v) = v @ [newline]"
  "reply_status (Replied [Write v]) = 200" "reply_body (Replied [Write v]) = v"
  "reply_status (Replied [WriteHeader c]) = c"
  "reply_status (Redirected p) = 307" "reply_status Panicked = 0"
  by (simp_all add: reply_status_def reply_body_def store_Error_def http_Error_def not_allowed_def
      no_content_def http_NotFound_def json_reply_def)

definition client_key :: "http_request \<Rightarrow> string" where
  "client_key rq = rq_Header rq ''X-Api-Key''"

definition path_key :: "http_request \<Rightarrow> string" where
  "path_key rq = trim_prefix (rq_Path rq) ''/key/''"

section \<open>The wrapper that keeps the status\<close>

text \<open>What the writer holds after a list of calls: the last status it was given.\<close>

fun last_status :: "int \<Rightarrow> resp_call list \<Rightarrow> int" where
  "last_status code [] = code"
| "last_status code (WriteHeader c # cs) = last_status c cs"
| "last_status code (x # cs) = last_status code cs"

lemma sw_calls: "fold sw_call cs w =
    \<lparr>sw_ResponseWriter = sw_ResponseWriter w @ cs, sw_code = last_status (sw_code w) cs\<rparr>"
proof (induction cs arbitrary: w)
  case (Cons c cs)
  then show ?case by (cases c) (simp_all add: sw_forward_def sw_WriteHeader_def Let_def)
qed simp

lemma through_statusWriter_reply: "fst (through_statusWriter r) = r"
  by (simp add: through_statusWriter_def sw_calls Let_def split: reply.splits)

lemma through_statusWriter_code:
  "snd (through_statusWriter r) =
     (case r of Replied cs \<Rightarrow> Some (last_status 200 cs) | Redirected p \<Rightarrow> Some 307 | Panicked \<Rightarrow> None)"
  by (simp add: through_statusWriter_def sw_calls Let_def split: reply.splits)

lemma withLogging_passes:
  "withLogging h verbose rq s = (r, s', lg) \<Longrightarrow> h rq s = (r, s')"
proof -
  assume call: "withLogging h verbose rq s = (r, s', lg)"
  obtain r0 s0 where h: "h rq s = (r0, s0)" by (cases "h rq s")
  obtain r1 code where t: "through_statusWriter r0 = (r1, code)" by (cases "through_statusWriter r0")
  have "r1 = r0" using through_statusWriter_reply [of r0] t by simp
  with call h t show ?thesis by (cases code) (simp_all add: withLogging_def)
qed

text \<open>
  A reply whose kept status is the one the client gets: \<open>net/http\<close> sends the first status,
  the writer keeps the last.
\<close>

definition status_kept :: "reply \<Rightarrow> bool" where
  "status_kept r \<longleftrightarrow> (r \<noteq> Panicked \<longrightarrow> snd (through_statusWriter r) = Some (reply_status r))"

lemma status_kept_eval [simp]:
  "status_kept (store_Error e)" "status_kept (Replied (http_Error m c))" "status_kept not_allowed"
  "status_kept no_content" "status_kept (Replied http_NotFound)" "status_kept (json_reply v)"
  "status_kept (Replied [Write v])" "status_kept (Replied [WriteHeader c])"
  "status_kept (Redirected p)" "status_kept Panicked"
  "status_kept (add_calls cors_headers r) = status_kept r"
  by (cases r; simp add: status_kept_def through_statusWriter_code reply_status_def store_Error_def
      http_Error_def not_allowed_def no_content_def http_NotFound_def json_reply_def add_calls_def
      cors_headers_def)+

lemma answer_status_kept:
  "(\<And>a. x = Ok a \<Longrightarrow> status_kept (f a)) \<Longrightarrow> status_kept (answer f x)"
  by (cases x) (simp_all add: answer_def)

lemma public_status_kept: "status_kept (fst (NewPublicHandler api ev rq s))"
proof -
  have "status_kept (fst (provision_handler api ev rq s))" "status_kept (fst (range_handler api ev rq s))"
    "status_kept (fst (key_handler api ev rq s))"
    by (auto simp: provision_handler_def range_handler_def key_handler_def Let_def
        intro!: answer_status_kept split: prod.splits sum.splits option.splits)
  then have "status_kept (fst (public_mux api ev rq s))"
    by (auto simp: public_mux_def Let_def)
  moreover have "status_kept (Replied (cors_headers @ [WriteHeader 204]))"
    using status_kept_eval(11) [of "Replied [WriteHeader 204]"] by (simp add: add_calls_def)
  ultimately show ?thesis
    by (auto simp: NewPublicHandler_def WithCORS_def split: prod.splits)
qed

section \<open>What HTTP promises over the store\<close>

text \<open>Where a request goes, from its path as it was sent.\<close>

datatype route = To_redirect string | To_provision | To_range | To_key | To_nowhere

definition public_route :: "http_request \<Rightarrow> route" where
  "public_route rq =
     (let p = (if rq_Method rq = ''CONNECT'' then rq_EscapedPath rq else cleanPath (rq_EscapedPath rq));
          segs = path_segments p in
      if segs = [''key''] then To_redirect ''/key/''
      else if p \<noteq> rq_EscapedPath rq then To_redirect p
      else if segs = [''provision''] then To_provision
      else if segs = [''range''] then To_range
      else if hd segs = ''key'' then To_key
      else To_nowhere)"

text \<open>The methods of each route.\<close>

fun route_methods :: "route \<Rightarrow> string list" where
  "route_methods To_provision = [''POST'', ''DELETE'']"
| "route_methods To_range = [''GET'']"
| "route_methods To_key = [''GET'', ''PUT'', ''DELETE'']"
| "route_methods r = []"

definition goes :: "http_request \<Rightarrow> route \<Rightarrow> string \<Rightarrow> bool" where
  "goes rq d m \<longleftrightarrow> m \<noteq> ''OPTIONS'' \<and> public_route rq = d \<and> rq_Method rq = m"

text \<open>The reply has this status and this body; it reports this error of the store.\<close>

definition says :: "reply \<Rightarrow> int \<Rightarrow> string \<Rightarrow> bool" where
  "says r c b \<longleftrightarrow> reply_status r = c \<and> reply_body r = b"

definition reports :: "reply \<Rightarrow> store_error \<Rightarrow> bool" where
  "reports r x \<longleftrightarrow> says r (se_Status x) (se_Message x @ [newline])"

text \<open>The bytes of the body a \<open>PUT\<close> stores, if they can be read.\<close>

abbreviation put_body :: "http_request \<Rightarrow> string option" where
  "put_body \<equiv> read_limited (MaxValueBytes + 1)"

text \<open>The errors each operation may report; 503 stands for a failure of the engine.\<close>

definition read_error :: "string \<Rightarrow> store_error \<Rightarrow> bool" where
  "read_error key x \<longleftrightarrow>
     (if key = '''' then x = errEmptyKey else x = ErrRateLimited \<or> (\<exists>e. x = errUnavailable e))"

definition range_error :: "string \<Rightarrow> string \<Rightarrow> store_error \<Rightarrow> bool" where
  "range_error s e x \<longleftrightarrow>
     (if s = '''' \<or> e = '''' then x = errEmptyRangeBounds
      else x = ErrRateLimited \<or> (\<exists>e. x = errUnavailable e))"

definition write_error :: "string \<Rightarrow> store_error \<Rightarrow> bool" where
  "write_error key x \<longleftrightarrow>
     (if key = '''' then x = errEmptyKey
      else x \<in> {ErrTooLarge, ErrRateLimited, errStorageFull} \<or>
        (\<exists>e. x = errInternal e \<or> x = errUnavailable e))"

text \<open>
  Two stores that differ in at most one tenant. A write or a removal that reports a failed
  engine may have had its effect or not, but on that tenant only.
\<close>

definition same_but :: "string \<Rightarrow> store \<Rightarrow> store \<Rightarrow> bool" where
  "same_but k S S' \<longleftrightarrow> (\<forall>j. j \<noteq> k \<longrightarrow> S' j = S j)"

inductive http_step ::
  "(string \<Rightarrow> string \<Rightarrow> string \<Rightarrow> bool) \<Rightarrow> store \<Rightarrow> http_request \<Rightarrow> reply \<Rightarrow> store \<Rightarrow> bool"
  for inr where
  http_options: "rq_Method rq = ''OPTIONS'' \<Longrightarrow> says r 204 '''' \<Longrightarrow> http_step inr S rq r S"
| http_redirect: "goes rq (To_redirect p) m \<Longrightarrow> r = Redirected p \<Longrightarrow> http_step inr S rq r S"
| http_nowhere: "goes rq To_nowhere m \<Longrightarrow> says r 404 (''404 page not found'' @ [newline]) \<Longrightarrow>
    http_step inr S rq r S"
| http_method: "goes rq d m \<Longrightarrow> d \<in> {To_provision, To_range, To_key} \<Longrightarrow> m \<notin> set (route_methods d) \<Longrightarrow>
    says r 405 (''method not allowed'' @ [newline]) \<Longrightarrow> http_step inr S rq r S"
| http_provision: "goes rq To_provision ''POST'' \<Longrightarrow>
    says r 200 (json_object [json_member ''api_key'' (json_string k)] @ [newline]) \<Longrightarrow>
    S k = None \<Longrightarrow> http_step inr S rq r (S(k \<mapsto> Map.empty))"
| http_provision_failed: "goes rq To_provision ''POST'' \<Longrightarrow> says r 500 (e @ [newline]) \<Longrightarrow>
    http_step inr S rq r S"
| http_deprovision: "goes rq To_provision ''DELETE'' \<Longrightarrow> says r 204 '''' \<Longrightarrow> client_key rq \<in> dom S \<Longrightarrow>
    http_step inr S rq r (S(client_key rq := None))"
| http_not_provisioned: "goes rq To_provision ''DELETE'' \<Longrightarrow>
    reports r (errNotProvisioned (client_key rq)) \<Longrightarrow> client_key rq \<notin> dom S \<Longrightarrow> http_step inr S rq r S"
| http_deprovision_failed: "goes rq To_provision ''DELETE'' \<Longrightarrow> reports r (errInternal e) \<Longrightarrow>
    client_key rq \<in> dom S \<Longrightarrow> same_but (client_key rq) S S' \<Longrightarrow> http_step inr S rq r S'"
| http_unreadable: "goes rq To_key ''PUT'' \<Longrightarrow> put_body rq = None \<Longrightarrow>
    says r 400 (''failed to read body'' @ [newline]) \<Longrightarrow> http_step inr S rq r S"
| http_unknown: "goes rq d m \<Longrightarrow> d \<in> {To_range, To_key} \<Longrightarrow> m \<in> set (route_methods d) \<Longrightarrow>
    (m = ''PUT'' \<longrightarrow> put_body rq \<noteq> None) \<Longrightarrow> client_key rq \<notin> dom S \<Longrightarrow> reports r ErrUnknownAPIKey \<Longrightarrow>
    http_step inr S rq r S"
| http_get: "goes rq To_key ''GET'' \<Longrightarrow> S (client_key rq) = Some m \<Longrightarrow> says r 200 v \<Longrightarrow>
    (short_values m \<longrightarrow> m (path_key rq) = Some v) \<Longrightarrow> http_step inr S rq r S"
| http_get_none: "goes rq To_key ''GET'' \<Longrightarrow> S (client_key rq) = Some m \<Longrightarrow>
    says r 404 (''404 page not found'' @ [newline]) \<Longrightarrow>
    (short_values m \<longrightarrow> m (path_key rq) = None) \<Longrightarrow> http_step inr S rq r S"
| http_get_refused: "goes rq To_key ''GET'' \<Longrightarrow> client_key rq \<in> dom S \<Longrightarrow> reports r x \<Longrightarrow>
    read_error (path_key rq) x \<Longrightarrow> http_step inr S rq r S"
| http_put: "goes rq To_key ''PUT'' \<Longrightarrow> S (client_key rq) = Some m \<Longrightarrow> put_body rq = Some v \<Longrightarrow>
    says r 204 '''' \<Longrightarrow> http_step inr S rq r (S(client_key rq \<mapsto> m(path_key rq \<mapsto> v)))"
| http_put_refused: "goes rq To_key ''PUT'' \<Longrightarrow> client_key rq \<in> dom S \<Longrightarrow> put_body rq = Some v \<Longrightarrow>
    reports r x \<Longrightarrow> write_error (path_key rq) x \<Longrightarrow> same_but (client_key rq) S S' \<Longrightarrow> dom S' = dom S \<Longrightarrow>
    (se_Status x \<noteq> 503 \<Longrightarrow> S' = S) \<Longrightarrow> http_step inr S rq r S'"
| http_delete: "goes rq To_key ''DELETE'' \<Longrightarrow> S (client_key rq) = Some m \<Longrightarrow> says r 204 '''' \<Longrightarrow>
    http_step inr S rq r (S(client_key rq \<mapsto> m(path_key rq := None)))"
| http_delete_refused: "goes rq To_key ''DELETE'' \<Longrightarrow> client_key rq \<in> dom S \<Longrightarrow> reports r x \<Longrightarrow>
    read_error (path_key rq) x \<Longrightarrow> same_but (client_key rq) S S' \<Longrightarrow> dom S' = dom S \<Longrightarrow>
    (se_Status x \<noteq> 503 \<Longrightarrow> S' = S) \<Longrightarrow> http_step inr S rq r S'"
| http_range: "goes rq To_range ''GET'' \<Longrightarrow> S (client_key rq) = Some m \<Longrightarrow>
    says r 200 (json_pairs ps @ [newline]) \<Longrightarrow>
    (range_fits inr m (rq_Query rq ''start'') (rq_Query rq ''end'') \<longrightarrow>
       is_range inr m (rq_Query rq ''start'') (rq_Query rq ''end'') (case ps of None \<Rightarrow> [] | Some kvs \<Rightarrow> kvs)) \<Longrightarrow>
    http_step inr S rq r S"
| http_range_refused: "goes rq To_range ''GET'' \<Longrightarrow> client_key rq \<in> dom S \<Longrightarrow> reports r x \<Longrightarrow>
    range_error (rq_Query rq ''start'') (rq_Query rq ''end'') x \<Longrightarrow> http_step inr S rq r S"

inductive http_run ::
  "(string \<Rightarrow> string \<Rightarrow> string \<Rightarrow> bool) \<Rightarrow> store \<Rightarrow> (http_request \<times> reply) list \<Rightarrow> store \<Rightarrow> bool"
  for inr where
  http_run_nil: "http_run inr S [] S"
| http_run_step: "http_step inr S rq r S1 \<Longrightarrow> http_run inr S1 rs S2 \<Longrightarrow> http_run inr S ((rq, r) # rs) S2"

inductive_simps http_run_simps: "http_run inr S [] S'" "http_run inr S (p # rs) S'"
inductive_cases http_stepE: "http_step inr S rq r S'"

lemma says_cors [simp]:
  "says (add_calls cors_headers r) c b = says r c b" "reports (add_calls cors_headers r) x = reports r x"
  by (simp_all add: says_def reports_def)

lemma http_step_cors: "http_step inr S rq (add_calls cors_headers r) S' = http_step inr S rq r S'"
  by (simp add: http_step.simps [of inr S rq])

lemma says_eval [simp]:
  "says (json_reply v) 200 (v @ [newline])" "says no_content 204 ''''" "says (Replied [Write v]) 200 v"
  "says (Replied http_NotFound) c b \<longleftrightarrow> c = 404 \<and> b = ''404 page not found'' @ [newline]"
  "says not_allowed c b \<longleftrightarrow> c = 405 \<and> b = ''method not allowed'' @ [newline]"
  "says (Replied (http_Error m c)) d b \<longleftrightarrow> d = c \<and> b = m @ [newline]"
  "reports (store_Error x) x"
  by (auto simp: says_def reports_def reply_body_def reply_status_def no_content_def http_NotFound_def
      not_allowed_def http_Error_def json_reply_def store_Error_def)

section \<open>Each handler is a step\<close>
text \<open>The random key of a provisioning is new, as in \<open>Server_System\<close>.\<close>

definition provision_fresh :: "env \<Rightarrow> 'w world \<Rightarrow> 'h manager \<Rightarrow> bool" where
  "provision_fresh ev w man \<longleftrightarrow> rand_ok ev \<and>
     (\<forall>k. fst (RequestProvision ev w man) = Inr k \<longrightarrow> fmlookup (nodes w) (tenant_dir man k) = None)"

inductive_cases spec_noneE: "spec_step inr S L_none S'"
inductive_cases spec_provisionE: "spec_step inr S (L_provision k) S'"
inductive_cases spec_deleteE: "spec_step inr S (L_delete k key) S'"
inductive_cases spec_rangeE: "spec_step inr S (L_range k s e kvs) S'"
inductive_cases spec_refusedE: "spec_step inr S (L_refused k x) S'"
inductive_cases spec_deprovisionE: "spec_step inr S (L_deprovision k) S'"
inductive_cases spec_deprovision_failedE: "spec_step inr S (L_deprovision_failed k x) S'"

lemma spec_refused_frame:
  assumes "spec_step inr S (L_refused k x) S'"
  shows "same_but k S S'" "dom S' = dom S" "se_Status x \<noteq> 503 \<Longrightarrow> S' = S"
  using assms by (cases rule: spec_refusedE; simp add: same_but_def)+

lemma view_known: "k \<in> dom (man_view dat w man) \<longleftrightarrow> fmlookup (man_tenants man) k \<noteq> None"
  by (simp add: view_dom fmlookup_dom_iff)

text \<open>The interface of provisioning.\<close>

lemma provision_http:
  assumes ok: "engine_ok api srv dat inr" and inv: "man_inv srv dat w man"
    and rt: "public_route rq = To_provision" "rq_Method rq \<noteq> ''OPTIONS''"
    and call: "provision_handler api ev rq (w, man) = (r, w', man')"
    and f: "rq_Method rq = ''POST'' \<Longrightarrow> provision_fresh ev w man"
  shows "man_inv srv dat w' man' \<and> http_step inr (man_view dat w man) rq r (man_view dat w' man')"
proof -
  have g: "goes rq To_provision (rq_Method rq)" using rt by (simp add: goes_def)
  consider (post) "rq_Method rq = ''POST''" | (del) "rq_Method rq = ''DELETE''"
    | (other) "rq_Method rq \<noteq> ''POST''" "rq_Method rq \<noteq> ''DELETE''" by blast
  then show ?thesis
  proof cases
    case post
    obtain x where c: "RequestProvision ev w man = (x, w', man')"
      using call post by (auto simp: provision_handler_def split: prod.splits sum.splits)
    have rnd: "rand_ok ev" using f [OF post] by (simp add: provision_fresh_def)
    show ?thesis
    proof (cases x)
      case (Inl e)
      have r: "r = Replied (http_Error e 500)" using call post c Inl by (simp add: provision_handler_def)
      note S = server_step_sim [OF ok do_provision_failed [OF c [unfolded Inl] rnd] inv]
      from S(2) have "man_view dat w' man' = man_view dat w man" by (auto elim: spec_noneE)
      with S(1) g [unfolded post] show ?thesis
        by (simp add: r http_provision_failed [of rq _ e])
    next
      case (Inr k)
      have r: "r = json_reply (json_object [json_member ''api_key'' (json_string k)])"
        using call post c Inr by (simp add: provision_handler_def)
      have "fmlookup (nodes w) (tenant_dir man k) = None"
        using f [OF post] c Inr by (simp add: provision_fresh_def)
      note S = server_step_sim [OF ok do_provision [OF c [unfolded Inr] rnd this] inv]
      from S(2) have v: "man_view dat w man k = None" "man_view dat w' man' = (man_view dat w man)(k \<mapsto> Map.empty)"
        by (auto elim: spec_provisionE)
      have "says r 200 (json_object [json_member ''api_key'' (json_string k)] @ [newline])"
        unfolding r by (rule says_eval)
      from http_provision [where inr = inr and S = "man_view dat w man", OF g [unfolded post] this v(1)] S(1) v(2)
      show ?thesis by simp
    qed
  next
    case del
    obtain x where c: "Deprovision api ev (client_key rq) w man = (x, w', man')"
      using call del by (auto simp: provision_handler_def client_key_def split: prod.splits option.splits)
    show ?thesis
    proof (cases x)
      case None
      have r: "r = no_content" using call del c None by (simp add: provision_handler_def client_key_def)
      note S = server_step_sim [OF ok do_deprovision [OF c [unfolded None]] inv]
      from S(2) have "client_key rq \<in> dom (man_view dat w man)"
        "man_view dat w' man' = (man_view dat w man)(client_key rq := None)"
        by (auto elim: spec_deprovisionE)
      with http_deprovision [OF g [unfolded del]] S(1) show ?thesis by (simp add: r)
    next
      case (Some e)
      have r: "r = store_Error e" using call del c Some by (simp add: provision_handler_def client_key_def)
      note S = server_step_sim [OF ok do_deprovision_failed [OF c [unfolded Some]] inv]
      from S(2) have o: "same_but (client_key rq) (man_view dat w man) (man_view dat w' man')"
        by (auto simp: same_but_def elim: spec_deprovision_failedE)
      show ?thesis
      proof (cases "fmlookup (man_tenants man) (client_key rq)")
        case None
        then have "e = errNotProvisioned (client_key rq)" "w' = w" "man' = man"
          using c Some by (simp_all add: Deprovision_def)
        with http_not_provisioned [OF g [unfolded del]] inv None show ?thesis
          by (simp add: r view_known del: domIff)
      next
        case known: (Some db)
        then obtain t where t: "e = errInternal t"
          using c Some by (auto simp: Deprovision_def Let_def split: prod.splits sum.splits)
        have "client_key rq \<in> dom (man_view dat w man)" using known by (simp add: view_known del: domIff)
        from http_deprovision_failed [where inr = inr, OF g [unfolded del] _ this o, of r t] S(1)
        show ?thesis by (simp add: r t)
      qed
    qed
  next
    case other
    with call have "r = not_allowed" "w' = w" "man' = man" by (simp_all add: provision_handler_def)
    with http_method [OF g] other inv show ?thesis by simp
  qed
qed

text \<open>The errors of the four operations are those the interface names.\<close>

lemma errGone_unavailable: "errGone = errUnavailable ''database unavailable''"
  by (simp add: error_defs)

lemma operation_errors:
  "db_Get api ev key w db = (Err x, w', db') \<Longrightarrow> read_error key x"
  "db_Delete api ev key w db = (Err x, w', db') \<Longrightarrow> read_error key x"
  "db_Range api ev s e w db = (Err x, w', db') \<Longrightarrow> range_error s e x"
  "db_Put api ev key v w db = (Err x, w', db') \<Longrightarrow> write_error key x"
  by (auto simp: db_Get_def db_Delete_def db_Range_def db_Put_def Let_def read_error_def range_error_def
      write_error_def errGone_unavailable split: if_splits prod.splits option.splits sum.splits)

text \<open>A read changes nothing of the data.\<close>

lemma get_keeps_view:
  assumes ok: "engine_ok api srv dat inr" and inv: "man_inv srv dat w man"
    and call: "man_serve (\<lambda>ev w db. db_Get api ev key w db) ev k w man = (r, w', man')"
  shows "man_view dat w' man' = man_view dat w man"
  using get_req.man_serve_sim [OF ok inv call]
proof cases
  case (2 db db')
  from 2(2) have ln: "db_linked srv dat w db" by (simp add: tenant_wf_def)
  from db_Get_frame [OF ok ln 2(1)] have "db_view dat w' db' = db_view dat w db"
    using 2(5) by (intro db_view_cong [of srv]) simp_all
  with 2(3,4) show ?thesis by (simp add: fun_upd_idem)
qed simp

lemma range_keeps_view:
  assumes ok: "engine_ok api srv dat inr" and inv: "man_inv srv dat w man"
    and call: "man_serve (\<lambda>ev w db. db_Range api ev s e w db) ev k w man = (r, w', man')"
  shows "man_view dat w' man' = man_view dat w man"
  using range_req.man_serve_sim [OF ok inv call]
proof cases
  case (2 db db')
  from 2(2) have ln: "db_linked srv dat w db" by (simp add: tenant_wf_def)
  from db_Range_spec(2) [OF ok ln 2(1)] have "db_view dat w' db' = db_view dat w db"
    using 2(5) by (intro db_view_cong [of srv]) simp_all
  with 2(3,4) show ?thesis by (simp add: fun_upd_idem)
qed simp

text \<open>A served request that is not a panic: 401 for an unknown key, and the step of its result.\<close>

lemma served_http:
  assumes call: "man_serve op ev (client_key rq) w man = (res, w', man')"
    and rep: "rep = answer f res" "rep \<noteq> Panicked"
    and g: "goes rq d m" "d \<in> {To_range, To_key}" "m \<in> set (route_methods d)" "m = ''PUT'' \<longrightarrow> put_body rq \<noteq> None"
    and good: "\<And>a. res = Ok a \<Longrightarrow> http_step inr (man_view dat w man) rq (f a) (man_view dat w' man')"
    and bad: "\<And>x db db'. res = Err x \<Longrightarrow> op ev w db = (Err x, w', db') \<Longrightarrow>
      client_key rq \<in> dom (man_view dat w man) \<Longrightarrow>
      http_step inr (man_view dat w man) rq (store_Error x) (man_view dat w' man')"
  shows "http_step inr (man_view dat w man) rq rep (man_view dat w' man')"
proof (cases "fmlookup (man_tenants man) (client_key rq)")
  case None
  with call have u: "res = Err ErrUnknownAPIKey" "w' = w" "man' = man"
    by (simp_all add: man_serve_def Lookup_def)
  from None have "client_key rq \<notin> dom (man_view dat w man)" by (simp add: view_known del: domIff)
  with http_unknown [OF g this] u rep show ?thesis by (simp add: answer_def)
next
  case k: (Some db)
  with call obtain db' where o: "op ev w db = (res, w', db')"
    by (auto simp: man_serve_def Lookup_def split: prod.splits)
  have d: "client_key rq \<in> dom (man_view dat w man)" using k by (simp add: view_known del: domIff)
  show ?thesis
  proof (cases res)
    case (Ok a)
    with good rep show ?thesis by (simp add: answer_def)
  next
    case (Err x)
    with bad [OF Err _ d] o rep show ?thesis by (simp add: answer_def)
  next
    case Crash
    with rep show ?thesis by (simp add: answer_def)
  qed
qed
lemma key_http:
  assumes ok: "engine_ok api srv dat inr" and inv: "man_inv srv dat w man"
    and rt: "public_route rq = To_key" "rq_Method rq \<noteq> ''OPTIONS''"
    and call: "key_handler api ev rq (w, man) = (r, w', man')" and np: "r \<noteq> Panicked"
  shows "man_inv srv dat w' man' \<and> http_step inr (man_view dat w man) rq r (man_view dat w' man')"
proof -
  let ?k = "client_key rq" and ?key = "path_key rq"
  have g: "goes rq To_key (rq_Method rq)" using rt by (simp add: goes_def)
  note K = key_handler_def Let_def client_key_def [symmetric] path_key_def [symmetric]
  consider (get) "rq_Method rq = ''GET''" | (put) "rq_Method rq = ''PUT''" | (del) "rq_Method rq = ''DELETE''"
    | (other) "rq_Method rq \<noteq> ''GET''" "rq_Method rq \<noteq> ''PUT''" "rq_Method rq \<noteq> ''DELETE''" by blast
  then show ?thesis
  proof cases
    case get
    note gg = g [unfolded get]
    from call get obtain res where
      c: "man_serve (\<lambda>ev w db. db_Get api ev ?key w db) ev ?k w man = (res, w', man')"
      and r: "r = answer (\<lambda>(val, ok). Replied (if \<not> ok then http_NotFound else [Write val])) res"
      by (auto simp: K split: prod.splits)
    have "http_step inr (man_view dat w man) rq r (man_view dat w' man')"
    proof (rule served_http [OF c r np gg])
      fix a
      assume a: "res = Ok a"
      obtain v found where v: "a = (v, found)" by (cases a)
      have "spec_step inr (man_view dat w man) (L_get ?k ?key (if found then Some v else None)) (man_view dat w' man')"
        using get_sim [OF ok inv c] a v by (simp add: result_label_def)
      then obtain m where m: "man_view dat w man ?k = Some m" "man_view dat w' man' = man_view dat w man"
        "short_values m \<longrightarrow> m ?key = (if found then Some v else None)" by (auto elim: spec_getE)
      with http_get [where inr = inr and S = "man_view dat w man", OF gg m(1), of _ v]
        http_get_none [where inr = inr and S = "man_view dat w man", OF gg m(1)] v
      show "http_step inr (man_view dat w man) rq
          ((\<lambda>(val, ok). Replied (if \<not> ok then http_NotFound else [Write val])) a) (man_view dat w' man')"
        by (cases found) simp_all
    next
      fix x db db'
      assume e: "db_Get api ev ?key w db = (Err x, w', db')" and k: "?k \<in> dom (man_view dat w man)"
      show "http_step inr (man_view dat w man) rq (store_Error x) (man_view dat w' man')"
        unfolding get_keeps_view [OF ok inv c]
        by (rule http_get_refused [OF gg k says_eval(7) operation_errors(1) [OF e]])
    qed simp_all
    with get_req.man_serve_inv(1) [OF ok inv c] show ?thesis by blast
  next
    case put
    note gg = g [unfolded put]
    show ?thesis
    proof (cases "put_body rq")
      case None
      with call put have "r = Replied (http_Error ''failed to read body'' 400)" "w' = w" "man' = man"
        by (simp_all add: K)
      with http_unreadable [OF gg None] inv show ?thesis by simp
    next
      case (Some body)
      with call put obtain res where
        c: "man_serve (\<lambda>ev w db. db_Put api ev ?key body w db) ev ?k w man = (res, w', man')"
        and r: "r = answer (\<lambda>_. no_content) res"
        by (auto simp: K split: prod.splits)
      note P = put_sim [OF ok inv c]
      have "http_step inr (man_view dat w man) rq r (man_view dat w' man')"
      proof (rule served_http [OF c r np gg])
        fix a
        assume "res = Ok a"
        with P have "spec_step inr (man_view dat w man) (L_put ?k ?key body) (man_view dat w' man')"
          by (simp add: result_label_def)
        then obtain m where m: "man_view dat w man ?k = Some m"
          "man_view dat w' man' = (man_view dat w man)(?k \<mapsto> m(?key \<mapsto> body))" by (auto elim: spec_putE)
        with http_put [where inr = inr and S = "man_view dat w man", OF gg m(1) Some]
        show "http_step inr (man_view dat w man) rq no_content (man_view dat w' man')" by simp
      next
        fix x db db'
        assume x: "res = Err x" "db_Put api ev ?key body w db = (Err x, w', db')" "?k \<in> dom (man_view dat w man)"
        with P have "spec_step inr (man_view dat w man) (L_refused ?k x) (man_view dat w' man')"
          by (simp add: result_label_def)
        then have "same_but ?k (man_view dat w man) (man_view dat w' man')"
          "dom (man_view dat w' man') = dom (man_view dat w man)"
          "se_Status x \<noteq> 503 \<Longrightarrow> man_view dat w' man' = man_view dat w man"
          by (rule spec_refused_frame)+
        with http_put_refused [OF gg x(3) Some, of "store_Error x" x] operation_errors(4) [OF x(2)]
        show "http_step inr (man_view dat w man) rq (store_Error x) (man_view dat w' man')" by simp
      qed (use Some in simp_all)
      with put_req.man_serve_inv(1) [OF ok inv c] show ?thesis by blast
    qed
  next
    case del
    note gg = g [unfolded del]
    from call del obtain res where
      c: "man_serve (\<lambda>ev w db. db_Delete api ev ?key w db) ev ?k w man = (res, w', man')"
      and r: "r = answer (\<lambda>_. no_content) res"
      by (auto simp: K split: prod.splits)
    note D = delete_sim [OF ok inv c]
    have "http_step inr (man_view dat w man) rq r (man_view dat w' man')"
    proof (rule served_http [OF c r np gg])
      fix a
      assume "res = Ok a"
      with D have "spec_step inr (man_view dat w man) (L_delete ?k ?key) (man_view dat w' man')"
        by (simp add: result_label_def)
      then obtain m where m: "man_view dat w man ?k = Some m"
        "man_view dat w' man' = (man_view dat w man)(?k \<mapsto> m(?key := None))" by (auto elim: spec_deleteE)
      with http_delete [where inr = inr and S = "man_view dat w man", OF gg m(1)]
      show "http_step inr (man_view dat w man) rq no_content (man_view dat w' man')" by simp
    next
      fix x db db'
      assume x: "res = Err x" "db_Delete api ev ?key w db = (Err x, w', db')" "?k \<in> dom (man_view dat w man)"
      with D have "spec_step inr (man_view dat w man) (L_refused ?k x) (man_view dat w' man')"
        by (simp add: result_label_def)
      then have "same_but ?k (man_view dat w man) (man_view dat w' man')"
        "dom (man_view dat w' man') = dom (man_view dat w man)"
        "se_Status x \<noteq> 503 \<Longrightarrow> man_view dat w' man' = man_view dat w man"
        by (rule spec_refused_frame)+
      with http_delete_refused [OF gg x(3), of "store_Error x" x] operation_errors(2) [OF x(2)]
      show "http_step inr (man_view dat w man) rq (store_Error x) (man_view dat w' man')" by simp
    qed simp_all
    with delete_req.man_serve_inv(1) [OF ok inv c] show ?thesis by blast
  next
    case other
    with call have "r = not_allowed" "w' = w" "man' = man" by (simp_all add: K)
    with http_method [OF g] other inv show ?thesis by simp
  qed
qed

lemma range_http:
  assumes ok: "engine_ok api srv dat inr" and inv: "man_inv srv dat w man"
    and rt: "public_route rq = To_range" "rq_Method rq \<noteq> ''OPTIONS''"
    and call: "range_handler api ev rq (w, man) = (r, w', man')" and np: "r \<noteq> Panicked"
  shows "man_inv srv dat w' man' \<and> http_step inr (man_view dat w man) rq r (man_view dat w' man')"
proof (cases "rq_Method rq = ''GET''")
  case False
  with call have "r = not_allowed" "w' = w" "man' = man" by (simp_all add: range_handler_def)
  moreover have "goes rq To_range (rq_Method rq)" using rt by (simp add: goes_def)
  ultimately show ?thesis using http_method False inv by simp
next
  case True
  let ?k = "client_key rq" and ?s = "rq_Query rq ''start''" and ?e = "rq_Query rq ''end''"
  have g: "goes rq To_range ''GET''" using rt True by (simp add: goes_def)
  from call True obtain res where
    c: "man_serve (\<lambda>ev w db. db_Range api ev ?s ?e w db) ev ?k w man = (res, w', man')"
    and r: "r = answer (\<lambda>pairs. json_reply (json_pairs pairs)) res"
    by (auto simp: range_handler_def client_key_def split: prod.splits)
  have "http_step inr (man_view dat w man) rq r (man_view dat w' man')"
  proof (rule served_http [OF c r np g])
    fix ps
    assume "res = Ok ps"
    then have "spec_step inr (man_view dat w man)
        (L_range ?k ?s ?e (case ps of None \<Rightarrow> [] | Some kvs \<Rightarrow> kvs)) (man_view dat w' man')"
      using range_sim [OF ok inv c] by (simp add: result_label_def)
    then obtain m where m: "man_view dat w man ?k = Some m" "man_view dat w' man' = man_view dat w man"
      "range_fits inr m ?s ?e \<longrightarrow> is_range inr m ?s ?e (case ps of None \<Rightarrow> [] | Some kvs \<Rightarrow> kvs)"
      by (auto elim: spec_rangeE)
    from http_range [where inr = inr and S = "man_view dat w man", OF g m(1) _ m(3)] m(2)
    show "http_step inr (man_view dat w man) rq (json_reply (json_pairs ps)) (man_view dat w' man')" by simp
  next
    fix x db db'
    assume e: "db_Range api ev ?s ?e w db = (Err x, w', db')" and k: "?k \<in> dom (man_view dat w man)"
    show "http_step inr (man_view dat w man) rq (store_Error x) (man_view dat w' man')"
      unfolding range_keeps_view [OF ok inv c]
      by (rule http_range_refused [OF g k says_eval(7) operation_errors(3) [OF e]])
  qed simp_all
  with range_req.man_serve_inv(1) [OF ok inv c] show ?thesis by blast
qed

lemma public_mux_route:
  "public_mux api ev rq s =
     (case public_route rq of
        To_redirect p \<Rightarrow> (Redirected p, s)
      | To_provision \<Rightarrow> provision_handler api ev rq s
      | To_range \<Rightarrow> range_handler api ev rq s
      | To_key \<Rightarrow> key_handler api ev rq s
      | To_nowhere \<Rightarrow> (Replied http_NotFound, s))"
  by (simp add: public_mux_def public_route_def Let_def)

lemma public_http:
  assumes ok: "engine_ok api srv dat inr" and inv: "man_inv srv dat w man"
    and call: "NewPublicHandler api ev rq (w, man) = (r, w', man')" and np: "r \<noteq> Panicked"
    and f: "rq_Method rq = ''POST'' \<Longrightarrow> provision_fresh ev w man"
  shows "man_inv srv dat w' man' \<and> http_step inr (man_view dat w man) rq r (man_view dat w' man')"
proof (cases "rq_Method rq = ''OPTIONS''")
  case True
  with call have "r = Replied (cors_headers @ [WriteHeader 204])" "w' = w" "man' = man"
    by (simp_all add: NewPublicHandler_def WithCORS_def)
  with http_options [OF True, of r] inv show ?thesis by (simp add: says_def reply_status_def reply_body_def)
next
  case False
  then obtain r0 where c: "public_mux api ev rq (w, man) = (r0, w', man')" and r: "r = add_calls cors_headers r0"
    using call by (auto simp: NewPublicHandler_def WithCORS_def split: prod.splits)
  have np0: "r0 \<noteq> Panicked" using np r by simp
  have g: "goes rq (public_route rq) (rq_Method rq)" using False by (simp add: goes_def)
  have "man_inv srv dat w' man' \<and> http_step inr (man_view dat w man) rq r0 (man_view dat w' man')"
  proof (cases "public_route rq")
    case (To_redirect p)
    with c have "r0 = Redirected p" "w' = w" "man' = man" by (simp_all add: public_mux_route)
    with http_redirect [OF g [unfolded To_redirect]] inv show ?thesis by simp
  next
    case To_provision
    with c provision_http [OF ok inv To_provision False _ f] show ?thesis by (simp add: public_mux_route)
  next
    case To_range
    with c range_http [OF ok inv To_range False _ np0] show ?thesis by (simp add: public_mux_route)
  next
    case To_key
    with c key_http [OF ok inv To_key False _ np0] show ?thesis by (simp add: public_mux_route)
  next
    case To_nowhere
    with c have "r0 = Replied http_NotFound" "w' = w" "man' = man" by (simp_all add: public_mux_route)
    with http_nowhere [OF g [unfolded To_nowhere]] inv show ?thesis by simp
  qed
  moreover have "http_step inr S rq r S' = http_step inr S rq r0 S'" for S S'
    unfolding r by (rule http_step_cors)
  ultimately show ?thesis by simp
qed

section \<open>Serving a sequence of requests\<close>

fun http_serve ::
  "('h, 'w) fredb_api \<Rightarrow> (env \<times> http_request) list \<Rightarrow> ('h, 'w) srv_state \<Rightarrow>
   (http_request \<times> reply) list \<times> ('h, 'w) srv_state" where
  "http_serve api [] s = ([], s)"
| "http_serve api ((ev, rq) # rqs) s =
     (case NewPublicHandler api ev rq s of
        (r, s1) \<Rightarrow> (case http_serve api rqs s1 of (rs, s2) \<Rightarrow> ((rq, r) # rs, s2)))"

text \<open>Every provisioning of the sequence draws a new key.\<close>

fun all_fresh :: "('h, 'w) fredb_api \<Rightarrow> (env \<times> http_request) list \<Rightarrow> ('h, 'w) srv_state \<Rightarrow> bool" where
  "all_fresh api [] s = True"
| "all_fresh api ((ev, rq) # rqs) s =
     ((rq_Method rq = ''POST'' \<longrightarrow> provision_fresh ev (fst s) (snd s)) \<and> all_fresh api rqs (snd (NewPublicHandler api ev rq s)))"

lemma http_serve_sim:
  assumes ok: "engine_ok api srv dat inr"
  shows "http_serve api rqs (w, man) = (rs, w', man') \<Longrightarrow> man_inv srv dat w man \<Longrightarrow>
    all_fresh api rqs (w, man) \<Longrightarrow> Panicked \<notin> snd ` set rs \<Longrightarrow>
    man_inv srv dat w' man' \<and> http_run inr (man_view dat w man) rs (man_view dat w' man')"
proof (induction rqs arbitrary: w man rs)
  case Nil
  then show ?case by (auto intro: http_run_nil)
next
  case (Cons p rqs)
  obtain ev rq where p: "p = (ev, rq)" by (cases p)
  obtain r w1 man1 where c: "NewPublicHandler api ev rq (w, man) = (r, w1, man1)"
    by (cases "NewPublicHandler api ev rq (w, man)") auto
  from Cons.prems(1) p c obtain rs1 where
    l: "http_serve api rqs (w1, man1) = (rs1, w', man')" and rs: "rs = (rq, r) # rs1"
    by (auto split: prod.splits)
  have np: "r \<noteq> Panicked" "Panicked \<notin> snd ` set rs1" using Cons.prems(4) rs by auto
  have fr: "rq_Method rq = ''POST'' \<Longrightarrow> provision_fresh ev w man" "all_fresh api rqs (w1, man1)"
    using Cons.prems(3) p c by simp_all
  from public_http [OF ok Cons.prems(2) c np(1) fr(1)]
  have i: "man_inv srv dat w1 man1" and s: "http_step inr (man_view dat w man) rq r (man_view dat w1 man1)"
    by simp_all
  from Cons.IH [OF l i fr(2) np(2)] s show ?case by (auto simp: rs intro: http_run_step)
qed
section \<open>The statuses of the errors\<close>

lemma put_error_status:
  "db_Put api ev key v w db = (Err e, w', db') \<Longrightarrow> se_Status e \<in> {400, 413, 429, 500, 503, 507}"
  by (auto simp: db_Put_def Let_def error_defs split: if_splits prod.splits option.splits sum.splits)

section \<open>A write and a read through the handler\<close>

text \<open>The paths the mux sends to the handler of keys.\<close>

abbreviation routes_to_key :: "http_request \<Rightarrow> bool" where
  "routes_to_key rq \<equiv> public_route rq = To_key"

lemma routes_to_key_same:
  "rq_EscapedPath rq' = rq_EscapedPath rq \<Longrightarrow> rq_Method rq \<noteq> ''CONNECT'' \<Longrightarrow> rq_Method rq' \<noteq> ''CONNECT'' \<Longrightarrow>
   routes_to_key rq' = routes_to_key rq"
  by (simp add: public_route_def Let_def)

lemma public_key_route:
  "routes_to_key rq \<Longrightarrow> rq_Method rq \<noteq> ''OPTIONS'' \<Longrightarrow>
   NewPublicHandler api ev rq s =
     (add_calls cors_headers (fst (key_handler api ev rq s)), snd (key_handler api ev rq s))"
  by (auto simp: NewPublicHandler_def WithCORS_def public_mux_route split: prod.splits)

lemma put_204:
  assumes call: "NewPublicHandler api ev rq (w, man) = (r, w', man')"
    and m: "rq_Method rq = ''PUT''" and st: "reply_status r = 204"
  shows "routes_to_key rq \<and> (\<exists>body. read_limited (MaxValueBytes + 1) rq = Some body \<and>
    man_serve (\<lambda>ev w db. db_Put api ev (path_key rq) body w db) ev (client_key rq) w man = (Ok (), w', man'))"
proof -
  obtain r0 where c: "public_mux api ev rq (w, man) = (r0, w', man')" and r: "reply_status r0 = 204"
    using call m st by (auto simp: NewPublicHandler_def WithCORS_def split: prod.splits)
  have route: "routes_to_key rq"
  proof (rule ccontr)
    assume "\<not> routes_to_key rq"
    with c m have "reply_status r0 \<noteq> 204"
      by (auto simp: public_mux_route provision_handler_def range_handler_def split: route.splits)
    with r show False by simp
  qed
  then have k: "key_handler api ev rq (w, man) = (r0, w', man')"
    using c by (simp add: public_mux_route)
  obtain body where b: "read_limited (MaxValueBytes + 1) rq = Some body"
    using k m r by (cases "read_limited (MaxValueBytes + 1) rq") (auto simp: key_handler_def)
  obtain x w1 man1 where s: "man_serve (\<lambda>ev w db. db_Put api ev (path_key rq) body w db) ev (client_key rq) w man =
      (x, w1, man1)"
    by (cases "man_serve (\<lambda>ev w db. db_Put api ev (path_key rq) body w db) ev (client_key rq) w man")
  with k m b have e: "r0 = answer (\<lambda>_. no_content) x" "w1 = w'" "man1 = man'"
    by (auto simp: key_handler_def Let_def client_key_def path_key_def)
  have "x = Ok ()"
  proof (cases x)
    case (Err e')
    have "se_Status e' \<noteq> 204"
      using s Err by (auto simp: man_serve_def Lookup_def ErrUnknownAPIKey_def store_err_def
          split: sum.splits option.splits prod.splits dest: put_error_status)
    with e(1) r Err show ?thesis by (simp add: answer_def)
  qed (use e(1) r in \<open>simp_all add: answer_def reply_status_def\<close>)
  with route b s e show ?thesis by blast
qed

lemma get_error_status:
  "db_Get api ev key w db = (Err e, w', db') \<Longrightarrow> se_Status e \<in> {400, 429, 503}"
  by (auto simp: db_Get_def Let_def error_defs split: if_splits prod.splits option.splits sum.splits)

lemma get_200:
  assumes call: "NewPublicHandler api ev rq (w, man) = (r, w', man')"
    and m: "rq_Method rq = ''GET''" and st: "reply_status r = 200" and route: "routes_to_key rq"
  shows "man_serve (\<lambda>ev w db. db_Get api ev (path_key rq) w db) ev (client_key rq) w man =
      (Ok (reply_body r, True), w', man')"
proof -
  obtain x w1 man1 where s: "man_serve (\<lambda>ev w db. db_Get api ev (path_key rq) w db) ev (client_key rq) w man =
      (x, w1, man1)"
    by (cases "man_serve (\<lambda>ev w db. db_Get api ev (path_key rq) w db) ev (client_key rq) w man")
  have r: "r = add_calls cors_headers (answer (\<lambda>(val, ok). Replied (if \<not> ok then http_NotFound else [Write val])) x)"
    "w1 = w'" "man1 = man'"
    using call m s route
    by (auto simp: public_key_route key_handler_def Let_def client_key_def path_key_def)
  show ?thesis
  proof (cases x)
    case (Ok p)
    obtain v found where p: "p = (v, found)" by (cases p)
    with st r(1) Ok have "found" by (cases found) (simp_all add: answer_def)
    with s r p Ok show ?thesis by (auto simp: answer_def)
  next
    case (Err e)
    have "se_Status e \<noteq> 200"
      using s Err by (auto simp: man_serve_def Lookup_def ErrUnknownAPIKey_def store_err_def
          split: sum.splits option.splits prod.splits dest: get_error_status)
    with st r(1) Err show ?thesis by (simp add: answer_def)
  next
    case Crash
    with st r(1) show ?thesis by (simp add: answer_def)
  qed
qed

end
