(* ===== verification/Json_Laws.thy ===== *)
theory Json_Laws
  imports Go_Http
begin

text \<open>
  The JSON strings the handlers send: each is a well-formed literal whatever bytes it encodes,
  and a reader gets back the bytes when they are valid UTF-8. The reader here is a specification,
  written from the grammar of JSON and independent of the encoder.
\<close>

section \<open>Literals and a reader\<close>

fun hex_value :: "string \<Rightarrow> nat option" where
  "hex_value [] = Some 0"
| "hex_value (c # cs) =
     (case (hex_val c, hex_value cs) of
        (Some x, Some y) \<Rightarrow> Some (x * 16 ^ length cs + y) | _ \<Rightarrow> None)"

definition simple_escapes :: "(char \<times> char) list" where
  "simple_escapes =
     [(CHR 0x22, CHR 0x22), (CHR 0x5C, CHR 0x5C), (CHR ''/'', CHR ''/''), (CHR ''b'', CHR 0x08),
      (CHR ''f'', CHR 0x0C), (CHR ''n'', CHR 0x0A), (CHR ''r'', CHR 0x0D), (CHR ''t'', CHR 0x09)]"

text \<open>The inside of a literal: no raw quote or control character, and proper escapes.\<close>

fun json_literal :: "string \<Rightarrow> bool" where
  "json_literal [] = True"
| "json_literal (c # cs) =
     (if c = CHR 0x5C then
        (case cs of
           [] \<Rightarrow> False
         | d # ds \<Rightarrow>
             if d = CHR ''u'' then
               (case ds of
                  x1 # x2 # x3 # x4 # rest \<Rightarrow> hex_value [x1, x2, x3, x4] \<noteq> None \<and> json_literal rest
                | _ \<Rightarrow> False)
             else map_of simple_escapes d \<noteq> None \<and> json_literal ds)
      else c \<noteq> CHR 0x22 \<and> 32 \<le> (of_char c :: nat) \<and> json_literal cs)"

definition utf8_encode :: "nat \<Rightarrow> string" where
  "utf8_encode n =
     (if n < 128 then [char_of n]
      else if n < 2048 then [char_of (192 + n div 64), char_of (128 + n mod 64)]
      else [char_of (224 + n div 4096), char_of (128 + n div 64 mod 64), char_of (128 + n mod 64)])"

text \<open>What a reader makes of it; surrogate pairs do not occur.\<close>

fun json_read :: "string \<Rightarrow> string" where
  "json_read [] = []"
| "json_read (c # cs) =
     (if c = CHR 0x5C then
        (case cs of
           [] \<Rightarrow> []
         | d # ds \<Rightarrow>
             if d = CHR ''u'' then
               (case ds of
                  x1 # x2 # x3 # x4 # rest \<Rightarrow>
                    (case hex_value [x1, x2, x3, x4] of
                       Some n \<Rightarrow> utf8_encode n @ json_read rest | None \<Rightarrow> [])
                | _ \<Rightarrow> [])
             else (case map_of simple_escapes d of Some e \<Rightarrow> e # json_read ds | None \<Rightarrow> []))
      else c # json_read cs)"

function utf8_valid :: "string \<Rightarrow> bool" where
  "utf8_valid s =
     (if s = [] then True else if utf8_len s = 0 then False else utf8_valid (drop (utf8_len s) s))"
  by pat_completeness auto
termination by (relation "measure length") auto

declare utf8_valid.simps [simp del]

section \<open>One piece of the output\<close>

lemma char_eq: "(of_char c :: nat) = of_char d \<Longrightarrow> c = d"
  by simp

lemma hex_val_digit: "k < 16 \<Longrightarrow> hex_val (hex_digit k) = Some k"
proof -
  assume "k < 16"
  then have "k \<in> set [0..<16]" by simp
  then show ?thesis by (simp add: upt_rec) (elim disjE; simp add: hex_digit_def hex_val_def)
qed

lemma hex_value_hex4: "n < 128 \<Longrightarrow> hex_value (hex4 n) = Some n"
proof -
  assume n: "n < 128"
  then have "n div 4096 = 0" "n div 256 = 0" "n div 16 < 16" by auto
  then show ?thesis by (simp add: hex4_def hex_val_digit)
qed

lemma hex4_plain: "n < 128 \<Longrightarrow> \<forall>x \<in> set (hex4 n). x \<notin> {CHR ''<'', CHR ''>'', CHR ''&''}"
proof -
  have "hex_digit k \<notin> {CHR ''<'', CHR ''>'', CHR ''&''}" if "k < 16" for k
    using hex_digit_in [OF that] by (auto simp: hex_chars_def)
  moreover assume "n < 128"
  ultimately show ?thesis by (simp add: hex4_def)
qed

text \<open>The characters with an escape of their own.\<close>

definition short_codes :: "nat list" where
  "short_codes = [34, 92, 8, 12, 10, 13, 9]"

lemma ascii_short:
  assumes "(of_char c :: nat) \<in> set short_codes"
  shows "\<exists>d. json_ascii c = [CHR 0x5C, d] \<and> d \<noteq> CHR ''u'' \<and> map_of simple_escapes d = Some c \<and>
    d \<notin> {CHR ''<'', CHR ''>'', CHR ''&''}"
proof -
  have "(of_char c :: nat) \<in> {of_char CHR 0x22, of_char CHR 0x5C, of_char CHR 0x08, of_char CHR 0x0C,
      of_char CHR 0x0A, of_char CHR 0x0D, of_char CHR 0x09}"
    using assms by (simp add: short_codes_def)
  then have "c \<in> {CHR 0x22, CHR 0x5C, CHR 0x08, CHR 0x0C, CHR 0x0A, CHR 0x0D, CHR 0x09}"
    by (simp only: insert_iff empty_iff of_char_eq_iff)
  then show ?thesis by (elim insertE emptyE) (simp_all add: json_ascii_def simple_escapes_def)
qed

lemma ascii_piece:
  assumes "(of_char c :: nat) < 128"
  shows "json_literal (json_ascii c @ t) = json_literal t \<and> json_read (json_ascii c @ t) = c # json_read t \<and>
    (\<forall>x \<in> set (json_ascii c). x \<notin> {CHR ''<'', CHR ''>'', CHR ''&''})"
proof -
  let ?n = "of_char c :: nat"
  consider (short) "?n \<in> set short_codes" | (hex) "?n \<notin> set short_codes" "?n < 32 \<or> ?n = 60 \<or> ?n = 62 \<or> ?n = 38"
    | (plain) "?n \<notin> set short_codes" "\<not> (?n < 32 \<or> ?n = 60 \<or> ?n = 62 \<or> ?n = 38)" by blast
  then show ?thesis
  proof cases
    case short
    from ascii_short [OF this] show ?thesis by auto
  next
    case hex
    then have a: "json_ascii c = CHR 0x5C # CHR ''u'' # hex4 ?n"
      by (auto simp: json_ascii_def Let_def short_codes_def)
    obtain x1 x2 x3 x4 where h: "hex4 ?n = [x1, x2, x3, x4]" by (simp add: hex4_def)
    have v: "hex_value [x1, x2, x3, x4] = Some ?n" using hex_value_hex4 [OF assms] h by simp
    have "utf8_encode ?n = [c]" using assms by (simp add: utf8_encode_def)
    with v hex4_plain [OF assms] show ?thesis unfolding a h by (simp del: hex_value.simps)
  next
    case plain
    then have a: "json_ascii c = [c]" by (auto simp: json_ascii_def Let_def short_codes_def)
    have "c \<noteq> CHR 0x22" "c \<noteq> CHR 0x5C" "c \<notin> {CHR ''<'', CHR ''>'', CHR ''&''}" "32 \<le> ?n"
      using plain by (auto simp: short_codes_def)
    then show ?thesis unfolding a by simp
  qed
qed

lemma high_char:
  assumes "128 \<le> (of_char c :: nat)"
  shows "c \<noteq> CHR 0x5C" "c \<noteq> CHR 0x22" "32 \<le> (of_char c :: nat)" "c \<notin> {CHR ''<'', CHR ''>'', CHR ''&''}"
proof -
  have n: "(of_char c :: nat) \<notin> {92, 34, 60, 62, 38}" "32 \<le> (of_char c :: nat)" using assms by auto
  then show "32 \<le> (of_char c :: nat)" by simp
  have "c \<noteq> d" if "(of_char d :: nat) \<in> {92, 34, 60, 62, 38}" for d using n(1) that by metis
  from this [of "CHR 0x5C"] this [of "CHR 0x22"] this [of "CHR ''<''"] this [of "CHR ''>''"] this [of "CHR ''&''"]
  show "c \<noteq> CHR 0x5C" "c \<noteq> CHR 0x22" "c \<notin> {CHR ''<'', CHR ''>'', CHR ''&''}" by simp_all
qed

lemma high_piece:
  assumes "\<forall>c \<in> set p. 128 \<le> (of_char c :: nat)"
  shows "json_literal (p @ t) = json_literal t \<and> json_read (p @ t) = p @ json_read t \<and>
    (\<forall>x \<in> set p. x \<notin> {CHR ''<'', CHR ''>'', CHR ''&''})"
  using assms
proof (induction p)
  case Nil
  then show ?case by simp
next
  case (Cons c p)
  then have "128 \<le> (of_char c :: nat)" by simp
  from high_char [OF this] Cons show ?case by simp
qed

lemma utf8_second_high: "utf8_second a b \<Longrightarrow> 128 \<le> b" "utf8_cont b \<Longrightarrow> 128 \<le> b"
  by (auto simp: utf8_second_def utf8_cont_def split: if_splits)

lemma utf8_len_high:
  assumes "utf8_len s \<noteq> 0" "utf8_len s \<noteq> 1"
  shows "\<forall>c \<in> set (take (utf8_len s) s). 128 \<le> (of_char c :: nat)"
proof (cases s)
  case Nil
  then show ?thesis by simp
next
  case (Cons c r)
  let ?a = "of_char c :: nat"
  have a: "\<not> ?a < 128" using assms Cons by (auto simp: utf8_len_def)
  consider "194 \<le> ?a" "?a \<le> 223" | "224 \<le> ?a" "?a \<le> 239" | "240 \<le> ?a" "?a \<le> 244"
    | "\<not> (194 \<le> ?a \<and> ?a \<le> 244)" by linarith
  then show ?thesis
  proof cases
    case 1
    with a assms Cons show ?thesis
      by (cases r) (auto simp: utf8_len_def not_less dest: utf8_second_high split: if_splits)
  next
    case 2
    with a assms Cons show ?thesis
      by (cases r; cases "tl r") (auto simp: utf8_len_def not_less dest: utf8_second_high split: if_splits)
  next
    case 3
    with a assms Cons show ?thesis
      by (cases r; cases "tl r"; cases "tl (tl r)")
        (auto simp: utf8_len_def not_less dest: utf8_second_high split: if_splits)
  next
    case 4
    then have "\<not> (194 \<le> ?a \<and> ?a \<le> 223)" "\<not> (224 \<le> ?a \<and> ?a \<le> 239)" "\<not> (240 \<le> ?a \<and> ?a \<le> 244)"
      by linarith+
    with a Cons have "utf8_len s = 0" by (auto simp: utf8_len_def)
    with assms(1) show ?thesis by simp
  qed
qed

lemma utf8_len_one:
  assumes "utf8_len s = 1"
  shows "s \<noteq> [] \<and> (of_char (hd s) :: nat) < 128"
  using assms by (auto simp: utf8_len_def split: list.splits if_splits)

lemma separator_pieces:
  "json_literal (CHR 0x5C # ''ufffd'' @ t) = json_literal t"
  "json_literal (CHR 0x5C # ''u2028'' @ t) = json_literal t"
  "json_literal (CHR 0x5C # ''u2029'' @ t) = json_literal t"
  "json_read (CHR 0x5C # ''u2028'' @ t) = line_sep @ json_read t"
  "json_read (CHR 0x5C # ''u2029'' @ t) = para_sep @ json_read t"
  using char_of_char [of "CHR 0xE2"] char_of_char [of "CHR 0x80"] char_of_char [of "CHR 0xA8"]
    char_of_char [of "CHR 0xA9"]
  by (simp_all add: hex_val_def utf8_encode_def line_sep_def para_sep_def)

section \<open>The whole string\<close>

lemma json_chars_ascii [simp]:
  "json_chars [] = []" "(of_char c :: nat) < 128 \<Longrightarrow> json_chars (c # s) = json_ascii c @ json_chars s"
  by (simp add: json_chars.simps) (subst json_chars.simps, simp add: utf8_len_def)

lemma json_chars_literal:
  "json_literal (json_chars s) \<and> (\<forall>x \<in> set (json_chars s). x \<notin> {CHR ''<'', CHR ''>'', CHR ''&''})"
proof (induction s rule: json_chars.induct)
  case (1 s)
  let ?n = "utf8_len s"
  consider (nil) "s = []" | (bad) "s \<noteq> []" "?n = 0" | (one) "s \<noteq> []" "?n = 1"
    | (ls) "s \<noteq> []" "?n \<noteq> 0" "?n \<noteq> 1" "take ?n s = line_sep"
    | (ps) "s \<noteq> []" "?n \<noteq> 0" "?n \<noteq> 1" "take ?n s \<noteq> line_sep" "take ?n s = para_sep"
    | (high) "s \<noteq> []" "?n \<noteq> 0" "?n \<noteq> 1" "take ?n s \<noteq> line_sep" "take ?n s \<noteq> para_sep" by blast
  then show ?case
  proof cases
    case nil
    then show ?thesis by (simp add: json_chars.simps)
  next
    case bad
    with "1.IH"(1) [OF bad(1) refl] separator_pieces(1) show ?thesis
      by (subst (1 2) json_chars.simps) (simp add: Let_def)
  next
    case one
    with "1.IH"(2) [OF one(1) refl] ascii_piece [of "hd s"] utf8_len_one [OF one(2)] show ?thesis
      by (subst (1 2) json_chars.simps) (simp add: Let_def ball_Un)
  next
    case ls
    with "1.IH"(3) [OF ls(1) refl] separator_pieces(2) show ?thesis
      by (subst (1 2) json_chars.simps) (simp add: Let_def)
  next
    case ps
    with "1.IH"(4) [OF ps(1) refl] separator_pieces(3) show ?thesis
      by (subst (1 2) json_chars.simps) (simp add: Let_def)
  next
    case high
    with "1.IH"(5) [OF high(1) refl] high_piece [OF utf8_len_high [OF high(2,3)]] show ?thesis
      by (subst (1 2) json_chars.simps) (simp add: Let_def ball_Un)
  qed
qed

lemma json_chars_read: "utf8_valid s \<Longrightarrow> json_read (json_chars s) = s"
proof (induction s rule: json_chars.induct)
  case (1 s)
  let ?n = "utf8_len s"
  have v: "s \<noteq> [] \<Longrightarrow> ?n \<noteq> 0 \<and> utf8_valid (drop ?n s)"
    using "1.prems" by (subst (asm) utf8_valid.simps) (simp split: if_splits)
  consider (nil) "s = []" | (one) "s \<noteq> []" "?n = 1"
    | (ls) "s \<noteq> []" "?n \<noteq> 0" "?n \<noteq> 1" "take ?n s = line_sep"
    | (ps) "s \<noteq> []" "?n \<noteq> 0" "?n \<noteq> 1" "take ?n s \<noteq> line_sep" "take ?n s = para_sep"
    | (high) "s \<noteq> []" "?n \<noteq> 0" "?n \<noteq> 1" "take ?n s \<noteq> line_sep" "take ?n s \<noteq> para_sep"
    using v by blast
  then show ?case
  proof cases
    case nil
    then show ?thesis by (simp add: json_chars.simps)
  next
    case one
    have "utf8_valid (tl s)" using v one by (simp add: drop_Suc)
    with one "1.IH"(2) [OF one(1) refl] ascii_piece [of "hd s"] utf8_len_one [OF one(2)] show ?thesis
      by (subst json_chars.simps) (simp add: Let_def)
  next
    case ls
    have "json_chars s = CHR 0x5C # ''u2028'' @ json_chars (drop ?n s)"
      using ls by (subst json_chars.simps) (simp add: Let_def)
    with "1.IH"(3) [OF ls(1) refl] v ls separator_pieces(4) append_take_drop_id [of ?n s] show ?thesis
      by simp
  next
    case ps
    have "json_chars s = CHR 0x5C # ''u2029'' @ json_chars (drop ?n s)"
      using ps by (subst json_chars.simps) (simp add: Let_def)
    with "1.IH"(4) [OF ps(1) refl] v ps separator_pieces(5) append_take_drop_id [of ?n s] show ?thesis
      by simp
  next
    case high
    with "1.IH"(5) [OF high(1) refl] v high_piece [OF utf8_len_high [OF high(2,3)]] show ?thesis
      by (subst json_chars.simps) (simp add: Let_def)
  qed
qed

end
