(* ===== verification/Public_Properties.thy ===== *)
theory Public_Properties
  imports Public_Laws Json_Laws Manager_Properties
begin

text \<open>
  The properties of the HTTP interface, each with a witness on the concrete server of
  \<open>Manager_Properties\<close>.
\<close>

section \<open>Concrete requests\<close>

definition ex_request :: "string \<Rightarrow> string \<Rightarrow> string \<Rightarrow> string \<Rightarrow> http_request" where
  "ex_request method' path key body =
     \<lparr>rq_Method = method', rq_EscapedPath = path, rq_Path = path,
      rq_Header = (\<lambda>h. if h = ''X-Api-Key'' then key else ''''), rq_Query = (\<lambda>q. ''''),
      rq_Body = body, rq_BodyFails = False\<rparr>"

lemma ex_paths:
  "cleanPath ''/provision'' = ''/provision''" "path_segments ''/provision'' = [''provision'']"
  "cleanPath ''/key/k'' = ''/key/k''" "path_segments ''/key/k'' = [''key'', ''k'']"
  by (simp_all add: cleanPath_def path_Clean_def path_rooted_def path_comps_def clean_step_def
      path_render_def path_segments_def pathUnescape_def)

lemma ex_fresh: "provision_fresh ex_env ex_start man"
  by (simp add: provision_fresh_def ex_rand) (simp add: ex_start_def)

definition ex_get_request :: http_request where
  "ex_get_request = ex_request ''GET'' ''/key/k'' ex_key ''''"

section \<open>Properties\<close>

text \<open>
  C2. What HTTP clients see is the specification. Any sequence of requests to the public
  handler, answered without a panic, with provisionings that draw unused keys, is a run of
  \<open>http_step\<close> over the abstract store, and the invariant of the tenant table holds at the end.
  The route, the method and the status of a reply leave one rule of it: 204 to a \<open>PUT\<close> is the
  update of the tenant of \<open>X-Api-Key\<close> at the key of the path with the bytes read; 200 to a \<open>GET\<close>
  carries the value of the map and 404 its absence; 200 to a range carries the JSON of exactly
  the pairs between the bounds of the query; 204 to a \<open>DELETE\<close> removes the key or the tenant;
  200 to a provisioning adds the tenant its body names. On keys and ranges a tenant that does not
  exist gets 401 (400 for a \<open>PUT\<close> whose body cannot be read), and only such a tenant does. Any
  other reply is a redirect, a 404 or 405 of the interface, or one of the named errors of the
  operation, which changes nothing, except that a failed engine (503) or a failed removal (500)
  may have changed the tenant of the request, and no other.
\<close>

theorem public_api_refines_store:
  assumes "engine_ok api srv dat inr" "man_inv srv dat w man" "all_fresh api rqs (w, man)"
    and "http_serve api rqs (w, man) = (rs, w', man')" "Panicked \<notin> snd ` set rs"
  shows "man_inv srv dat w' man' \<and> http_run inr (man_view dat w man) rs (man_view dat w' man')"
  using http_serve_sim [OF assms(1,4,2,3,5)] .

text \<open>
  C27. Without a known key nothing happens. A request whose \<open>X-Api-Key\<close> names no tenant, other
  than the \<open>POST\<close> that provisions one, leaves the files, the engine and the table as they are.
  On a key of the store \<open>GET\<close> and \<open>DELETE\<close> are answered with 401, and so is \<open>PUT\<close> unless its body
  cannot be read (400); a \<open>GET\<close> of a range is answered with 401, the \<open>DELETE\<close> of \<open>/provision\<close> with
  404, any other method of these paths with 405. \<open>OPTIONS\<close> is answered with 204, any other path
  with a redirect or 404.
\<close>

theorem unknown_key_changes_nothing:
  assumes "fmlookup (man_tenants man) (client_key rq) = None"
    and "\<not> (public_route rq = To_provision \<and> rq_Method rq = ''POST'')"
    and "NewPublicHandler api ev rq (w, man) = (r, w', man')"
  shows "w' = w \<and> man' = man \<and> reply_status r =
    (if rq_Method rq = ''OPTIONS'' then 204
     else case public_route rq of
       To_key \<Rightarrow>
         if rq_Method rq \<in> {''GET'', ''DELETE''} then 401
         else if rq_Method rq = ''PUT'' then (if put_body rq = None then 400 else 401) else 405
     | To_range \<Rightarrow> if rq_Method rq = ''GET'' then 401 else 405
     | To_provision \<Rightarrow> if rq_Method rq = ''DELETE'' then 404 else 405
     | To_redirect p \<Rightarrow> 307
     | To_nowhere \<Rightarrow> 404)"
proof -
  have m: "man_serve op ev (client_key rq) w man = (Err ErrUnknownAPIKey, w, man)" for op
    using assms(1) by (simp add: man_serve_def Lookup_def)
  have d: "Deprovision api ev (client_key rq) w man = (Some (errNotProvisioned (client_key rq)), w, man)"
    using assms(1) by (simp add: Deprovision_def)
  have st: "se_Status ErrUnknownAPIKey = 401" "se_Status (errNotProvisioned k) = 404" for k
    by (simp_all add: error_defs)
  note E = answer_def m [unfolded client_key_def] d [unfolded client_key_def] st Let_def
  show ?thesis
  proof (cases "rq_Method rq = ''OPTIONS''")
    case True
    with assms(3) show ?thesis by (auto simp: NewPublicHandler_def WithCORS_def reply_status_def)
  next
    case False
    then obtain r0 where c: "public_mux api ev rq (w, man) = (r0, w', man')" and r: "reply_status r = reply_status r0"
      using assms(3) by (auto simp: NewPublicHandler_def WithCORS_def split: prod.splits)
    show ?thesis
      using c False assms(2) unfolding r
      by (cases "public_route rq")
         (auto simp: public_mux_route key_handler_def range_handler_def provision_handler_def E
           split: option.splits)
  qed
qed

lemma ex_unknown_key: "fmlookup (man_tenants ex_man) (client_key rq) = None"
  by (simp add: ex_man_fields)

lemma ex_get_route:
  "public_route ex_get_request = To_key" "rq_Method ex_get_request = ''GET''"
  "rq_Path ex_get_request = ''/key/k''"
  by (simp_all add: public_route_def ex_get_request_def ex_request_def ex_paths)

lemma unknown_key_changes_nothing_witness:
  "\<exists>r. NewPublicHandler ref_api ex_env ex_get_request (ex_start, ex_man) = (r, ex_start, ex_man) \<and>
     reply_status r = 401"
proof -
  obtain r w' man' where c: "NewPublicHandler ref_api ex_env ex_get_request (ex_start, ex_man) = (r, w', man')"
    by (cases "NewPublicHandler ref_api ex_env ex_get_request (ex_start, ex_man)") auto
  from unknown_key_changes_nothing [OF ex_unknown_key _ c] c show ?thesis
    by (simp add: ex_get_route)
qed
text \<open>
  C7. A value is stored whole or not at all. When a \<open>PUT\<close> on a key of the store is answered with
  204, the value handed to the engine is the complete body, although at most
  \<open>MaxValueBytes + 1\<close> bytes of it are read: a longer body is refused with 413 (400 for an
  empty key) and changes nothing.
\<close>

theorem put_never_truncates:
  assumes "fmlookup (man_tenants man) (client_key rq) = Some db"
    and "db_maxValueBytes db = int MaxValueBytes" "rq_Method rq = ''PUT''"
    and "key_handler api ev rq (w, man) = (r, w', man')"
  shows "(reply_status r = 204 \<longrightarrow>
       (\<exists>db'. db_Put api ev (path_key rq) (rq_Body rq) w db = (Ok (), w', db'))) \<and>
    (MaxValueBytes < length (rq_Body rq) \<longrightarrow>
       reply_status r = (if path_key rq = '''' then 400 else 413) \<and> w' = w \<and>
       man' = set_tenant (client_key rq) db man)"
proof -
  let ?M = "MaxValueBytes"
  have l: "man_serve op ev (client_key rq) w man =
      (case op ev w db of (x, w', db') \<Rightarrow> (x, w', set_tenant (client_key rq) db' man))" for op
    using assms(1) by (simp add: man_serve_def Lookup_def)
  note K = key_handler_def Let_def l [unfolded client_key_def] path_key_def client_key_def
  show ?thesis
  proof (cases "length (rq_Body rq) \<le> ?M")
    case False
    have b: "read_limited (?M + 1) rq = Some (take (?M + 1) (rq_Body rq))"
      using False by (simp add: read_limited_def)
    have long: "db_maxValueBytes db < int (length (take (?M + 1) (rq_Body rq)))"
      using False assms(2) by simp
    then have "db_Put api ev (path_key rq) (take (?M + 1) (rq_Body rq)) w db =
        (Err (if path_key rq = '''' then errEmptyKey else ErrTooLarge), w, db)"
      by (simp add: db_Put_def)
    then have "r = store_Error (if path_key rq = '''' then errEmptyKey else ErrTooLarge)"
      "w' = w" "man' = set_tenant (client_key rq) db man"
      using assms(3,4) b by (auto simp: K answer_def)
    with False show ?thesis by (simp add: error_defs)
  next
    case True
    show ?thesis
    proof (cases "read_limited (?M + 1) rq")
      case None
      with assms(3,4) True show ?thesis by (auto simp: key_handler_def)
    next
      case (Some body)
      then have b: "read_limited (?M + 1) rq = Some (rq_Body rq)"
        using True by (auto simp: read_limited_def split: if_splits)
      obtain x w1 db1 where c: "db_Put api ev (path_key rq) (rq_Body rq) w db = (x, w1, db1)"
        by (cases "db_Put api ev (path_key rq) (rq_Body rq) w db")
      have r: "r = answer (\<lambda>_. no_content) x" "w' = w1"
        using assms(3,4) b c by (auto simp: K)
      show ?thesis
      proof (cases x)
        case (Err e)
        then have "se_Status e \<noteq> 204" using put_error_status [OF c [unfolded Err]] by auto
        with r Err True show ?thesis by (simp add: answer_def)
      qed (use r c True in \<open>simp_all add: answer_def reply_status_def\<close>)
    qed
  qed
qed

definition ex_full_man :: "string manager" where
  "ex_full_man =
     (let m = NewDatabaseManager ''/data'' (int MaxValueBytes) 1000 ex_config
      in set_tenant ex_key (man_NewDatabase (ex_time 0) (ex_time 0) ex_key m) m)"

definition ex_big_put :: http_request where
  "ex_big_put = ex_request ''PUT'' ''/key/k'' ex_key (replicate (MaxValueBytes + 1) CHR ''x'')"

lemma put_never_truncates_witness:
  "reply_status (fst (key_handler ref_api ex_env ex_big_put (ex_start, ex_full_man))) = 413"
proof -
  obtain db where d: "fmlookup (man_tenants ex_full_man) (client_key ex_big_put) = Some db"
    "db_maxValueBytes db = int MaxValueBytes"
    by (auto simp: ex_full_man_def Let_def client_key_def ex_big_put_def ex_request_def
        man_NewDatabase_def NewDatabase_def NewDatabaseManager_def TouchActivity_def)
  obtain r w' man' where c: "key_handler ref_api ex_env ex_big_put (ex_start, ex_full_man) = (r, w', man')"
    by (cases "key_handler ref_api ex_env ex_big_put (ex_start, ex_full_man)") auto
  have "rq_Method ex_big_put = ''PUT''" "path_key ex_big_put = ''k''" "MaxValueBytes < length (rq_Body ex_big_put)"
    by (simp_all add: ex_big_put_def ex_request_def path_key_def trim_prefix_def)
  with put_never_truncates [OF d _ c] c show ?thesis by simp
qed

text \<open>
  C31. The status page counts what clients got. With the sampler well-formed, the public handler
  behind \<open>Measure\<close> and its \<open>statusWriter\<close> sends the same reply and leaves the same state as
  alone, and no recording panics. A completed \<open>GET\<close>, \<open>PUT\<close> or \<open>DELETE\<close> of a path below \<open>/key/\<close>
  and a completed \<open>GET\<close> of \<open>/range\<close> is recorded once: under its method, or \<open>RANGE\<close>, with its
  duration among the writes for \<open>PUT\<close> and \<open>DELETE\<close> and among the reads otherwise, and as a
  success exactly when the status the client was sent is below 400. Nothing else is recorded.
\<close>

theorem measure_records_answers:
  assumes "sm_inv sm" "NewPublicHandler api ev rq s = (r, s')"
  shows "\<exists>sm'. Measure (NewPublicHandler api ev) t0 t1 now rq (s, sm) = Some (r, s', sm') \<and> sm_inv sm' \<and>
    (if r \<noteq> Panicked \<and>
        (has_prefix (rq_Path rq) ''/key/'' \<and> rq_Method rq \<in> {''GET'', ''PUT'', ''DELETE''} \<or>
         rq_Path rq = ''/range'' \<and> rq_Method rq = ''GET'')
     then
       let d = time_Sub t1 t0; write = (rq_Method rq \<in> {''PUT'', ''DELETE''}); ok = (reply_status r < 400) in
       sm_totalOps sm' = sm_totalOps sm + 1 \<and> sm_lastOK sm' = ok \<and>
       sm_recentOps sm' = window statusFeedSize (sm_recentOps sm @
         [\<lparr>op_when = now, op_op = (if rq_Path rq = ''/range'' then ''RANGE'' else rq_Method rq),
           op_latency = d, op_ok = ok\<rparr>]) \<and>
       lr_samples (sm_writeLat sm') =
         window statusLatWindow (lr_samples (sm_writeLat sm) @ (if write then [d] else [])) \<and>
       lr_samples (sm_readLat sm') =
         window statusLatWindow (lr_samples (sm_readLat sm) @ (if write then [] else [d]))
     else sm' = sm)"
proof -
  let ?d = "time_Sub t1 t0"
  obtain code where t: "through_statusWriter r = (r, code)"
    using through_statusWriter_reply [of r] by (cases "through_statusWriter r") auto
  have code: "code = Some (reply_status r)" if "r \<noteq> Panicked"
    using public_status_kept [of api ev rq s] assms(2) t that by (simp add: status_kept_def)
  have panic: "code = None" if "r = Panicked"
    using that t by (simp add: through_statusWriter_def)
  show ?thesis
  proof (cases "classifyRequest (rq_Method rq) (rq_Path rq)")
    case None
    then have "\<not> (has_prefix (rq_Path rq) ''/key/'' \<and> rq_Method rq \<in> {''GET'', ''PUT'', ''DELETE''} \<or>
         rq_Path rq = ''/range'' \<and> rq_Method rq = ''GET'')"
      by (auto simp: classifyRequest_def split: if_splits)
    with None assms show ?thesis by (auto simp: Measure_def)
  next
    case (Some p)
    obtain op isWrite where p: "p = (op, isWrite)" by (cases p)
    have tracked: "has_prefix (rq_Path rq) ''/key/'' \<and> rq_Method rq \<in> {''GET'', ''PUT'', ''DELETE''} \<or>
         rq_Path rq = ''/range'' \<and> rq_Method rq = ''GET''"
      and op: "op = (if rq_Path rq = ''/range'' then ''RANGE'' else rq_Method rq)"
      and wr: "isWrite = (rq_Method rq \<in> {''PUT'', ''DELETE''})"
      using Some p by (auto simp: classifyRequest_def split: if_splits)
    show ?thesis
    proof (cases "r = Panicked")
      case True
      with assms Some p t panic [OF True] show ?thesis by (simp add: Measure_def)
    next
      case False
      obtain sm' where R: "sampler_record op isWrite ?d (reply_status r < 400) now sm = Some sm'" "sm_inv sm'"
        "lr_samples (sm_writeLat sm') =
           window statusLatWindow (lr_samples (sm_writeLat sm) @ (if isWrite then [?d] else []))"
        "lr_samples (sm_readLat sm') =
           window statusLatWindow (lr_samples (sm_readLat sm) @ (if isWrite then [] else [?d]))"
        "sm_recentOps sm' = window statusFeedSize (sm_recentOps sm @
           [\<lparr>op_when = now, op_op = op, op_latency = ?d, op_ok = reply_status r < 400\<rparr>])"
        "sm_totalOps sm' = sm_totalOps sm + 1" "sm_lastOK sm' = (reply_status r < 400)"
        using sampler_record_spec [OF assms(1), of op isWrite ?d "reply_status r < 400" now] by blast
      have "Measure (NewPublicHandler api ev) t0 t1 now rq (s, sm) = Some (r, s', sm')"
        using Some assms(2) t code [OF False] R(1) by (simp add: Measure_def p)
      with R(2-7) tracked False show ?thesis
        by (intro exI [of _ sm']) (simp only: op wr Let_def simp_thms if_True)
    qed
  qed
qed

lemma ex_http_unknown:
  "NewPublicHandler ref_api ex_env ex_get_request (ex_start, ex_man) =
     (add_calls cors_headers (store_Error ErrUnknownAPIKey), ex_start, ex_man)"
proof -
  have "rq_Method ex_get_request \<noteq> ''OPTIONS''" by (simp add: ex_get_route)
  then show ?thesis
    by (simp add: public_key_route ex_get_route key_handler_def Let_def man_serve_def Lookup_def
        ex_man_fields answer_def)
qed

lemma measure_records_answers_witness:
  "\<exists>sm'. Measure (NewPublicHandler ref_api ex_env) (ex_time 0) (ex_time 1) (ex_time 1) ex_get_request
       ((ex_start, ex_man), NewStatusSampler (ex_time 0) (ex_time 0)) =
     Some (add_calls cors_headers (store_Error ErrUnknownAPIKey), (ex_start, ex_man), sm') \<and>
     sm_totalOps sm' = 1 \<and> \<not> sm_lastOK sm'"
proof -
  have r: "reply_status (add_calls cors_headers (store_Error ErrUnknownAPIKey)) = 401"
    "add_calls cors_headers (store_Error ErrUnknownAPIKey) \<noteq> Panicked"
    by (simp_all add: error_defs store_Error_def)
  have n: "sm_totalOps (NewStatusSampler (ex_time 0) (ex_time 0)) = 0" by (simp add: NewStatusSampler_def)
  from measure_records_answers [OF NewStatusSampler_inv [of "ex_time 0" "ex_time 0"], OF ex_http_unknown,
      of "ex_time 0" "ex_time 1" "ex_time 1"] r n
  show ?thesis by (auto simp: ex_get_route Let_def)
qed
text \<open>
  C4. A client reads what it wrote. When a \<open>PUT\<close> is answered with 204 and the next request, a
  \<open>GET\<close> of the same path with the same \<open>X-Api-Key\<close>, is answered with 200, the body of the
  second answer is, byte by byte, the body of the \<open>PUT\<close>.
\<close>

theorem http_read_your_write:
  assumes ok: "engine_ok api srv dat inr" and inv: "man_inv srv dat w man"
    and db: "fmlookup (man_tenants man) (client_key rqp) = Some db" "db_maxValueBytes db = int MaxValueBytes"
    and short: "man_view dat w man (client_key rqp) = Some m" "short_values m"
    and rq: "rq_Method rqp = ''PUT''" "rq_Method rqg = ''GET''" "client_key rqg = client_key rqp"
      "rq_Path rqg = rq_Path rqp" "rq_EscapedPath rqg = rq_EscapedPath rqp"
    and put: "NewPublicHandler api ev1 rqp (w, man) = (rp, w1, man1)" "reply_status rp = 204"
    and get: "NewPublicHandler api ev2 rqg (w1, man1) = (rg, w2, man2)" "reply_status rg = 200"
  shows "reply_body rg = rq_Body rqp"
proof -
  let ?k = "client_key rqp" and ?key = "path_key rqp"
  have pk: "path_key rqg = ?key" using rq(4) by (simp add: path_key_def)
  from put_204 [OF put(1) rq(1) put(2)] obtain body where route: "routes_to_key rqp"
    and b: "read_limited (MaxValueBytes + 1) rqp = Some body"
    and sp: "man_serve (\<lambda>ev w db. db_Put api ev ?key body w db) ev1 ?k w man = (Ok (), w1, man1)" by blast
  have "\<exists>db'. db_Put api ev1 ?key body w db = (Ok (), w1, db')"
    using sp db(1) by (auto simp: man_serve_def Lookup_def split: prod.splits)
  then have len: "int (length body) \<le> int MaxValueBytes"
    using db(2) by (auto simp: db_Put_def split: if_splits)
  then have body: "body = rq_Body rqp"
    using b by (auto simp: read_limited_def split: if_splits)
  have v1: "man_inv srv dat w1 man1" "spec_step inr (man_view dat w man) (L_put ?k ?key body) (man_view dat w1 man1)"
    using server_step_sim [OF ok do_put [OF sp, of "L_put ?k ?key body"] inv] by (simp_all add: result_label_def)
  from v1(2) have s1: "man_view dat w1 man1 = (man_view dat w man)(?k \<mapsto> m(?key \<mapsto> body))"
    using short(1) by (auto elim: spec_putE)
  have "routes_to_key rqg" using route routes_to_key_same [OF rq(5)] rq(1,2) by simp
  from get_200 [OF get(1) rq(2) get(2) this]
  have sg: "man_serve (\<lambda>ev w db. db_Get api ev ?key w db) ev2 ?k w1 man1 = (Ok (reply_body rg, True), w2, man2)"
    by (simp add: pk rq(3))
  have "spec_step inr (man_view dat w1 man1) (L_get ?k ?key (Some (reply_body rg))) (man_view dat w2 man2)"
    using server_step_sim(2) [OF ok do_get [OF sg, of "L_get ?k ?key (Some (reply_body rg))"] v1(1)]
    by (simp add: result_label_def)
  then obtain m1 where m1: "man_view dat w1 man1 ?k = Some m1"
    "short_values m1 \<longrightarrow> m1 ?key = Some (reply_body rg)" by (cases rule: spec_getE) blast
  have "short_values (m(?key \<mapsto> body))"
    using short(2) len by (auto simp: short_values_def MaxValueBytes_def split: if_splits)
  moreover have "m1 = m(?key \<mapsto> body)" using m1(1) s1 by simp
  ultimately have "(m(?key \<mapsto> body)) ?key = Some (reply_body rg)" using m1(2) by blast
  with body show ?thesis by simp
qed

definition ex_wide :: "rat \<Rightarrow> string database" where
  "ex_wide n = (ex_left n)\<lparr>db_maxValueBytes := int MaxValueBytes\<rparr>"

definition ex_wide_start :: "string manager" where
  "ex_wide_start = NewDatabaseManager ''/data'' (int MaxValueBytes) 1000 ex_config"

lemma ex_wide_put:
  "db_Put ref_api ex_env ''k'' ''v'' (ex_store []) (ex_wide 99) =
     (Ok (), ex_store [\<lparr>kv_Key = ''k'', kv_Value = ''v''\<rparr>], ex_wide 97)"
  using ex_credit
  by (simp add: db_Put_def ex_wide_def ex_tenant_def ex_env_def ex_config_def ex_left_def bucket_Consume_def
      PutCost_def tb_Consume_def tb_refill_def Let_def f64_min_def f64_sub_def ex_bucket_def MaxValueBytes_def
      on_engine_def cgo_TotalSize_def cgo_Put_def ref_api_def ex_store_def ex_world_def kvs_total_def
      TouchActivity_def time_Unix_sec_def ex_time_def fun_eq_iff)

lemma ex_wide_get:
  "db_Get ref_api ex_env ''k'' (ex_store [\<lparr>kv_Key = ''k'', kv_Value = ''v''\<rparr>]) (ex_wide 97) =
     (Ok (''v'', True), ex_store [\<lparr>kv_Key = ''k'', kv_Value = ''v''\<rparr>], ex_wide 95)"
  using ex_credit
  by (simp add: db_Get_def ex_wide_def ex_tenant_def ex_env_def ex_config_def ex_left_def bucket_Consume_def
      FlatCost_def ReadCost_def charge_read_def bucket_Charge_def tb_Charge_def
      tb_Consume_def tb_refill_def Let_def f64_min_def f64_sub_def ex_bucket_def
      on_engine_def cgo_Get_def ref_api_def ex_store_def ex_world_def GoStringN_def C_int_def
      TouchActivity_def time_Unix_sec_def ex_time_def)

lemma ex_wide_inv: "man_inv ref_srv ref_dat (ex_store []) (set_tenant ex_key (ex_wide 99) ex_wide_start)"
proof (rule man_inv_set)
  show "man_inv ref_srv ref_dat (ex_store []) ex_wide_start"
    unfolding ex_wide_start_def using ex_config_sane
    by (intro man_inv_New) (simp_all add: ref_dat_def ex_store_def fun_eq_iff MaxValueBytes_def)
  have "tenant_wf ref_srv ref_dat (ex_store []) (ex_wide 99)"
    using ex_dir_clean ex_config_sane ex_bucket_inv
    by (simp add: tenant_wf_def db_linked_def db_housed_def ref_srv_def ex_store_def ex_tenant_def
        ex_world_def ex_wide_def ex_left_def db_inv_def ex_bucket_def MaxValueBytes_def
        tb_inv_def fin_nonneg_def)
  then show "tenant_ok ref_srv ref_dat (ex_store []) ex_wide_start ex_key (ex_wide 99)"
    using ex_key_api ex_dir_clean(3)
    by (simp add: tenant_ok_def tenant_dir_def ex_wide_start_def NewDatabaseManager_def ex_wide_def
        ex_left_def ex_tenant_def)
qed

definition ex_put_request :: http_request where
  "ex_put_request = ex_request ''PUT'' ''/key/k'' ex_key ''v''"

lemma ex_path_keys:
  "path_key ex_put_request = ''k''" "client_key ex_put_request = ex_key" "rq_Body ex_put_request = ''v''"
  "path_key ex_get_request = ''k''" "client_key ex_get_request = ex_key"
  by (simp_all add: path_key_def client_key_def ex_put_request_def ex_get_request_def ex_request_def trim_prefix_def)

lemma ex_http_put:
  "NewPublicHandler ref_api ex_env ex_put_request (ex_store [], set_tenant ex_key (ex_wide 99) ex_wide_start) =
     (add_calls cors_headers no_content, ex_store [\<lparr>kv_Key = ''k'', kv_Value = ''v''\<rparr>],
      set_tenant ex_key (ex_wide 97) (set_tenant ex_key (ex_wide 99) ex_wide_start))"
proof -
  let ?man = "set_tenant ex_key (ex_wide 99) ex_wide_start"
  have r: "routes_to_key ex_put_request" "rq_Method ex_put_request = ''PUT''"
    by (simp_all add: public_route_def ex_put_request_def ex_request_def ex_paths)
  have b: "read_limited (MaxValueBytes + 1) ex_put_request = Some ''v''"
    by (simp add: read_limited_def ex_put_request_def ex_request_def MaxValueBytes_def)
  have "man_serve (\<lambda>ev w db. db_Put ref_api ev ''k'' ''v'' w db) ex_env ex_key (ex_store []) ?man =
      (Ok (), ex_store [\<lparr>kv_Key = ''k'', kv_Value = ''v''\<rparr>], set_tenant ex_key (ex_wide 97) ?man)"
    by (simp add: man_serve_def Lookup_def ex_wide_put)
  with b r ex_path_keys show ?thesis
    by (simp add: public_key_route key_handler_def Let_def path_key_def [symmetric] client_key_def [symmetric] answer_def)
qed

lemma ex_http_get:
  "NewPublicHandler ref_api ex_env ex_get_request
      (ex_store [\<lparr>kv_Key = ''k'', kv_Value = ''v''\<rparr>], set_tenant ex_key (ex_wide 97) man) =
     (add_calls cors_headers (Replied [Write ''v'']), ex_store [\<lparr>kv_Key = ''k'', kv_Value = ''v''\<rparr>],
      set_tenant ex_key (ex_wide 95) (set_tenant ex_key (ex_wide 97) man))"
proof -
  have r: "routes_to_key ex_get_request" "rq_Method ex_get_request = ''GET''"
    by (simp_all add: public_route_def ex_get_request_def ex_request_def ex_paths)
  have "man_serve (\<lambda>ev w db. db_Get ref_api ev ''k'' w db) ex_env ex_key
      (ex_store [\<lparr>kv_Key = ''k'', kv_Value = ''v''\<rparr>]) (set_tenant ex_key (ex_wide 97) man) =
      (Ok (''v'', True), ex_store [\<lparr>kv_Key = ''k'', kv_Value = ''v''\<rparr>],
       set_tenant ex_key (ex_wide 95) (set_tenant ex_key (ex_wide 97) man))"
    by (simp add: man_serve_def Lookup_def ex_wide_get)
  with r ex_path_keys show ?thesis
    by (simp add: public_key_route key_handler_def Let_def path_key_def [symmetric] client_key_def [symmetric] answer_def)
qed

lemma public_api_refines_store_witness:
  "http_run ref_inr [ex_key \<mapsto> Map.empty]
     [(ex_put_request, add_calls cors_headers no_content),
      (ex_get_request, add_calls cors_headers (Replied [Write ''v'']))] [ex_key \<mapsto> [''k'' \<mapsto> ''v'']]"
proof -
  let ?man = "set_tenant ex_key (ex_wide 99) ex_wide_start"
  let ?kvs = "[\<lparr>kv_Key = ''k'', kv_Value = ''v''\<rparr>]"
  let ?rqs = "[(ex_env, ex_put_request), (ex_env, ex_get_request)]"
  let ?rs = "[(ex_put_request, add_calls cors_headers no_content),
    (ex_get_request, add_calls cors_headers (Replied [Write ''v'']))]"
  let ?man2 = "set_tenant ex_key (ex_wide 95) (set_tenant ex_key (ex_wide 97) ?man)"
  have s: "http_serve ref_api ?rqs (ex_store [], ?man) = (?rs, ex_store ?kvs, ?man2)"
    by (simp add: ex_http_put ex_http_get)
  have f: "all_fresh ref_api ?rqs (ex_store [], ?man)"
    by (simp add: ex_http_put) (simp add: ex_put_request_def ex_get_request_def ex_request_def)
  have p: "Panicked \<notin> snd ` set ?rs" by (simp add: add_calls_def no_content_def)
  have v: "man_view ref_dat (ex_store []) ?man = [ex_key \<mapsto> Map.empty]"
    "man_view ref_dat (ex_store ?kvs) ?man2 = [ex_key \<mapsto> [''k'' \<mapsto> ''v'']]"
    by (simp_all add: fun_eq_iff man_view_def db_view_def ref_dat_def ex_store_def ex_wide_def ex_left_def
        ex_tenant_def ex_wide_start_def NewDatabaseManager_def)
  from public_api_refines_store [OF ref_engine_ok ex_wide_inv f s p] show ?thesis unfolding v by blast
qed

lemma http_read_your_write_witness:
  "reply_body (fst (NewPublicHandler ref_api ex_env ex_get_request
     (snd (NewPublicHandler ref_api ex_env ex_put_request
       (ex_store [], set_tenant ex_key (ex_wide 99) ex_wide_start))))) = rq_Body ex_put_request"
proof -
  let ?man = "set_tenant ex_key (ex_wide 99) ex_wide_start"
  have d: "fmlookup (man_tenants ?man) (client_key ex_put_request) = Some (ex_wide 99)"
    "db_maxValueBytes (ex_wide 99) = int MaxValueBytes"
    by (simp_all add: ex_path_keys ex_wide_def)
  have v: "man_view ref_dat (ex_store []) ?man (client_key ex_put_request) = Some (kv_map [])" "short_values (kv_map [])"
    by (simp_all add: ex_path_keys man_view_def db_view_def ref_dat_def ex_store_def ex_wide_def ex_left_def
        ex_tenant_def short_values_def fun_eq_iff)
  have q: "rq_Method ex_put_request = ''PUT''" "rq_Method ex_get_request = ''GET''"
    "client_key ex_get_request = client_key ex_put_request" "rq_Path ex_get_request = rq_Path ex_put_request"
    "rq_EscapedPath ex_get_request = rq_EscapedPath ex_put_request"
    by (simp_all add: ex_path_keys) (simp_all add: ex_put_request_def ex_get_request_def ex_request_def)
  have s: "reply_status (add_calls cors_headers no_content) = 204"
    "reply_status (add_calls cors_headers (Replied [Write ''v''])) = 200" by simp_all
  from http_read_your_write [OF ref_engine_ok ex_wide_inv d v q ex_http_put s(1) ex_http_get s(2)]
  show ?thesis unfolding ex_http_put fst_conv snd_conv ex_http_get .
qed

section \<open>JSON\<close>

text \<open>The object of a pair, with the insides of its two literals left open.\<close>

definition kv_object :: "string \<Rightarrow> string \<Rightarrow> string" where
  "kv_object k v = ''{'' @ [CHR 0x22] @ ''key'' @ [CHR 0x22] @ '':'' @ [CHR 0x22] @ k @ [CHR 0x22] @ '','' @
     [CHR 0x22] @ ''value'' @ [CHR 0x22] @ '':'' @ [CHR 0x22] @ v @ [CHR 0x22] @ ''}''"

lemma json_kv_object: "json_kv p = kv_object (json_chars (kv_Key p)) (json_chars (kv_Value p))"
proof -
  have "json_chars ''key'' = ''key''" "json_chars ''value'' = ''value''"
    by (simp_all add: json_chars_ascii json_ascii_def)
  then show ?thesis
    by (simp add: json_kv_def json_object_def json_member_def json_string_def kv_object_def)
qed

text \<open>
  Every pair a range returns is encoded as a well-formed JSON object of two string literals,
  whatever bytes the key and the value hold: no raw quote, backslash or control character inside
  a literal, every escape complete, and no angle bracket or ampersand that a browser could take
  for markup.
\<close>

lemma json_pairs_wellformed:
  "\<exists>k v. json_kv p = kv_object k v \<and> json_literal k \<and> json_literal v \<and>
     (set k \<union> set v) \<inter> {CHR ''<'', CHR ''>'', CHR ''&''} = {}"
proof (intro exI conjI)
  show "json_kv p = kv_object (json_chars (kv_Key p)) (json_chars (kv_Value p))" by (rule json_kv_object)
  show "json_literal (json_chars (kv_Key p))" "json_literal (json_chars (kv_Value p))"
    using json_chars_literal by blast+
  have "set (json_chars s) \<inter> {CHR ''<'', CHR ''>'', CHR ''&''} = {}" for s
    using json_chars_literal [of s] by blast
  then show "(set (json_chars (kv_Key p)) \<union> set (json_chars (kv_Value p))) \<inter> {CHR ''<'', CHR ''>'', CHR ''&''} = {}"
    by (simp only: Int_Un_distrib2 Un_empty simp_thms)
qed

text \<open>
  A reader of the JSON of a pair gets back exactly its key and its value when both are valid
  UTF-8.
\<close>

lemma json_pairs_read_back:
  assumes "utf8_valid (kv_Key p)" "utf8_valid (kv_Value p)"
  shows "\<exists>k v. json_kv p = kv_object k v \<and> json_literal k \<and> json_literal v \<and>
    json_read k = kv_Key p \<and> json_read v = kv_Value p"
  using json_chars_literal [of "kv_Key p"] json_chars_literal [of "kv_Value p"]
    json_chars_read [OF assms(1)] json_chars_read [OF assms(2)]
  by (intro exI [of _ "json_chars (kv_Key p)"] exI [of _ "json_chars (kv_Value p)"])
    (simp only: json_kv_object simp_thms)

lemma json_pairs_read_back_witness:
  "\<exists>k v. json_kv \<lparr>kv_Key = ''a'', kv_Value = [CHR 0x22, CHR 0x0A, CHR ''<'', CHR 0xC3, CHR 0xA9]\<rparr> =
     kv_object k v \<and> json_read v = [CHR 0x22, CHR 0x0A, CHR ''<'', CHR 0xC3, CHR 0xA9]"
proof -
  have "utf8_valid ''a''" "utf8_valid [CHR 0x22, CHR 0x0A, CHR ''<'', CHR 0xC3, CHR 0xA9]"
    by (simp_all add: utf8_valid.simps utf8_len_def utf8_cont_def)
  from json_pairs_read_back [of "\<lparr>kv_Key = ''a'', kv_Value = [CHR 0x22, CHR 0x0A, CHR ''<'', CHR 0xC3, CHR 0xA9]\<rparr>",
      unfolded kv.simps, OF this]
  show ?thesis by (elim exE conjE) (intro exI conjI)
qed

text \<open>
  Other bytes are replaced: the JSON of a range does not tell such values apart, although a
  \<open>GET\<close> of the same key returns them as they are.
\<close>

lemma range_json_loses_bytes:
  "json_pairs (Some [\<lparr>kv_Key = k, kv_Value = [CHR 0xFF]\<rparr>]) =
   json_pairs (Some [\<lparr>kv_Key = k, kv_Value = [CHR 0xFE]\<rparr>])"
  by (simp add: json_pairs_def json_kv_def json_string_def json_chars.simps utf8_len_def)

end
