(* ===== verification/Endpoints.thy ===== *)
theory Endpoints
  imports Status
begin

text \<open>
  \<open>website/endpoints.go\<close>: the documentation of the four requests, with the examples that are
  embedded in the program.
\<close>

section \<open>The documentation of the endpoints\<close>

record shape_row =
  sr_Kind :: string
  sr_Value :: string

record endpoint =
  ep_ID :: string
  ep_Method :: string
  ep_Path :: string
  ep_Desc :: string
  ep_Rows :: "shape_row list"
  ep_Curl :: string
  ep_JS :: string
  ep_Go :: string
  ep_Python :: string

definition MethodClass :: "endpoint \<Rightarrow> string" where
  "MethodClass e = ''method '' @ map lower_char (ep_Method e)"

text \<open>\<open>strings.ReplaceAll\<close> for a non-empty old text.\<close>

function replace_all :: "string \<Rightarrow> string \<Rightarrow> string \<Rightarrow> string" where
  "replace_all old new s =
     (if s = [] \<or> old = [] then s
      else if has_prefix s old then new @ replace_all old new (drop (length old) s)
      else hd s # replace_all old new (tl s))"
  by pat_completeness auto
termination by (relation "measure (\<lambda>(old, new, s). length s)") auto

declare replace_all.simps [simp del]

definition quote_char :: char where "quote_char = CHR 0x22"

definition path_span :: "string \<Rightarrow> string" where
  "path_span ph = ''<span class='' @ [quote_char] @ ''path-param'' @ [quote_char] @ ''>'' @ ph @ ''</span>''"

definition PathHTML :: "endpoint \<Rightarrow> string" where
  "PathHTML e = foldl (\<lambda>s ph. replace_all ph (path_span ph) s) (ep_Path e) [''KEY'', ''START'', ''END'']"

definition apiHost :: string where
  "apiHost = ''db.fredyang.com''"

definition row :: "string \<Rightarrow> string \<Rightarrow> shape_row" where
  "row k v = \<lparr>sr_Kind = k, sr_Value = v\<rparr>"

definition new_endpoint :: "string \<Rightarrow> string \<Rightarrow> string \<Rightarrow> string \<Rightarrow> shape_row list \<Rightarrow> endpoint" where
  "new_endpoint i m p d rows =
     \<lparr>ep_ID = i, ep_Method = m, ep_Path = p, ep_Desc = d, ep_Rows = rows, ep_Curl = '''', ep_JS = '''',
      ep_Go = '''', ep_Python = ''''\<rparr>"

definition endpoints :: "endpoint list" where
  "endpoints =
     [new_endpoint ''get'' ''GET'' ''/key/KEY'' ''Get a value from a key.''
        [row ''header'' ''X-Api-Key: your key'', row ''path param'' ''key'', row ''body'' em_dash,
         row ''response'' ''200, raw value as text''],
      new_endpoint ''put'' ''PUT'' ''/key/KEY'' ''Add or update a value from a key.''
        [row ''header'' ''X-Api-Key: your key'', row ''path param'' ''key'', row ''body'' ''value'',
         row ''response'' ''204, empty''],
      new_endpoint ''delete'' ''DELETE'' ''/key/KEY'' ''Delete a key/value pair.''
        [row ''header'' ''X-Api-Key: your key'', row ''path param'' ''key'', row ''body'' em_dash,
         row ''response'' ''204, empty''],
      new_endpoint ''range'' ''GET'' ''/range?start=START&end=END''
        ''Get a list of key/value pairs between two keys, determined alphabetically.''
        [row ''header'' ''X-Api-Key: your key'', row ''query params'' ''start, end: key range bounds'',
         row ''body'' em_dash, row ''response'' ''200, JSON array of key/value pairs'']]"

text \<open>The examples are read from the embedded files; a missing one is a panic, \<open>None\<close>.\<close>

definition trim_right_newlines :: "string \<Rightarrow> string" where
  "trim_right_newlines s = rev (dropWhile (\<lambda>c. c = newline) (rev s))"

definition loadExample :: "(string \<Rightarrow> string option) \<Rightarrow> string \<Rightarrow> string \<Rightarrow> string option" where
  "loadExample fs i ext =
     map_option trim_right_newlines (fs (''static/_examples/'' @ i @ ''/example.'' @ ext))"

definition load_examples :: "(string \<Rightarrow> string option) \<Rightarrow> endpoint \<Rightarrow> endpoint option" where
  "load_examples fs e =
     (case (loadExample fs (ep_ID e) ''sh'', loadExample fs (ep_ID e) ''js'',
            loadExample fs (ep_ID e) ''go'', loadExample fs (ep_ID e) ''py'') of
        (Some sh, Some js, Some go, Some py) \<Rightarrow>
          Some (e\<lparr>ep_Curl := sh, ep_JS := js, ep_Go := go, ep_Python := py\<rparr>)
      | _ \<Rightarrow> None)"

fun init_endpoints :: "(string \<Rightarrow> string option) \<Rightarrow> endpoint list \<Rightarrow> endpoint list option" where
  "init_endpoints fs [] = Some []"
| "init_endpoints fs (e # es) =
     (case load_examples fs e of
        None \<Rightarrow> None | Some e' \<Rightarrow> map_option (\<lambda>es'. e' # es') (init_endpoints fs es))"

end
