(* ===== verification/Templates.thy ===== *)
theory Templates
  imports Endpoints "HOL-Library.Sublist"
begin

text \<open>
  What the generated code of \<open>website/*_templ.go\<close> does: a component is a sequence of statements
  that write to one buffer, each followed by \<open>if err != nil { return err }\<close>. The statements are
  the pieces below and \<open>Render\<close> runs them. The runtime of templ is not in the repository; it is
  the record \<open>templ_runtime\<close>, a parameter.
\<close>

section \<open>The runtime of templ\<close>

text \<open>
  \<open>'b\<close> is a rendering under way: the context of the request, its \<open>ResponseWriter\<close> and the
  buffer. An error is its text, \<open>None\<close> is \<open>nil\<close>. \<open>tr_start\<close> is the state a handler renders
  from and \<open>tr_sent\<close> what has reached the \<open>ResponseWriter\<close>. The children of a component
  (\<open>GetChildren\<close>, \<open>ClearChildren\<close>) are never used by these templates.
\<close>

record 'b templ_runtime =
  tr_start :: 'b
  tr_sent :: "'b \<Rightarrow> string"
  ctx_Err :: "'b \<Rightarrow> string option"
  GetBuffer :: "'b \<Rightarrow> bool \<times> 'b"
  ReleaseBuffer :: "'b \<Rightarrow> string option \<times> 'b"
  WriteString :: "nat \<Rightarrow> string \<Rightarrow> 'b \<Rightarrow> string option \<times> 'b"
  Buffer_WriteString :: "string \<Rightarrow> 'b \<Rightarrow> string option \<times> 'b"
  JoinStringErrs :: "string \<Rightarrow> string \<times> string option"
  EscapeString :: "string \<Rightarrow> string"
  ResolveAttributeValue :: "string \<Rightarrow> string \<times> string option"
  CSSClasses_String :: "string list \<Rightarrow> string"
  RenderCSSItems :: "string list \<Rightarrow> 'b \<Rightarrow> string option \<times> 'b"
  Raw_Render :: "string \<Rightarrow> 'b \<Rightarrow> string option \<times> 'b"
  templ_Error :: "string \<Rightarrow> string \<Rightarrow> nat \<Rightarrow> nat \<Rightarrow> string"

section \<open>Components\<close>

text \<open>
  The statements: a literal with its index; an escaped text and an attribute value, with the file,
  line and column an error names; the value of a class attribute; the style items of classes; raw
  markup; another component.
\<close>

datatype piece =
    Lit nat string
  | Txt string nat nat string
  | Attr string nat nat string
  | ClassAttr string nat nat string
  | RenderCSS "string list"
  | Raw string
  | Sub "piece list"

type_synonym component = "piece list"

text \<open>\<open>templruntime.GeneratedTemplate\<close> around the statements of a component.\<close>

definition GeneratedTemplate ::
  "'b templ_runtime \<Rightarrow> ('b \<Rightarrow> string option \<times> 'b) \<Rightarrow> 'b \<Rightarrow> string option \<times> 'b" where
  "GeneratedTemplate rt body s =
     (case ctx_Err rt s of
        Some e \<Rightarrow> (Some e, s)
      | None \<Rightarrow>
          (case GetBuffer rt s of
             (isBuffer, s1) \<Rightarrow>
               (case body s1 of
                  (err, s2) \<Rightarrow>
                    if isBuffer then (err, s2)
                    else
                      (case ReleaseBuffer rt s2 of
                         (bufErr, s3) \<Rightarrow> (if err = None then bufErr else err, s3)))))"

definition write_value ::
  "'b templ_runtime \<Rightarrow> string \<Rightarrow> nat \<Rightarrow> nat \<Rightarrow> (string \<Rightarrow> string) \<Rightarrow> string \<times> string option \<Rightarrow> 'b \<Rightarrow>
   string option \<times> 'b" where
  "write_value rt file line col f r s =
     (case r of
        (v, Some e) \<Rightarrow> (Some (templ_Error rt e file line col), s)
      | (v, None) \<Rightarrow> Buffer_WriteString rt (f v) s)"

fun run_piece :: "'b templ_runtime \<Rightarrow> piece \<Rightarrow> 'b \<Rightarrow> string option \<times> 'b"
  and run_pieces :: "'b templ_runtime \<Rightarrow> component \<Rightarrow> 'b \<Rightarrow> string option \<times> 'b" where
  "run_piece rt (Lit i t) s = WriteString rt i t s"
| "run_piece rt (Txt file line col v) s =
     write_value rt file line col (EscapeString rt) (JoinStringErrs rt v) s"
| "run_piece rt (Attr file line col v) s =
     write_value rt file line col (\<lambda>t. t) (ResolveAttributeValue rt v) s"
| "run_piece rt (ClassAttr file line col c) s =
     write_value rt file line col (\<lambda>t. t) (ResolveAttributeValue rt (CSSClasses_String rt [c])) s"
| "run_piece rt (RenderCSS cs) s = RenderCSSItems rt cs s"
| "run_piece rt (Raw t) s = Raw_Render rt t s"
| "run_piece rt (Sub ps) s = GeneratedTemplate rt (\<lambda>s1. run_pieces rt ps s1) s"
| "run_pieces rt [] s = (None, s)"
| "run_pieces rt (p # ps) s =
     (case run_piece rt p s of
        (Some e, s1) \<Rightarrow> (Some e, s1)
      | (None, s1) \<Rightarrow> run_pieces rt ps s1)"

definition Render :: "'b templ_runtime \<Rightarrow> component \<Rightarrow> 'b \<Rightarrow> string option \<times> 'b" where
  "Render rt ps s = GeneratedTemplate rt (run_pieces rt ps) s"

section \<open>html.EscapeString\<close>

definition escape_char :: "char \<Rightarrow> string" where
  "escape_char c =
     (if c = CHR ''&'' then ''&amp;'' else if c = CHR 0x27 then ''&#39;''
      else if c = CHR ''<'' then ''&lt;'' else if c = CHR ''>'' then ''&gt;''
      else if c = CHR 0x22 then ''&#34;'' else [c])"

definition html_EscapeString :: "string \<Rightarrow> string" where
  "html_EscapeString s = concat (map escape_char s)"

section \<open>The text of a page\<close>

text \<open>What a component means: the text it writes when nothing fails.\<close>

fun piece_text :: "piece \<Rightarrow> string" where
  "piece_text (Lit i t) = t"
| "piece_text (Txt file line col v) = html_EscapeString v"
| "piece_text (Attr file line col v) = html_EscapeString v"
| "piece_text (ClassAttr file line col c) = html_EscapeString c"
| "piece_text (RenderCSS cs) = ''''"
| "piece_text (Raw t) = t"
| "piece_text (Sub ps) = concat (map piece_text ps)"

definition page_text :: "component \<Rightarrow> string" where
  "page_text ps = concat (map piece_text ps)"

lemma page_text_simps [simp]:
  "page_text [] = ''''" "page_text (p # ps) = piece_text p @ page_text ps"
  "page_text (ps @ qs) = page_text ps @ page_text qs"
  by (simp_all add: page_text_def)

lemma piece_text_Sub: "piece_text (Sub ps) = page_text ps"
  by (simp add: page_text_def)

text \<open>
  What the runtime promises. \<open>sofar\<close> is the text written so far, flushed or not, and
  \<open>buffered\<close> says that the writer is a buffer already. A write appends its text or fails
  after a part of it; the buffer of a nested component is that of its parent; releasing a
  buffer sends the rest or fails after a part of it. Texts and attribute values are escaped as
  \<open>html.EscapeString\<close> does; the text of a list of one plain class is
  this class (the generated code has no other lists), and a plain class has no style items.
\<close>

definition appends :: "('b \<Rightarrow> bool) \<Rightarrow> ('b \<Rightarrow> string) \<Rightarrow> string \<Rightarrow> ('b \<Rightarrow> string option \<times> 'b) \<Rightarrow> bool" where
  "appends buffered sofar t f \<longleftrightarrow>
     (\<forall>s e s'. buffered s \<longrightarrow> f s = (e, s') \<longrightarrow> buffered s' \<and>
        (if e = None then sofar s' = sofar s @ t else \<exists>p. prefix p t \<and> sofar s' = sofar s @ p))"

definition templ_ok :: "'b templ_runtime \<Rightarrow> ('b \<Rightarrow> bool) \<Rightarrow> ('b \<Rightarrow> string) \<Rightarrow> bool" where
  "templ_ok rt buffered sofar \<longleftrightarrow>
     (\<forall>i t. appends buffered sofar t (WriteString rt i t)) \<and>
     (\<forall>t. appends buffered sofar t (Buffer_WriteString rt t)) \<and>
     (\<forall>t. appends buffered sofar t (Raw_Render rt t)) \<and>
     (\<forall>cs. appends buffered sofar '''' (RenderCSSItems rt cs)) \<and>
     (\<forall>v. JoinStringErrs rt v = (v, None)) \<and> EscapeString rt = html_EscapeString \<and>
     (\<forall>v. ResolveAttributeValue rt v = (html_EscapeString v, None)) \<and> (\<forall>c. CSSClasses_String rt [c] = c) \<and>
     (\<forall>s. fst (GetBuffer rt s) = buffered s \<and> buffered (snd (GetBuffer rt s)) \<and>
        sofar (snd (GetBuffer rt s)) = sofar s) \<and>
     (\<forall>s e s'. ReleaseBuffer rt s = (e, s') \<longrightarrow>
        (if e = None then tr_sent rt s' = sofar s else prefix (tr_sent rt s') (sofar s))) \<and>
     \<not> buffered (tr_start rt) \<and> sofar (tr_start rt) = '''' \<and> tr_sent rt (tr_start rt) = ''''"

lemma templ_okD:
  assumes "templ_ok rt buffered sofar"
  shows "appends buffered sofar t (WriteString rt i t)" "appends buffered sofar t (Buffer_WriteString rt t)"
    "appends buffered sofar t (Raw_Render rt t)" "appends buffered sofar '''' (RenderCSSItems rt cs)"
    "JoinStringErrs rt v = (v, None)" "EscapeString rt = html_EscapeString"
    "ResolveAttributeValue rt v = (html_EscapeString v, None)" "CSSClasses_String rt [c] = c"
    "fst (GetBuffer rt s) = buffered s" "buffered (snd (GetBuffer rt s))" "sofar (snd (GetBuffer rt s)) = sofar s"
    "ReleaseBuffer rt s = (e, s') \<Longrightarrow> prefix (tr_sent rt s') (sofar s) \<and> (e = None \<longrightarrow> tr_sent rt s' = sofar s)"
    "\<not> buffered (tr_start rt)" "sofar (tr_start rt) = ''''" "tr_sent rt (tr_start rt) = ''''"
  using assms unfolding templ_ok_def by (fastforce split: if_splits)+

section \<open>Rendering writes the text of the page\<close>

lemma appends_nil: "appends buffered sofar '''' (\<lambda>s. (None, s))"
  by (simp add: appends_def)

lemma appends_seq:
  assumes "appends buffered sofar t f" "appends buffered sofar u g"
  shows "appends buffered sofar (t @ u) (\<lambda>s. case f s of (Some e, s1) \<Rightarrow> (Some e, s1) | (None, s1) \<Rightarrow> g s1)"
  unfolding appends_def
proof (intro allI impI)
  fix s e s'
  assume b: "buffered s"
    and c: "(case f s of (Some e, s1) \<Rightarrow> (Some e, s1) | (None, s1) \<Rightarrow> g s1) = (e, s')"
  obtain x s1 where f: "f s = (x, s1)" by fastforce
  show "buffered s' \<and> (if e = None then sofar s' = sofar s @ t @ u else \<exists>p. prefix p (t @ u) \<and> sofar s' = sofar s @ p)"
  proof (cases x)
    case None
    then have s1: "buffered s1" "sofar s1 = sofar s @ t" "g s1 = (e, s')"
      using assms(1) b f c by (auto simp: appends_def)
    then have "buffered s' \<and> (if e = None then sofar s' = sofar s1 @ u else \<exists>p. prefix p u \<and> sofar s' = sofar s1 @ p)"
      using assms(2) by (auto simp: appends_def)
    then show ?thesis using s1(2) by (auto split: if_splits)
  next
    case (Some y)
    then have "e = Some y" "s' = s1" using f c by simp_all
    moreover have "buffered s1 \<and> (\<exists>p. prefix p t \<and> sofar s1 = sofar s @ p)"
      using assms(1) b f Some by (auto simp: appends_def)
    ultimately show ?thesis by (auto intro: prefix_prefix)
  qed
qed

lemma appends_nested:
  assumes "templ_ok rt buffered sofar" "appends buffered sofar t f"
  shows "appends buffered sofar t (GeneratedTemplate rt f)"
  unfolding appends_def
proof (intro allI impI)
  fix s e s'
  assume b: "buffered s" and c: "GeneratedTemplate rt f s = (e, s')"
  obtain s1 where g: "GetBuffer rt s = (True, s1)" "buffered s1" "sofar s1 = sofar s"
    using templ_okD(9-11) [OF assms(1), of s] b by (cases "GetBuffer rt s") auto
  show "buffered s' \<and> (if e = None then sofar s' = sofar s @ t else \<exists>p. prefix p t \<and> sofar s' = sofar s @ p)"
  proof (cases "ctx_Err rt s")
    case None
    then have "f s1 = (e, s')" using c g by (simp add: GeneratedTemplate_def split: prod.splits)
    with assms(2) g(2) have "buffered s' \<and>
        (if e = None then sofar s' = sofar s1 @ t else \<exists>p. prefix p t \<and> sofar s' = sofar s1 @ p)"
      unfolding appends_def by blast
    then show ?thesis unfolding g(3) .
  next
    case (Some x)
    then show ?thesis using b c by (auto simp: GeneratedTemplate_def)
  qed
qed

lemma run_pieces_appends_if:
  "\<forall>p \<in> set ps. appends buffered sofar (piece_text p) (run_piece rt p) \<Longrightarrow>
    appends buffered sofar (page_text ps) (run_pieces rt ps)"
proof (induction ps)
  case Nil
  have "run_pieces rt [] = (\<lambda>s. (None, s))" by (rule ext) simp
  then show ?case by (simp add: appends_nil)
next
  case (Cons p ps)
  have "run_pieces rt (p # ps) =
      (\<lambda>s. case run_piece rt p s of (Some e, s1) \<Rightarrow> (Some e, s1) | (None, s1) \<Rightarrow> run_pieces rt ps s1)"
    by (rule ext) simp
  then show ?case
    using appends_seq [of buffered sofar "piece_text p" "run_piece rt p"] Cons by simp
qed

lemma run_piece_appends:
  assumes ok: "templ_ok rt buffered sofar"
  shows "appends buffered sofar (piece_text p) (run_piece rt p)"
proof (induction p)
  case (Lit i t)
  have "run_piece rt (Lit i t) = WriteString rt i t" by (rule ext) simp
  then show ?case using templ_okD(1) [OF ok] by simp
next
  case (Txt f l c v)
  have "run_piece rt (Txt f l c v) = Buffer_WriteString rt (html_EscapeString v)"
    by (rule ext) (simp add: write_value_def templ_okD(5,6) [OF ok])
  then show ?case using templ_okD(2) [OF ok] by simp
next
  case (Attr f l c v)
  have "run_piece rt (Attr f l c v) = Buffer_WriteString rt (html_EscapeString v)"
    by (rule ext) (simp add: write_value_def templ_okD(7) [OF ok])
  then show ?case using templ_okD(2) [OF ok] by simp
next
  case (ClassAttr f l n c)
  have "run_piece rt (ClassAttr f l n c) = Buffer_WriteString rt (html_EscapeString c)"
    by (rule ext) (simp add: write_value_def templ_okD(7,8) [OF ok])
  then show ?case using templ_okD(2) [OF ok] by simp
next
  case (RenderCSS cs)
  have "run_piece rt (RenderCSS cs) = RenderCSSItems rt cs" by (rule ext) simp
  then show ?case using templ_okD(4) [OF ok] by simp
next
  case (Raw t)
  have "run_piece rt (Raw t) = Raw_Render rt t" by (rule ext) simp
  then show ?case using templ_okD(3) [OF ok] by simp
next
  case (Sub ps)
  have "run_piece rt (Sub ps) = GeneratedTemplate rt (run_pieces rt ps)" by (rule ext) simp
  then show ?case
    using appends_nested [OF ok run_pieces_appends_if] Sub by (simp only: piece_text_Sub) blast
qed

lemma run_pieces_appends:
  "templ_ok rt buffered sofar \<Longrightarrow> appends buffered sofar (page_text ps) (run_pieces rt ps)"
  by (intro run_pieces_appends_if ballI run_piece_appends)

text \<open>A rendering into the response: all of the page, or a part of it and an error.\<close>

lemma Render_sends:
  assumes ok: "templ_ok rt buffered sofar" and c: "Render rt ps (tr_start rt) = (e, s')"
  shows "prefix (tr_sent rt s') (page_text ps)" and "e = None \<Longrightarrow> tr_sent rt s' = page_text ps"
    and "ctx_Err rt (tr_start rt) = None \<or> tr_sent rt s' = ''''"
proof -
  note D = templ_okD [OF ok]
  have "prefix (tr_sent rt s') (page_text ps) \<and> (e = None \<longrightarrow> tr_sent rt s' = page_text ps) \<and>
      (ctx_Err rt (tr_start rt) = None \<or> tr_sent rt s' = '''')"
  proof (cases "ctx_Err rt (tr_start rt)")
    case None
    obtain s1 where g: "GetBuffer rt (tr_start rt) = (False, s1)" "buffered s1" "sofar s1 = ''''"
      using D(9-11) [of "tr_start rt"] D(13,14) by (cases "GetBuffer rt (tr_start rt)") auto
    obtain x s2 where r: "run_pieces rt ps s1 = (x, s2)" by fastforce
    obtain y s3 where b: "ReleaseBuffer rt s2 = (y, s3)" by fastforce
    have res: "e = (if x = None then y else x)" "s' = s3"
      using c None g(1) r b by (simp_all add: Render_def GeneratedTemplate_def)
    have t: "if x = None then sofar s2 = page_text ps else prefix (sofar s2) (page_text ps)"
      using run_pieces_appends [OF ok, of ps] g(2,3) r unfolding appends_def by (fastforce split: if_splits)
    have "prefix (tr_sent rt s3) (sofar s2) \<and> (y = None \<longrightarrow> tr_sent rt s3 = sofar s2)" by (rule D(12) [OF b])
    with t res None show ?thesis by (auto split: if_splits intro: prefix_order.trans)
  next
    case (Some z)
    then show ?thesis using c D(15) by (auto simp: Render_def GeneratedTemplate_def)
  qed
  then show "prefix (tr_sent rt s') (page_text ps)" "e = None \<Longrightarrow> tr_sent rt s' = page_text ps"
    "ctx_Err rt (tr_start rt) = None \<or> tr_sent rt s' = ''''" by auto
qed

end
