(* ===== verification/Site_Style.thy ===== *)
theory Site_Style
  imports Templates
begin

text \<open>
  \<open>website/head_templ.go\<close>: the icon and the style sheet, whose text is cut into blocks here.
\<close>

text \<open>A new line with tabs.\<close>

definition tabbed :: "nat \<Rightarrow> string" where
  "tabbed n = newline # replicate n (CHR 0x09)"

definition ellipsis :: string where
  "ellipsis = [CHR 0xE2, CHR 0x80, CHR 0xA6]"

definition style_1 :: string where
  \<open>style_1 =
     ''<style>'' @ tabbed 2 @ ''@font-face {'' @ tabbed 3 @ ''font-family: "Share Tech Mono";'' @
     tabbed 3 @
     ''src: url("https://fonts.gstatic.com/s/sharetechmono/v15/J7aHnp1uDWRBEqV98dVQztYldFcL'' @
     ''owEF.woff2") format("woff2");'' @ tabbed 3 @ ''font-weight: normal;'' @ tabbed 3 @
     ''font-style: normal;'' @ tabbed 2 @ ''}'' @ tabbed 2 @ '':root {'' @ tabbed 3 @
     ''--page-margin-x: 1.5rem;'' @ tabbed 3 @ ''--page-margin-top: 1.5rem;'' @ tabbed 3 @
     ''--accent-bg: #00e676;'' @ tabbed 3 @ ''--accent-text: #00190c;'' @ tabbed 3 @
     ''--accent-shadow: #00b359;'' @ tabbed 3 @ ''--bg: #1c1c1c;'' @ tabbed 3 @
     ''--bg-raised: #232323;'' @ tabbed 3 @ ''--soft-bg: #262626;'' @ tabbed 3 @
     ''--soft-text: #8c8c8c;'' @ tabbed 3 @ ''--soft-border: #3d3d3d;'' @ tabbed 3 @
     ''--soft-shadow: #0e0e0e;'' @ tabbed 3 @ ''--text: #a8a8a8;'' @ tabbed 3 @
     ''--text-bright: #cfcfcf;'' @ tabbed 3 @ ''--disabled-text: #4a4a4a;'' @ tabbed 3 @
     ''--topbar-height: 4rem;'' @ tabbed 3 @ ''--control-height: 3.5rem;'' @ tabbed 3 @
     ''--sidenav-width: 9rem;'' @ tabbed 3 @ ''--sidenav-gap: 2rem;'' @ tabbed 3 @
     ''--code-font: ui-monospace, "Cascadia Code", "SF Mono", Consolas, "Courier New", '' @
     ''monospace;'' @ tabbed 2 @ ''}'' @ tabbed 2 @ ''* {'' @ tabbed 3 @
     ''font-family: "Share Tech Mono", ui-monospace, "SF Mono", Consolas, monospace;'' @ tabbed 3 @
     ''box-sizing: border-box;'' @ tabbed 2 @ ''}'' @ tabbed 2 @ ''html {'' @ tabbed 3 @
     ''font-size: 108%;'' @ tabbed 2 @ ''}'' @ tabbed 2 @ ''body {'' @ tabbed 3 @ ''margin: 0;'' @
     tabbed 3 @ ''padding-top: var(--topbar-height);'' @ tabbed 3 @ ''background:'' @ tabbed 4 @
     ''repeating-linear-gradient(0deg, rgba(255,255,255,0.012) 0px, '' @
     ''rgba(255,255,255,0.012) 1px, transparent 1px, transparent 3px),'' @ tabbed 4 @
     ''var(--bg);'' @ tabbed 3 @ ''color: var(--text);'' @ tabbed 2 @ ''}''\<close>

definition style_2 :: string where
  \<open>style_2 =
     tabbed 2 @ ''.shell {'' @ tabbed 3 @ ''display: flex;'' @ tabbed 3 @
     ''align-items: flex-start;'' @ tabbed 3 @ ''gap: var(--sidenav-gap);'' @ tabbed 3 @
     ''max-width: calc(1000px + var(--sidenav-gap) + var(--sidenav-width));'' @ tabbed 3 @
     ''margin: 0 auto;'' @ tabbed 3 @ ''padding: 0 var(--page-margin-x);'' @ tabbed 3 @
     ''box-sizing: border-box;'' @ tabbed 2 @ ''}'' @ tabbed 2 @ ''.topbar {'' @ tabbed 3 @
     ''position: fixed;'' @ tabbed 3 @ ''top: 0;'' @ tabbed 3 @ ''left: 0;'' @ tabbed 3 @
     ''right: 0;'' @ tabbed 3 @ ''z-index: 100;'' @ tabbed 3 @ ''background: var(--bg-raised);'' @
     tabbed 3 @ ''border-bottom: 1px solid var(--soft-border);'' @ tabbed 3 @
     ''box-sizing: border-box;'' @ tabbed 3 @ ''--control-height: 2.5rem;'' @ tabbed 2 @ ''}'' @
     tabbed 2 @ ''.topbar-inner {'' @ tabbed 3 @ ''display: flex;'' @ tabbed 3 @
     ''align-items: center;'' @ tabbed 3 @ ''gap: 1.5rem;'' @ tabbed 3 @
     ''max-width: calc(1000px + var(--sidenav-gap) + var(--sidenav-width));'' @ tabbed 3 @
     ''margin: 0 auto;'' @ tabbed 3 @ ''padding: 0.75rem var(--page-margin-x);'' @ tabbed 3 @
     ''box-sizing: border-box;'' @ tabbed 2 @ ''}'' @ tabbed 2 @ ''.topbar-inner::before {'' @
     tabbed 3 @ ''content: "";'' @ tabbed 3 @
     ''flex: 0 0 calc(var(--sidenav-width) + var(--sidenav-gap));'' @ tabbed 2 @ ''}'' @ tabbed 2 @
     ''.topbar .primary-btn {'' @ tabbed 3 @ ''width: auto;'' @ tabbed 3 @ ''font-size: 1rem;'' @
     tabbed 3 @ ''padding: 0 1.25rem;'' @ tabbed 3 @
     ''box-shadow: 0 2px 0 var(--accent-shadow);'' @ tabbed 3 @ ''transform: translateY(-2px);'' @
     tabbed 2 @ ''}'' @ tabbed 2 @ ''.topbar .primary-btn:active {'' @ tabbed 3 @
     ''transform: translateY(0);'' @ tabbed 3 @ ''box-shadow: 0 0 0 var(--accent-shadow);'' @
     tabbed 2 @ ''}'' @ tabbed 2 @ ''.topbar .key-field {'' @ tabbed 3 @ ''margin-top: 0;'' @
     tabbed 2 @ ''}'' @ tabbed 2 @ ''.topbar .key-field .key-display {'' @ tabbed 3 @
     ''font-size: 0.9rem;'' @ tabbed 3 @ ''padding: 0 0.75rem;'' @ tabbed 2 @ ''}''\<close>

definition style_3 :: string where
  \<open>style_3 =
     tabbed 2 @ ''.page {'' @ tabbed 3 @ ''flex: 1 1 auto;'' @ tabbed 3 @ ''min-width: 0;'' @
     tabbed 3 @ ''max-width: 1000px;'' @ tabbed 3 @ ''padding-top: var(--page-margin-top);'' @
     tabbed 3 @ ''box-sizing: border-box;'' @ tabbed 2 @ ''}'' @ tabbed 2 @ ''.side-nav {'' @
     tabbed 3 @ ''position: sticky;'' @ tabbed 3 @ ''top: calc(var(--topbar-height) + 2rem);'' @
     tabbed 3 @ ''flex: 0 0 var(--sidenav-width);'' @ tabbed 3 @ ''display: flex;'' @ tabbed 3 @
     ''flex-direction: column;'' @ tabbed 3 @ ''gap: 0.25rem;'' @ tabbed 3 @
     ''margin-top: var(--page-margin-top);'' @ tabbed 3 @ ''box-sizing: border-box;'' @ tabbed 2 @
     ''}'' @ tabbed 2 @ ''.side-nav a {'' @ tabbed 3 @ ''color: var(--soft-text);'' @ tabbed 3 @
     ''text-decoration: none;'' @ tabbed 3 @ ''font-weight: bold;'' @ tabbed 3 @
     ''font-size: 0.9rem;'' @ tabbed 3 @ ''padding: 0.5rem 0 0.5rem 0.75rem;'' @ tabbed 3 @
     ''border-left: 2px solid transparent;'' @ tabbed 3 @
     ''transition: color 0.1s ease, border-color 0.1s ease;'' @ tabbed 2 @ ''}'' @ tabbed 2 @
     ''.side-nav a:hover,'' @ tabbed 2 @ ''.side-nav a.active {'' @ tabbed 3 @
     ''color: var(--text-bright);'' @ tabbed 3 @ ''border-left-color: var(--accent-bg);'' @
     tabbed 2 @ ''}''\<close>

definition style_4 :: string where
  \<open>style_4 =
     tabbed 2 @ ''@media (max-width: 1200px) {'' @ tabbed 3 @ ''.shell {'' @ tabbed 4 @
     ''flex-direction: column;'' @ tabbed 3 @ ''}'' @ tabbed 3 @ ''.page {'' @ tabbed 4 @
     ''max-width: none;'' @ tabbed 4 @ ''padding-top: 0;'' @ tabbed 4 @ ''width: 100%;'' @
     tabbed 3 @ ''}'' @ tabbed 3 @ ''.topbar-inner {'' @ tabbed 4 @ ''max-width: 1000px;'' @
     tabbed 3 @ ''}'' @ tabbed 3 @ ''.topbar-inner::before {'' @ tabbed 4 @ ''display: none;'' @
     tabbed 3 @ ''}'' @ tabbed 3 @ ''.side-nav {'' @ tabbed 4 @ ''flex: 0 0 auto;'' @ tabbed 4 @
     ''position: static;'' @ tabbed 4 @ ''flex-direction: row;'' @ tabbed 4 @
     ''align-items: center;'' @ tabbed 4 @ ''width: 100%;'' @ tabbed 4 @
     ''margin-top: var(--page-margin-top);'' @ tabbed 4 @ ''padding-bottom: 1rem;'' @ tabbed 4 @
     ''border-bottom: 1px solid var(--soft-border);'' @ tabbed 3 @ ''}'' @ tabbed 3 @
     ''.side-nav a {'' @ tabbed 4 @ ''margin-left: 1.5rem;'' @ tabbed 4 @
     ''padding: 0 0 0.15rem;'' @ tabbed 4 @ ''border-left: none;'' @ tabbed 3 @ ''}'' @ tabbed 3 @
     ''.side-nav a:first-child {'' @ tabbed 4 @ ''margin-left: 0;'' @ tabbed 3 @ ''}'' @ tabbed 3 @
     ''.side-nav a:hover,'' @ tabbed 3 @ ''.side-nav a.active {'' @ tabbed 4 @
     ''border-left: none;'' @ tabbed 4 @ ''box-shadow: 0 2px 0 var(--accent-bg);'' @ tabbed 3 @
     ''}'' @ tabbed 3 @ ''.key-prefix {'' @ tabbed 4 @ ''display: none;'' @ tabbed 3 @ ''}'' @
     tabbed 2 @ ''}'' @ tabbed 2 @ ''.hero {'' @ tabbed 3 @ ''margin-top: 3rem;'' @ tabbed 3 @
     ''box-sizing: border-box;'' @ tabbed 2 @ ''}'' @ tabbed 2 @ ''.hero-copy {'' @ tabbed 3 @
     ''display: flex;'' @ tabbed 3 @ ''flex-direction: column;'' @ tabbed 3 @ ''flex: 1 1 auto;'' @
     tabbed 2 @ ''}'' @ tabbed 2 @ ''.hero-copy h1 {'' @ tabbed 3 @ ''margin-top: 0;'' @ tabbed 3 @
     ''font-size: 1.75rem;'' @ tabbed 3 @ ''font-weight: bold;'' @ tabbed 3 @
     ''color: var(--text-bright);'' @ tabbed 3 @ ''text-transform: uppercase;'' @ tabbed 3 @
     ''letter-spacing: 0.02em;'' @ tabbed 2 @ ''}'' @ tabbed 2 @ ''.hero-copy p {'' @ tabbed 3 @
     ''color: var(--soft-text);'' @ tabbed 2 @ ''}'' @ tabbed 2 @ ''.robot-note {'' @ tabbed 3 @
     ''font-style: normal;'' @ tabbed 3 @ ''font-size: 0.9rem;'' @ tabbed 3 @
     ''color: var(--soft-text);'' @ tabbed 2 @ ''}''\<close>

definition style_5 :: string where
  \<open>style_5 =
     tabbed 2 @ ''.robot-note code {'' @ tabbed 3 @ ''font-family: var(--code-font);'' @ tabbed 3 @
     ''font-weight: normal;'' @ tabbed 3 @ ''font-size: 0.85rem;'' @ tabbed 3 @
     ''color: var(--text);'' @ tabbed 3 @ ''background: var(--soft-bg);'' @ tabbed 3 @
     ''border: 1px solid var(--soft-border);'' @ tabbed 3 @ ''padding: 0.1rem 0.4rem;'' @
     tabbed 2 @ ''}'' @ tabbed 2 @ ''.robot-link {'' @ tabbed 3 @ ''color: var(--accent-bg);'' @
     tabbed 3 @ ''font-weight: bold;'' @ tabbed 3 @ ''text-decoration: none;'' @ tabbed 3 @
     ''box-shadow: 0 2px 0 var(--accent-shadow);'' @ tabbed 2 @ ''}'' @ tabbed 2 @
     ''.robot-link:hover {'' @ tabbed 3 @ ''color: #1aeb87;'' @ tabbed 2 @ ''}'' @ tabbed 2 @
     ''.primary-btn {'' @ tabbed 3 @ ''font-family: inherit;'' @ tabbed 3 @
     ''font-size: 1.5rem;'' @ tabbed 3 @ ''font-weight: bold;'' @ tabbed 3 @
     ''text-transform: uppercase;'' @ tabbed 3 @ ''letter-spacing: 0.05em;'' @ tabbed 3 @
     ''display: flex;'' @ tabbed 3 @ ''align-items: center;'' @ tabbed 3 @
     ''justify-content: center;'' @ tabbed 3 @ ''background: var(--accent-bg);'' @ tabbed 3 @
     ''color: var(--accent-text);'' @ tabbed 3 @ ''border: 1px solid var(--accent-shadow);'' @
     tabbed 3 @ ''border-radius: 0;'' @ tabbed 3 @ ''box-sizing: border-box;'' @ tabbed 3 @
     ''height: var(--control-height);'' @ tabbed 3 @ ''padding: 0 1.75rem;'' @ tabbed 3 @
     ''width: 20rem;'' @ tabbed 3 @ ''white-space: nowrap;'' @ tabbed 3 @ ''cursor: pointer;'' @
     tabbed 3 @ ''box-shadow: 0 3px 0 var(--accent-shadow);'' @ tabbed 3 @
     ''transition: transform 0.05s ease, box-shadow 0.05s ease;'' @ tabbed 2 @ ''}'' @ tabbed 2 @
     ''.primary-btn:hover {'' @ tabbed 3 @ ''background: #1aeb87;'' @ tabbed 2 @ ''}'' @ tabbed 2 @
     ''.primary-btn:active {'' @ tabbed 3 @ ''transform: translateY(3px);'' @ tabbed 3 @
     ''box-shadow: 0 0 0 var(--accent-shadow);'' @ tabbed 2 @ ''}'' @ tabbed 2 @ ''.key-field {'' @
     tabbed 3 @ ''display: flex;'' @ tabbed 3 @ ''align-items: center;'' @ tabbed 3 @
     ''margin-top: 1.25rem;'' @ tabbed 3 @ ''min-width: 0;'' @ tabbed 2 @ ''}''\<close>

definition style_6 :: string where
  \<open>style_6 =
     tabbed 2 @ ''.key-display {'' @ tabbed 3 @ ''position: relative;'' @ tabbed 3 @
     ''display: flex;'' @ tabbed 3 @ ''align-items: center;'' @ tabbed 3 @
     ''font-size: 1.15rem;'' @ tabbed 3 @ ''min-width: 0;'' @ tabbed 3 @ ''white-space: nowrap;'' @
     tabbed 3 @ ''overflow: hidden;'' @ tabbed 3 @ ''padding: 0 1.25rem;'' @ tabbed 3 @
     ''height: var(--control-height);'' @ tabbed 3 @ ''box-sizing: border-box;'' @ tabbed 3 @
     ''background: var(--soft-bg);'' @ tabbed 3 @ ''border: 1px solid var(--soft-border);'' @
     tabbed 3 @ ''letter-spacing: 0.15rem;'' @ tabbed 3 @ ''color: var(--text);'' @ tabbed 3 @
     ''cursor: pointer;'' @ tabbed 2 @ ''}'' @ tabbed 2 @ ''.key-display .key-prefix {'' @
     tabbed 3 @ ''user-select: none;'' @ tabbed 3 @ ''color: var(--soft-text);'' @ tabbed 3 @
     ''margin-right: 0.5rem;'' @ tabbed 2 @ ''}'' @ tabbed 2 @ ''.key-display .key-value {'' @
     tabbed 3 @ ''user-select: text;'' @ tabbed 2 @ ''}'' @ tabbed 2 @
     ''.key-display .key-mask {'' @ tabbed 3 @ ''position: relative;'' @ tabbed 3 @
     ''top: 0.2em;'' @ tabbed 3 @ ''user-select: none;'' @ tabbed 2 @ ''}'' @ tabbed 2 @
     ''.key-display .key-hover-label {'' @ tabbed 3 @ ''position: absolute;'' @ tabbed 3 @
     ''inset: 0;'' @ tabbed 3 @ ''display: flex;'' @ tabbed 3 @ ''align-items: center;'' @
     tabbed 3 @ ''justify-content: center;'' @ tabbed 3 @ ''background: var(--accent-bg);'' @
     tabbed 3 @ ''color: var(--accent-text);'' @ tabbed 3 @ ''font-weight: bold;'' @ tabbed 3 @
     ''text-transform: uppercase;'' @ tabbed 3 @ ''letter-spacing: 0.05em;'' @ tabbed 3 @
     ''opacity: 0;'' @ tabbed 3 @ ''pointer-events: none;'' @ tabbed 3 @
     ''transition: opacity 0.1s ease;'' @ tabbed 2 @ ''}'' @ tabbed 2 @
     ''.key-display:hover .key-hover-label,'' @ tabbed 2 @
     ''.key-display.show-label .key-hover-label {'' @ tabbed 3 @ ''opacity: 1;'' @ tabbed 2 @
     ''}'' @ tabbed 2 @ ''.key-display.disabled {'' @ tabbed 3 @ ''cursor: not-allowed;'' @
     tabbed 3 @ ''color: var(--disabled-text);'' @ tabbed 2 @ ''}'' @ tabbed 2 @ ''.demo {'' @
     tabbed 3 @ ''margin-top: 3rem;'' @ tabbed 3 @ ''box-sizing: border-box;'' @ tabbed 2 @ ''}''\<close>

definition style_7 :: string where
  \<open>style_7 =
     tabbed 2 @ ''.demo h2 {'' @ tabbed 3 @ ''font-size: 1.4rem;'' @ tabbed 3 @
     ''color: var(--text-bright);'' @ tabbed 3 @ ''text-transform: uppercase;'' @ tabbed 3 @
     ''letter-spacing: 0.04em;'' @ tabbed 3 @ ''border-bottom: 1px solid var(--soft-border);'' @
     tabbed 3 @ ''padding-bottom: 0.5rem;'' @ tabbed 2 @ ''}'' @ tabbed 2 @ ''.endpoint-list {'' @
     tabbed 3 @ ''margin-top: 1rem;'' @ tabbed 3 @ ''display: flex;'' @ tabbed 3 @
     ''flex-direction: column;'' @ tabbed 3 @ ''gap: 1rem;'' @ tabbed 2 @ ''}'' @ tabbed 2 @
     ''.endpoint-row {'' @ tabbed 3 @ ''border: 1px solid var(--soft-border);'' @ tabbed 3 @
     ''background: var(--bg-raised);'' @ tabbed 3 @ ''padding: 0.85rem 1rem;'' @ tabbed 2 @ ''}'' @
     tabbed 2 @ ''.usage-list {'' @ tabbed 3 @ ''margin-top: 1rem;'' @ tabbed 2 @ ''}'' @
     tabbed 2 @ ''.usage-row {'' @ tabbed 3 @ ''padding: 0.85rem 0;'' @ tabbed 3 @
     ''border-top: 1px solid var(--soft-border);'' @ tabbed 2 @ ''}'' @ tabbed 2 @
     ''.usage-row:first-child {'' @ tabbed 3 @ ''border-top: none;'' @ tabbed 3 @
     ''padding-top: 0;'' @ tabbed 2 @ ''}'' @ tabbed 2 @ ''.endpoint-heading {'' @ tabbed 3 @
     ''margin: 0 0 0.5rem;'' @ tabbed 3 @ ''color: var(--text-bright);'' @ tabbed 2 @ ''}'' @
     tabbed 2 @ ''.endpoint-row-head {'' @ tabbed 3 @ ''display: flex;'' @ tabbed 3 @
     ''align-items: center;'' @ tabbed 3 @ ''gap: 0.75rem;'' @ tabbed 2 @ ''}'' @ tabbed 2 @
     ''.endpoint-row-head code {'' @ tabbed 3 @ ''font-family: var(--code-font);'' @ tabbed 3 @
     ''font-size: 0.95rem;'' @ tabbed 3 @ ''color: var(--text);'' @ tabbed 2 @ ''}'' @ tabbed 2 @
     ''.path-param {'' @ tabbed 3 @ ''font-style: normal;'' @ tabbed 3 @ ''font-weight: bold;'' @
     tabbed 3 @ ''color: var(--text-bright);'' @ tabbed 2 @ ''}''\<close>

definition style_8 :: string where
  \<open>style_8 =
     tabbed 2 @ ''.method {'' @ tabbed 3 @ ''display: inline-block;'' @ tabbed 3 @
     ''flex: 0 0 auto;'' @ tabbed 3 @ ''width: 4.5rem;'' @ tabbed 3 @ ''text-align: center;'' @
     tabbed 3 @ ''vertical-align: middle;'' @ tabbed 3 @ ''font-weight: bold;'' @ tabbed 3 @
     ''font-size: 0.8rem;'' @ tabbed 3 @ ''letter-spacing: 0.03em;'' @ tabbed 3 @
     ''padding: 0.2rem 0.5rem;'' @ tabbed 3 @ ''border-radius: 0;'' @ tabbed 3 @
     ''color: var(--soft-text);'' @ tabbed 3 @ ''background: var(--soft-bg);'' @ tabbed 3 @
     ''border: 1px solid var(--soft-border);'' @ tabbed 2 @ ''}'' @ tabbed 2 @
     ''.endpoint-desc {'' @ tabbed 3 @ ''margin: 0.3rem 0 0;'' @ tabbed 3 @
     ''color: var(--soft-text);'' @ tabbed 2 @ ''}'' @ tabbed 2 @ ''.lang-selector {'' @ tabbed 3 @
     ''display: flex;'' @ tabbed 3 @ ''gap: 1.5rem;'' @ tabbed 3 @ ''margin-top: 1rem;'' @
     tabbed 2 @ ''}'' @ tabbed 2 @ ''.lang-btn {'' @ tabbed 3 @ ''background: none;'' @ tabbed 3 @
     ''border: none;'' @ tabbed 3 @ ''font-family: inherit;'' @ tabbed 3 @ ''font-weight: bold;'' @
     tabbed 3 @ ''font-size: 0.9rem;'' @ tabbed 3 @ ''color: var(--soft-text);'' @ tabbed 3 @
     ''cursor: pointer;'' @ tabbed 3 @ ''padding: 0 0 0.15rem;'' @ tabbed 3 @
     ''box-shadow: none;'' @ tabbed 3 @ ''transition: color 0.1s ease, box-shadow 0.1s ease;'' @
     tabbed 2 @ ''}'' @ tabbed 2 @ ''.lang-btn:hover,'' @ tabbed 2 @ ''.lang-btn.active {'' @
     tabbed 3 @ ''color: var(--text-bright);'' @ tabbed 3 @
     ''box-shadow: 0 2px 0 var(--accent-bg);'' @ tabbed 2 @ ''}'' @ tabbed 2 @
     ''.section-divider {'' @ tabbed 3 @ ''border: none;'' @ tabbed 3 @
     ''border-top: 1px solid var(--soft-border);'' @ tabbed 3 @ ''margin: 1rem 0;'' @ tabbed 2 @
     ''}'' @ tabbed 2 @ ''.code-block[data-lang] {'' @ tabbed 3 @ ''display: none;'' @ tabbed 2 @
     ''}'' @ tabbed 2 @ ''body[data-lang="curl"] .code-block[data-lang="curl"],'' @ tabbed 2 @
     ''body[data-lang="js"] .code-block[data-lang="js"],'' @ tabbed 2 @
     ''body[data-lang="go"] .code-block[data-lang="go"],'' @ tabbed 2 @
     ''body[data-lang="python"] .code-block[data-lang="python"] {'' @ tabbed 3 @
     ''display: block;'' @ tabbed 2 @ ''}''\<close>

definition style_9 :: string where
  \<open>style_9 =
     tabbed 2 @ ''.api-key-note {'' @ tabbed 3 @ ''margin-top: 1.25rem;'' @ tabbed 3 @
     ''color: var(--soft-text);'' @ tabbed 2 @ ''}'' @ tabbed 2 @ ''.api-key-note code {'' @
     tabbed 3 @ ''font-family: var(--code-font);'' @ tabbed 3 @ ''background: var(--soft-bg);'' @
     tabbed 3 @ ''border: 1px solid var(--soft-border);'' @ tabbed 3 @ ''border-radius: 0;'' @
     tabbed 3 @ ''padding: 0.1rem 0.4rem;'' @ tabbed 3 @ ''font-size: 0.85rem;'' @ tabbed 3 @
     ''color: var(--text);'' @ tabbed 2 @ ''}'' @ tabbed 2 @ ''.limits {'' @ tabbed 3 @
     ''margin-top: 3rem;'' @ tabbed 3 @ ''box-sizing: border-box;'' @ tabbed 2 @ ''}'' @ tabbed 2 @
     ''.limits h2 {'' @ tabbed 3 @ ''font-size: 1.4rem;'' @ tabbed 3 @ ''margin-bottom: 1rem;'' @
     tabbed 3 @ ''color: var(--text-bright);'' @ tabbed 3 @ ''text-transform: uppercase;'' @
     tabbed 3 @ ''letter-spacing: 0.04em;'' @ tabbed 3 @
     ''border-bottom: 1px solid var(--soft-border);'' @ tabbed 3 @ ''padding-bottom: 0.5rem;'' @
     tabbed 2 @ ''}'' @ tabbed 2 @ ''.limits h3 {'' @ tabbed 3 @ ''font-size: 1rem;'' @ tabbed 3 @
     ''margin-top: 2rem;'' @ tabbed 3 @ ''color: var(--text-bright);'' @ tabbed 3 @
     ''text-transform: uppercase;'' @ tabbed 3 @ ''letter-spacing: 0.03em;'' @ tabbed 2 @ ''}'' @
     tabbed 2 @ ''.limits-table {'' @ tabbed 3 @ ''width: 100%;'' @ tabbed 3 @
     ''border-collapse: collapse;'' @ tabbed 2 @ ''}'' @ tabbed 2 @ ''.limits-table tr {'' @
     tabbed 3 @ ''border-top: 1px solid var(--soft-border);'' @ tabbed 2 @ ''}'' @ tabbed 2 @
     ''.limits-table th, .limits-table td {'' @ tabbed 3 @ ''text-align: left;'' @ tabbed 3 @
     ''padding: 0.6rem 0;'' @ tabbed 3 @ ''vertical-align: top;'' @ tabbed 2 @ ''}'' @ tabbed 2 @
     ''.limits-table th {'' @ tabbed 3 @ ''color: var(--soft-text);'' @ tabbed 3 @
     ''font-weight: normal;'' @ tabbed 3 @ ''width: 10rem;'' @ tabbed 3 @
     ''white-space: nowrap;'' @ tabbed 3 @ ''padding-right: 0.75rem;'' @ tabbed 2 @ ''}'' @
     tabbed 2 @ ''.limits-table td {'' @ tabbed 3 @ ''font-weight: bold;'' @ tabbed 3 @
     ''color: var(--text);'' @ tabbed 2 @ ''}'' @ tabbed 2 @ ''.rate-table {'' @ tabbed 3 @
     ''width: 100%;'' @ tabbed 3 @ ''border-collapse: collapse;'' @ tabbed 3 @
     ''margin-top: 0.5rem;'' @ tabbed 2 @ ''}''\<close>

definition style_10 :: string where
  \<open>style_10 =
     tabbed 2 @ ''.rate-table tr {'' @ tabbed 3 @ ''border-top: 1px solid var(--soft-border);'' @
     tabbed 2 @ ''}'' @ tabbed 2 @ ''.rate-table th, .rate-table td {'' @ tabbed 3 @
     ''text-align: left;'' @ tabbed 3 @ ''padding: 0.6rem 0.75rem 0.6rem 0;'' @ tabbed 3 @
     ''vertical-align: top;'' @ tabbed 2 @ ''}'' @ tabbed 2 @ ''.rate-table th {'' @ tabbed 3 @
     ''color: var(--soft-text);'' @ tabbed 3 @ ''font-weight: normal;'' @ tabbed 2 @ ''}'' @
     tabbed 2 @ ''.rate-table tr:first-child th {'' @ tabbed 3 @ ''border-top: none;'' @ tabbed 2 @
     ''}'' @ tabbed 2 @ ''.rate-table tr:first-child {'' @ tabbed 3 @ ''border-top: none;'' @
     tabbed 2 @ ''}'' @ tabbed 2 @ ''.rate-table td {'' @ tabbed 3 @ ''font-weight: bold;'' @
     tabbed 3 @ ''color: var(--text);'' @ tabbed 2 @ ''}'' @ tabbed 2 @ ''.limits ul {'' @
     tabbed 3 @ ''margin: 0.5rem 0;'' @ tabbed 3 @ ''padding-left: 1.25rem;'' @ tabbed 3 @
     ''color: var(--soft-text);'' @ tabbed 2 @ ''}'' @ tabbed 2 @ ''.limits > p {'' @ tabbed 3 @
     ''color: var(--soft-text);'' @ tabbed 2 @ ''}'' @ tabbed 2 @ ''.disclaimer {'' @ tabbed 3 @
     ''margin: 3rem 0;'' @ tabbed 3 @ ''box-sizing: border-box;'' @ tabbed 3 @
     ''border: 1px solid var(--soft-border);'' @ tabbed 3 @ ''background: var(--bg-raised);'' @
     tabbed 3 @ ''padding: 1.25rem 1.5rem;'' @ tabbed 2 @ ''}'' @ tabbed 2 @ ''.disclaimer h2 {'' @
     tabbed 3 @ ''font-size: 1.4rem;'' @ tabbed 3 @ ''margin-bottom: 1rem;'' @ tabbed 3 @
     ''margin-top: 0;'' @ tabbed 3 @ ''color: var(--text-bright);'' @ tabbed 3 @
     ''text-transform: uppercase;'' @ tabbed 3 @ ''letter-spacing: 0.04em;'' @ tabbed 2 @ ''}'' @
     tabbed 2 @ ''.disclaimer p {'' @ tabbed 3 @ ''margin: 0.75rem 0;'' @ tabbed 3 @
     ''color: var(--soft-text);'' @ tabbed 2 @ ''}'' @ tabbed 2 @ ''.disclaimer ul {'' @ tabbed 3 @
     ''margin: 0.5rem 0;'' @ tabbed 3 @ ''padding-left: 1.25rem;'' @ tabbed 3 @
     ''color: var(--soft-text);'' @ tabbed 2 @ ''}'' @ tabbed 2 @
     ''.docs-section, .status-section {'' @ tabbed 3 @ ''margin-top: 3rem;'' @ tabbed 3 @
     ''box-sizing: border-box;'' @ tabbed 2 @ ''}''\<close>

definition style_11 :: string where
  \<open>style_11 =
     tabbed 2 @ ''.docs-section h2, .status-section h2 {'' @ tabbed 3 @ ''font-size: 1.4rem;'' @
     tabbed 3 @ ''color: var(--text-bright);'' @ tabbed 3 @ ''text-transform: uppercase;'' @
     tabbed 3 @ ''letter-spacing: 0.04em;'' @ tabbed 3 @
     ''border-bottom: 1px solid var(--soft-border);'' @ tabbed 3 @ ''padding-bottom: 0.5rem;'' @
     tabbed 2 @ ''}'' @ tabbed 2 @ ''.docs-section h3 {'' @ tabbed 3 @ ''font-size: 1rem;'' @
     tabbed 3 @ ''margin-top: 2rem;'' @ tabbed 3 @ ''color: var(--text-bright);'' @ tabbed 3 @
     ''text-transform: uppercase;'' @ tabbed 3 @ ''letter-spacing: 0.03em;'' @ tabbed 2 @ ''}'' @
     tabbed 2 @ ''.docs-section p, .status-sub {'' @ tabbed 3 @ ''color: var(--soft-text);'' @
     tabbed 2 @ ''}'' @ tabbed 2 @ ''.code-block {'' @ tabbed 3 @ ''margin: 0.75rem 0 0;'' @
     tabbed 3 @ ''padding: 0.85rem 1rem;'' @ tabbed 3 @ ''background: var(--soft-bg);'' @
     tabbed 3 @ ''border: 1px solid var(--soft-border);'' @ tabbed 2 @ ''}'' @ tabbed 2 @
     ''.code-block code {'' @ tabbed 3 @ ''font-family: var(--code-font);'' @ tabbed 3 @
     ''font-size: 0.85rem;'' @ tabbed 3 @ ''color: var(--text);'' @ tabbed 3 @
     ''white-space: pre-wrap;'' @ tabbed 3 @ ''word-break: break-word;'' @ tabbed 2 @ ''}'' @
     tabbed 2 @ ''.stat-grid {'' @ tabbed 3 @ ''display: grid;'' @ tabbed 3 @
     ''grid-template-columns: repeat(auto-fill, minmax(9rem, 1fr));'' @ tabbed 3 @ ''gap: 1rem;'' @
     tabbed 3 @ ''margin-top: 1rem;'' @ tabbed 2 @ ''}'' @ tabbed 2 @ ''.stat-tile {'' @ tabbed 3 @
     ''border: 1px solid var(--soft-border);'' @ tabbed 3 @ ''background: var(--bg-raised);'' @
     tabbed 3 @ ''padding: 0.85rem 1rem;'' @ tabbed 2 @ ''}'' @ tabbed 2 @ ''.stat-value {'' @
     tabbed 3 @ ''font-size: 1.5rem;'' @ tabbed 3 @ ''font-weight: bold;'' @ tabbed 3 @
     ''color: var(--text-bright);'' @ tabbed 2 @ ''}'' @ tabbed 2 @ ''.stat-label {'' @ tabbed 3 @
     ''margin-top: 0.25rem;'' @ tabbed 3 @ ''font-size: 0.8rem;'' @ tabbed 3 @
     ''color: var(--soft-text);'' @ tabbed 3 @ ''text-transform: uppercase;'' @ tabbed 3 @
     ''letter-spacing: 0.03em;'' @ tabbed 2 @ ''}''\<close>

definition style_12 :: string where
  \<open>style_12 =
     tabbed 2 @ ''.feed-table {'' @ tabbed 3 @ ''width: 100%;'' @ tabbed 3 @
     ''border-collapse: collapse;'' @ tabbed 3 @ ''margin-top: 0.5rem;'' @ tabbed 3 @
     ''font-size: 0.9rem;'' @ tabbed 2 @ ''}'' @ tabbed 2 @ ''.feed-table th, .feed-table td {'' @
     tabbed 3 @ ''text-align: left;'' @ tabbed 3 @ ''padding: 0.5rem 0.5rem 0.5rem 0;'' @
     tabbed 3 @ ''vertical-align: top;'' @ tabbed 2 @ ''}'' @ tabbed 2 @ ''.feed-table th {'' @
     tabbed 3 @ ''color: var(--soft-text);'' @ tabbed 3 @ ''font-weight: normal;'' @ tabbed 2 @
     ''}'' @ tabbed 2 @ ''.status-ok {'' @ tabbed 3 @ ''color: var(--text);'' @ tabbed 2 @ ''}'' @
     tabbed 2 @ ''.status-warn, .status-err {'' @ tabbed 3 @ ''color: var(--text-bright);'' @
     tabbed 3 @ ''font-weight: bold;'' @ tabbed 2 @ ''}'' @ tabbed 2 @ ''.status-empty {'' @
     tabbed 3 @ ''margin-top: 1rem;'' @ tabbed 3 @ ''color: var(--soft-text);'' @ tabbed 2 @
     ''}'' @ tabbed 1 @ ''</style>''\<close>

definition favicon :: "component" where
  \<open>favicon =
     [Lit 1 (''<link rel="icon" type="image/svg+xml" href="data:image/svg+xml;base64,PHN2ZyB4bWxucz'' @
             ''0iaHR0cDovL3d3dy53My5vcmcvMjAwMC9zdmciIHZpZXdCb3g9IjAgMCAzMiAzMiI+PHJlY3Qgd2lkdGg9Ij'' @
             ''MyIiBoZWlnaHQ9IjMyIiBmaWxsPSIjMDBlNjc2Ii8+PC9zdmc+">'')]\<close>

definition stylesheet :: component where
  "stylesheet =
     [Lit 2 (style_1 @ style_2 @ style_3 @ style_4 @ style_5 @ style_6 @ style_7 @ style_8 @ style_9 @ style_10 @ style_11 @ style_12)]"

end
