(* ===== verification/Site_Pages.thy ===== *)
theory Site_Pages
  imports Site_Style
begin

text \<open>
  The components of \<open>website/*_templ.go\<close>, statement by statement. The variable \<open>endpoints\<close> of
  the package, as its initialization leaves it, is the argument \<open>es\<close>.
\<close>

section \<open>The frame of every page\<close>

definition navClass :: "string \<Rightarrow> string \<Rightarrow> string" where
  "navClass active name = (if active = name then ''active'' else '''')"

definition pageHead :: "string \<Rightarrow> component" where
  \<open>pageHead title =
     [Lit 1 ''<head><title>'',
      Txt ''nav.templ'' 5 16 title,
      Lit 2 ''</title>'',
      Sub favicon,
      Lit 3 (''<meta name="viewport" content="width=device-width, initial-scale=1"><script '' @
             ''src="https://unpkg.com/htmx.org@2.0.4"></script>''),
      Sub stylesheet,
      Lit 4 ''</head>'']\<close>

definition siteNav :: "string \<Rightarrow> component" where
  \<open>siteNav active =
     [Lit 5 ''<nav class="side-nav">'',
      RenderCSS [navClass active ''home''],
      Lit 6 ''<a href="/" class="'',
      ClassAttr ''nav.templ'' 1 0 (navClass active ''home''),
      Lit 7 ''">Home</a> '',
      RenderCSS [navClass active ''docs''],
      Lit 8 ''<a href="/docs" class="'',
      ClassAttr ''nav.templ'' 1 0 (navClass active ''docs''),
      Lit 9 ''">Docs</a> '',
      RenderCSS [navClass active ''status''],
      Lit 10 ''<a href="/status" class="'',
      ClassAttr ''nav.templ'' 1 0 (navClass active ''status''),
      Lit 11 ''">Status</a></nav>'']\<close>

section \<open>The start page\<close>

definition topbar :: "component" where
  \<open>topbar =
     [Lit 1 (''<div class="topbar"><div class="topbar-inner"><button class="primary-btn" '' @
             ''hx-post="/ui/provision" hx-target="#result" hx-swap="innerHTML">Create a '' @
             ''database</button><div id="result" class="key-field"><div class="key-display '' @
             ''disabled" aria-disabled="true"><span class="key-prefix" '' @
             ''aria-hidden="true">API_KEY:</span><span class="key-value '' @
             ''key-mask">************************************************</span></div></div></div><'' @
             ''/div><script>'' @ tabbed 2 @ ''function copyKey(el) {'' @ tabbed 3 @
             ''if (el.classList.contains('disabled')) {'' @ tabbed 4 @ ''return;'' @ tabbed 3 @ ''}'' @
             tabbed 3 @ ''const value = el.querySelector('.key-value').textContent;'' @ tabbed 3 @
             ''navigator.clipboard.writeText(value);'' @ tabbed 3 @
             ''const label = el.querySelector('.key-hover-label');'' @ tabbed 3 @
             ''label.textContent = 'Copied';'' @ tabbed 3 @ ''el.classList.add('show-label');'' @
             tabbed 3 @ ''clearTimeout(el._copyTimeout);'' @ tabbed 3 @
             ''el._copyTimeout = setTimeout(function() {'' @ tabbed 4 @
             ''el.classList.remove('show-label');'' @ tabbed 4 @ ''label.textContent = 'Click to copy';'' @
             tabbed 3 @ ''}, 1200);'' @ tabbed 2 @ ''}'' @ tabbed 1 @ ''</script>'')]\<close>

definition heroCopy :: "component" where
  \<open>heroCopy =
     [Lit 2 (''<div class="hero"><div class="hero-copy"><h1>Fredb is a free, fast, and dead simple '' @
             ''key value store.</h1><p>Generating an API key will automatically provision a '' @
             ''database with that key. Databases are deleted after 67 days of inactivity.</p><p '' @
             ''class="robot-note"><code>curl db.fredyang.com/robot</code>''),
      Txt ''hero.templ'' 39 82 '' for LLM friendly project specs or '',
      Lit 3 (''<a class="robot-link" href="/robot">click here <span '' @
             ''aria-hidden="true">&rarr;</span></a></p></div></div>'')]\<close>

text \<open>One endpoint of the list.\<close>

definition usage_row :: "endpoint \<Rightarrow> component" where
  \<open>usage_row e =
     [Lit 2 ''<div class="usage-row"><p class="endpoint-heading">'',
      Txt ''usage.templ'' 9 41 (ep_Desc e),
      Lit 3 ''</p><div class="endpoint-row-head">'',
      RenderCSS [MethodClass e],
      Lit 4 ''<span class="'',
      ClassAttr ''usage.templ'' 1 0 (MethodClass e),
      Lit 5 ''">'',
      Txt ''usage.templ'' 11 48 (ep_Method e),
      Lit 6 ''</span> <code>'',
      Txt ''usage.templ'' 12 21 apiHost,
      Raw (PathHTML e),
      Lit 7 ''</code></div></div>'']\<close>

definition usageSection :: "endpoint list \<Rightarrow> component" where
  \<open>usageSection es =
     [Lit 1 ''<section class="demo"><h2>Usage</h2><div class="usage-list">''] @
     concat (map usage_row es) @
     [Lit 8 (''</div><p class="api-key-note">Add your API key to the <code>X-Api-Key</code> header '' @
             ''on every request.</p><p class="api-key-note"><a class="robot-link" '' @
             ''href="/docs">Check the docs <span aria-hidden="true">&rarr;</span></a></p></section>'')]\<close>

definition limitsBody :: "component" where
  \<open>limitsBody =
     [Lit 3 (''<table class="limits-table"><tr><th>Max value size</th><td>50MB per '' @
             ''key</td></tr><tr><th>Storage cap</th><td>1GB per tenant</td></tr></table>'')]\<close>

definition limitsSection :: "component" where
  \<open>limitsSection =
     [Lit 1 ''<section class="limits" id="limits"><h2>Limits</h2>'',
      Sub limitsBody,
      Lit 2 ''</section>'']\<close>

definition disclaimerSection :: "component" where
  \<open>disclaimerSection =
     [Lit 1 (''<section class="disclaimer"><h2>Disclaimer</h2><p>Fredb is still a personal '' @
             ''project! As of writing, please do not rely on Fredb to:</p><ul><li>Store sensitive '' @
             ''data</li><li>Always be available</li></ul><p>As I'm working on this, your data '' @
             ''could be lost at anytime.</p><p>I don't want to be the reason why your demo stops '' @
             ''working in front of the entire company. That being said, I'll be doing my absolute '' @
             ''best not to be.</p></section>'')]\<close>

definition websiteIndex :: "endpoint list \<Rightarrow> component" where
  \<open>websiteIndex es =
     [Lit 1 ''<html>'',
      Sub (pageHead ''Fredb''),
      Lit 2 ''<body data-lang="curl">'',
      Sub topbar,
      Lit 3 ''<div class="shell">'',
      Sub (siteNav ''home''),
      Lit 4 ''<div class="page">'',
      Sub heroCopy,
      Sub (usageSection es),
      Sub limitsSection,
      Sub disclaimerSection,
      Lit 5 ''</div></div></body></html>'']\<close>

section \<open>The documentation\<close>

text \<open>One row of the table of an endpoint.\<close>

definition docs_row :: "shape_row \<Rightarrow> component" where
  \<open>docs_row r =
     [Lit 12 ''<tr><td>'',
      Txt ''docs.templ'' 35 25 (sr_Kind r),
      Lit 13 ''</td><td>'',
      Txt ''docs.templ'' 35 45 (sr_Value r),
      Lit 14 ''</td></tr>'']\<close>

text \<open>One endpoint.\<close>

definition docs_endpoint :: "endpoint \<Rightarrow> component" where
  \<open>docs_endpoint e =
     [Lit 5 ''<div class="usage-row" id="'',
      Attr ''docs.templ'' 26 38 (ep_ID e),
      Lit 6 ''"><div class="endpoint-row-head">'',
      RenderCSS [MethodClass e],
      Lit 7 ''<span class="'',
      ClassAttr ''docs.templ'' 1 0 (MethodClass e),
      Lit 8 ''">'',
      Txt ''docs.templ'' 28 50 (ep_Method e),
      Lit 9 ''</span> <code>'',
      Txt ''docs.templ'' 29 23 apiHost,
      Raw (PathHTML e),
      Lit 10 ''</code></div><p class="endpoint-desc">'',
      Txt ''docs.templ'' 31 40 (ep_Desc e),
      Lit 11 ''</p><table class="rate-table"><tr><th>Field</th><th>Value</th></tr>''] @
     concat (map docs_row (ep_Rows e)) @
     [Lit 15 ''</table><pre class="code-block" data-lang="curl"><code>'',
      Txt ''docs.templ'' 38 62 (ep_Curl e),
      Lit 16 ''</code></pre><pre class="code-block" data-lang="js"><code>'',
      Txt ''docs.templ'' 39 58 (ep_JS e),
      Lit 17 ''</code></pre><pre class="code-block" data-lang="go"><code>'',
      Txt ''docs.templ'' 40 58 (ep_Go e),
      Lit 18 ''</code></pre><pre class="code-block" data-lang="python"><code>'',
      Txt ''docs.templ'' 41 66 (ep_Python e),
      Lit 19 ''</code></pre></div>'']\<close>

text \<open>The long literals of the page.\<close>

definition docs_intro :: string where
  \<open>docs_intro =
     ''<div class="page"><section class="docs-section"><h2>Docs</h2><p>Fredb is meant to '' @
     ''be the easiest option if you just want a persistent KV store for your project. As '' @
     ''you can hopefully see by now, there is no sign up or anything needed from you. I '' @
     ''want you to create a database as quickly as possible so I can have experience '' @
     ''working on high-load systems!</p><h3>Authentication</h3><p '' @
     ''class="api-key-note">Every request needs an <code>X-Api-Key</code> header. Grab one '' @
     ''above.</p><h3>Endpoints</h3>''\<close>

definition docs_selector :: string where
  \<open>docs_selector =
     ''<hr class="section-divider"><div class="lang-selector"><button type="button" '' @
     ''class="lang-btn active" data-lang-btn="curl" onclick="setExampleLang('curl', '' @
     ''this)">curl</button> <button type="button" class="lang-btn" data-lang-btn="js" '' @
     ''onclick="setExampleLang('js', this)">JavaScript</button> ''\<close>

definition docs_list :: string where
  \<open>docs_list =
     ''<button type="button" class="lang-btn" data-lang-btn="go" '' @
     ''onclick="setExampleLang('go', this)">Go</button> <button type="button" '' @
     ''class="lang-btn" data-lang-btn="python" onclick="setExampleLang('python', '' @
     ''this)">Python</button></div><div class="usage-list">''\<close>

definition docs_end :: string where
  \<open>docs_end =
     ''</div><script>'' @ tabbed 5 @ ''function setExampleLang(lang, btn) {'' @ tabbed 6 @
     ''document.body.dataset.lang = lang;'' @ tabbed 6 @
     ''document.querySelectorAll('.lang-btn').forEach(function(b) {'' @ tabbed 7 @
     ''b.classList.remove('active');'' @ tabbed 6 @ ''});'' @ tabbed 6 @
     ''btn.classList.add('active');'' @ tabbed 5 @ ''}'' @ tabbed 4 @
     ''</script><p class="api-key-note"><a class="robot-link" '' @
     ''href="https://adventures.fredyang.com">Learn more about storage engines <span '' @
     ''aria-hidden="true">&rarr;</span></a></p></section></div></div></body></html>''\<close>

definition docsPage :: "endpoint list \<Rightarrow> component" where
  \<open>docsPage es =
     [Lit 1 ''<html>'',
      Sub (pageHead (''Fredb '' @ em_dash @ '' Docs'')),
      Lit 2 ''<body data-lang="curl">'',
      Sub topbar,
      Lit 3 ''<div class="shell">'',
      Sub (siteNav ''docs''),
      Lit 4 (docs_intro @ docs_selector @ docs_list)] @
     concat (map docs_endpoint es) @
     [Lit 20 docs_end]\<close>

section \<open>The status page\<close>

definition statTile :: "string \<Rightarrow> string \<Rightarrow> component" where
  \<open>statTile value label =
     [Lit 23 ''<div class="stat-tile"><div class="stat-value">'',
      Txt ''status.templ'' 64 33 value,
      Lit 24 ''</div><div class="stat-label">'',
      Txt ''status.templ'' 65 33 label,
      Lit 25 ''</div></div>'']\<close>

text \<open>One recent request.\<close>

definition feed_row :: "status_op \<Rightarrow> component" where
  \<open>feed_row op =
     [Lit 14 ''<tr><td>'',
      Txt ''status.templ'' 51 19 (so_When op),
      Lit 15 ''</td><td>'',
      Txt ''status.templ'' 52 17 (so_Op op),
      Lit 16 ''</td><td>'',
      Txt ''status.templ'' 53 22 (so_Latency op),
      Lit 17 ''</td>'',
      RenderCSS [StatusClass op],
      Lit 18 ''<td class="'',
      ClassAttr ''status.templ'' 1 0 (StatusClass op),
      Lit 19 ''">'',
      Txt ''status.templ'' 54 54 (StatusText op),
      Lit 20 ''</td></tr>'']\<close>

definition statusBody :: "status_view \<Rightarrow> component" where
  \<open>statusBody v =
     [Lit 6 ''<section class="status-section"><h2>Status</h2>''] @
     (if sv_Healthy v then [Lit 7 ''<p class="status-ok">All systems operational! :)</p>'']
      else [Lit 8 ''<p class="status-err">Fredb is experiencing issues. :(</p>'']) @
     [Lit 9 ''<h3 class="status-sub">Health</h3><div class="stat-grid">'',
      Sub (statTile (sv_DiskUsed v) ''on disk''),
      Sub (statTile (sv_TenantCount v) ''tenants''),
      Sub (statTile (sv_Uptime v) ''uptime''),
      Lit 10 ''</div><h3 class="status-sub">Request latency</h3><div class="stat-grid">'',
      Sub (statTile (sv_WriteP50 v) ''write p50''),
      Sub (statTile (sv_WriteP99 v) ''write p99''),
      Sub (statTile (sv_ReadP50 v) ''read p50''),
      Sub (statTile (sv_ReadP99 v) ''read p99''),
      Sub (statTile (sv_OpsPerSec v) ''req / sec''),
      Sub (statTile (sv_TotalOps v) ''total reqs''),
      Lit 11 ''</div><h3 class="status-sub">Recent requests</h3>''] @
     (if sv_RecentOps v = [] then
        [Lit 12 (''<p class="status-empty">no requests yet'' @ ellipsis @ ''</p>'')]
      else
        [Lit 13 (''<table class="feed-table"><tr><th>time</th><th>op</th><th>latency</th><th>result</th'' @
                ''></tr>'')] @
        concat (map feed_row (sv_RecentOps v)) @
        [Lit 21 ''</table>'']) @
     [Lit 22 ''</section>'']\<close>

definition statusPage :: "status_view \<Rightarrow> component" where
  \<open>statusPage v =
     [Lit 1 ''<html>'',
      Sub (pageHead (''Fredb '' @ em_dash @ '' Status'')),
      Lit 2 ''<body data-lang="curl">'',
      Sub topbar,
      Lit 3 ''<div class="shell">'',
      Sub (siteNav ''status''),
      Lit 4 (''<div class="page"><div hx-get="/status/live" hx-trigger="load, every 1s" '' @
             ''hx-swap="innerHTML">''),
      Sub (statusBody v),
      Lit 5 ''</div></div></div></body></html>'']\<close>

section \<open>The answers to the button\<close>

definition websiteKey :: "string \<Rightarrow> component" where
  \<open>websiteKey apiKey =
     [Lit 1 (''<div class="key-display" tabindex="0" role="button" aria-label="Copy API key" '' @
             ''onclick="copyKey(this)"><span class="key-prefix" '' @
             ''aria-hidden="true">API_KEY:</span><span class="key-value">''),
      Txt ''key.templ'' 5 93 apiKey,
      Lit 2 ''</span> <span class="key-hover-label">Click to copy</span></div>'']\<close>

definition websiteError :: "string \<Rightarrow> component" where
  \<open>websiteError msg =
     [Lit 3 ''<div class="key-display disabled" aria-disabled="true"><span class="key-value">'',
      Txt ''key.templ'' 12 31 msg,
      Lit 4 ''</span></div>'']\<close>

end
