(* ===== verification/Html_Laws.thy ===== *)
theory Html_Laws
  imports Site_Pages
begin

text \<open>
  What a browser makes of a page: a reader of markup that keeps the open elements and the tags it
  has seen. Escaped text does not move it, so the tags of a page do not depend on the texts in it.
\<close>

section \<open>A reader of markup\<close>

text \<open>
  The reader is in text, in a tag (with the characters of the tag, last one first), or in a quoted
  attribute value. Its state has the open elements, innermost first, and the names of the tags
  seen, last one first. It stops (\<open>None\<close>) at \<open><\<close> inside a tag, at a tag without a name and at a
  closing tag that does not match.
\<close>

datatype html_mode = Content | In_tag string | Quoted string

type_synonym html_state = "html_mode \<times> string list \<times> string list"

definition void_element :: "string \<Rightarrow> bool" where
  "void_element n \<longleftrightarrow> n \<in> {''meta'', ''link'', ''hr'', ''br'', ''input'', ''img''}"

definition tag_name :: "string \<Rightarrow> string" where
  "tag_name acc = takeWhile (\<lambda>c. c \<noteq> CHR '' '') (rev acc)"

definition finish_tag :: "string \<Rightarrow> string list \<Rightarrow> string list option" where
  "finish_tag n st =
     (if n = '''' then None
      else if hd n = CHR ''/'' then
        (case st of [] \<Rightarrow> None | t # st' \<Rightarrow> if t = tl n then Some st' else None)
      else Some (if void_element n then st else n # st))"

fun html_step :: "html_state \<Rightarrow> char \<Rightarrow> html_state option" where
  "html_step (Content, st, tags) c = Some (if c = CHR ''<'' then In_tag '''' else Content, st, tags)"
| "html_step (In_tag acc, st, tags) c =
     (if c = CHR ''>'' then
        map_option (\<lambda>st'. (Content, st', tag_name acc # tags)) (finish_tag (tag_name acc) st)
      else if c = CHR 0x22 then Some (Quoted acc, st, tags)
      else if c = CHR ''<'' then None
      else Some (In_tag (c # acc), st, tags))"
| "html_step (Quoted acc, st, tags) c = Some (if c = CHR 0x22 then In_tag acc else Quoted acc, st, tags)"

fun html_run :: "html_state \<Rightarrow> string \<Rightarrow> html_state option" where
  "html_run s [] = Some s"
| "html_run s (c # cs) = (case html_step s c of None \<Rightarrow> None | Some s' \<Rightarrow> html_run s' cs)"

text \<open>A page reads from text to text and closes what it opens; its tags in their order.\<close>

definition well_nested :: "string \<Rightarrow> bool" where
  "well_nested t \<longleftrightarrow> (case html_run (Content, [], []) t of Some (Content, [], tags) \<Rightarrow> True | _ \<Rightarrow> False)"

definition page_tags :: "string \<Rightarrow> string list option" where
  "page_tags t = map_option (\<lambda>(m, st, tags). rev tags) (html_run (Content, [], []) t)"

lemma html_run_append:
  "html_run s (t @ u) = (case html_run s t of None \<Rightarrow> None | Some s' \<Rightarrow> html_run s' u)"
  by (induction t arbitrary: s) (auto split: option.splits)

text \<open>The simplifier runs the reader without looking into the text ahead.\<close>

lemma html_run_weak_cong: "s = s' \<Longrightarrow> html_run s t = html_run s' t"
  by simp

section \<open>Escaped text\<close>

lemma escape_char_set: "c \<in> set (escape_char d) \<Longrightarrow> c \<noteq> CHR ''<'' \<and> c \<noteq> CHR ''>'' \<and> c \<noteq> CHR 0x22"
  by (auto simp: escape_char_def split: if_splits)

lemma escaped_set: "c \<in> set (html_EscapeString s) \<Longrightarrow> c \<noteq> CHR ''<'' \<and> c \<noteq> CHR ''>'' \<and> c \<noteq> CHR 0x22"
  using escape_char_set by (fastforce simp: html_EscapeString_def)

lemma html_run_text: "CHR ''<'' \<notin> set t \<Longrightarrow> html_run (Content, st, tags) t = Some (Content, st, tags)"
  by (induction t) auto

lemma html_run_quoted: "CHR 0x22 \<notin> set t \<Longrightarrow> html_run (Quoted acc, st, tags) t = Some (Quoted acc, st, tags)"
  by (induction t) auto

lemma html_run_escaped [simp]:
  "html_run (Content, st, tags) (html_EscapeString s) = Some (Content, st, tags)"
  "html_run (Quoted acc, st, tags) (html_EscapeString s) = Some (Quoted acc, st, tags)"
proof -
  have "CHR ''<'' \<notin> set (html_EscapeString s)" "CHR 0x22 \<notin> set (html_EscapeString s)"
    using escaped_set by blast+
  then show "html_run (Content, st, tags) (html_EscapeString s) = Some (Content, st, tags)"
    "html_run (Quoted acc, st, tags) (html_EscapeString s) = Some (Quoted acc, st, tags)"
    by (simp_all add: html_run_text html_run_quoted)
qed

section \<open>Reading a component without its texts\<close>

fun piece_run :: "piece \<Rightarrow> html_state \<Rightarrow> html_state option" where
  "piece_run (Lit i t) s = html_run s t"
| "piece_run (Txt f l c v) s = (if fst s = Content then Some s else None)"
| "piece_run (Attr f l c v) s = (case fst s of Quoted acc \<Rightarrow> Some s | _ \<Rightarrow> None)"
| "piece_run (ClassAttr f l c cs) s = (case fst s of Quoted acc \<Rightarrow> Some s | _ \<Rightarrow> None)"
| "piece_run (RenderCSS cs) s = Some s"
| "piece_run (Raw t) s = html_run s t"
| "piece_run (Sub ps) s = fold (\<lambda>p r. Option.bind r (piece_run p)) ps (Some s)"

definition page_run :: "component \<Rightarrow> html_state \<Rightarrow> html_state option" where
  "page_run ps s = fold (\<lambda>p r. Option.bind r (piece_run p)) ps (Some s)"

lemma fold_bind_None [simp]: "fold (\<lambda>p r. Option.bind r (f p)) ps None = None"
  by (induction ps) auto

lemma page_run_simps [simp]:
  "page_run [] s = Some s"
  "page_run (p # ps) s = (case piece_run p s of None \<Rightarrow> None | Some s' \<Rightarrow> page_run ps s')"
  "piece_run (Sub ps) s = page_run ps s"
  by (simp_all add: page_run_def split: option.splits)

lemma page_run_append:
  "page_run (ps @ qs) s = (case page_run ps s of None \<Rightarrow> None | Some s' \<Rightarrow> page_run qs s')"
  by (induction ps arbitrary: s) (auto split: option.splits)

declare piece_run.simps(7) [simp del]

lemma page_run_weak_cong:
  "s = s' \<Longrightarrow> piece_run p s = piece_run p s'" "s = s' \<Longrightarrow> page_run ps s = page_run ps s'"
  by simp_all

lemmas read_cong = html_run_weak_cong page_run_weak_cong

text \<open>The reader runs over the text of a page as over the page without its texts.\<close>

lemma piece_run_text: "piece_run p s = Some s' \<Longrightarrow> html_run s (piece_text p) = Some s'"
proof (induction p arbitrary: s s')
  case (Sub ps)
  have "page_run qs s = Some s' \<Longrightarrow> set qs \<subseteq> set ps \<Longrightarrow> html_run s (page_text qs) = Some s'" for qs s
    by (induction qs arbitrary: s) (auto simp: html_run_append dest: Sub.IH split: option.splits)
  with Sub.prems show ?case by (simp only: piece_text_Sub page_run_simps)
next
  case (Txt f l c v)
  then show ?case by (cases s) (auto split: if_splits)
next
  case (Attr f l c v)
  then show ?case by (cases s) (auto split: html_mode.splits)
next
  case (ClassAttr f l c cs)
  then show ?case by (cases s) (auto split: html_mode.splits)
qed simp_all

lemma page_run_text: "page_run ps s = Some s' \<Longrightarrow> html_run s (page_text ps) = Some s'"
  using piece_run_text [of "Sub ps"] by (simp add: piece_text_Sub del: piece_text.simps)

text \<open>
  A balanced component leaves the mode and the open elements as they are, and adds tags.
  \<open>adds ps ts\<close>: from text, whatever is open, the component adds the tags \<open>ts\<close> (last one first).
\<close>

definition adds :: "component \<Rightarrow> string list \<Rightarrow> bool" where
  "adds ps ts \<longleftrightarrow> (\<forall>st tags. page_run ps (Content, st, tags) = Some (Content, st, ts @ tags))"

lemma addsD: "adds ps ts \<Longrightarrow> page_run ps (Content, st, tags) = Some (Content, st, ts @ tags)"
  by (simp add: adds_def)

lemma adds_concat:
  "(\<And>x. x \<in> set xs \<Longrightarrow> adds (f x) (g x)) \<Longrightarrow> adds (concat (map f xs)) (concat (map g (rev xs)))"
proof (induction xs)
  case (Cons x xs)
  then show ?case by (simp add: adds_def page_run_append)
qed (simp add: adds_def)

lemma adds_well_nested:
  assumes "adds ps ts"
  shows "well_nested (page_text ps)" "page_tags (page_text ps) = Some (rev ts)"
  using page_run_text [OF addsD [OF assms, of "[]" "[]"]] by (simp_all add: well_nested_def page_tags_def)

end
