(* ===== verification/Page_Laws.thy ===== *)
theory Page_Laws
  imports Html_Laws
begin

text \<open>The components one by one: each is balanced, whatever its texts are.\<close>

section \<open>Reading literals\<close>

lemmas read_literal = html_run_append finish_tag_def tag_name_def void_element_def

lemma tabbed_chars [simp]: "CHR ''<'' \<notin> set (tabbed n)" "CHR ''<'' \<notin> set em_dash" "CHR ''<'' \<notin> set ellipsis"
  by (simp_all add: tabbed_def em_dash_def ellipsis_def)

lemma run_constants [simp]:
  "html_run (Content, st, tags) (tabbed n) = Some (Content, st, tags)"
  "html_run (Content, st, tags) em_dash = Some (Content, st, tags)"
  "html_run (Content, st, tags) ellipsis = Some (Content, st, tags)"
  by (simp_all add: html_run_text)

section \<open>Components\<close>

lemma favicon_adds: "adds favicon
    [''link'']"
  unfolding adds_def favicon_def by (simp add: read_literal cong: read_cong)

lemma limitsBody_adds: "adds limitsBody
    [''/table'', ''/tr'', ''/td'', ''td'', ''/th'', ''th'', ''tr'', ''/tr'', ''/td'', ''td'',
     ''/th'', ''th'', ''tr'', ''table'']"
  unfolding adds_def limitsBody_def by (simp add: read_literal cong: read_cong)

lemma heroCopy_adds: "adds heroCopy
    [''/div'', ''/div'', ''/p'', ''/a'', ''/span'', ''span'', ''a'', ''/code'', ''code'', ''p'',
     ''/p'', ''p'', ''/h1'', ''h1'', ''div'', ''div'']"
  unfolding adds_def heroCopy_def by (simp add: read_literal cong: read_cong)

lemma topbar_adds: "adds topbar
    [''/script'', ''script'', ''/div'', ''/div'', ''/div'', ''/div'', ''/span'', ''span'',
     ''/span'', ''span'', ''div'', ''div'', ''/button'', ''button'', ''div'', ''div'']"
  unfolding adds_def topbar_def by (simp add: read_literal cong: read_cong)

lemma disclaimerSection_adds: "adds disclaimerSection
    [''/section'', ''/p'', ''p'', ''/p'', ''p'', ''/ul'', ''/li'', ''li'', ''/li'', ''li'', ''ul'',
     ''/p'', ''p'', ''/h2'', ''h2'', ''section'']"
  unfolding adds_def disclaimerSection_def by (simp add: read_literal cong: read_cong)

lemma siteNav_adds: "adds (siteNav active)
    [''/nav'', ''/a'', ''a'', ''/a'', ''a'', ''/a'', ''a'', ''nav'']"
  unfolding adds_def siteNav_def by (simp add: read_literal cong: read_cong)

lemma statTile_adds: "adds (statTile value label)
    [''/div'', ''/div'', ''div'', ''/div'', ''div'', ''div'']"
  unfolding adds_def statTile_def by (simp add: read_literal cong: read_cong)

lemma websiteKey_adds: "adds (websiteKey k)
    [''/div'', ''/span'', ''span'', ''/span'', ''span'', ''/span'', ''span'', ''div'']"
  unfolding adds_def websiteKey_def by (simp add: read_literal cong: read_cong)

lemma websiteError_adds: "adds (websiteError m)
    [''/div'', ''/span'', ''span'', ''div'']"
  unfolding adds_def websiteError_def by (simp add: read_literal cong: read_cong)

lemma feed_row_adds: "adds (feed_row op)
    [''/tr'', ''/td'', ''td'', ''/td'', ''td'', ''/td'', ''td'', ''/td'', ''td'', ''tr'']"
  unfolding adds_def feed_row_def by (simp add: read_literal cong: read_cong)

lemma docs_row_adds: "adds (docs_row r)
    [''/tr'', ''/td'', ''td'', ''/td'', ''td'', ''tr'']"
  unfolding adds_def docs_row_def by (simp add: read_literal cong: read_cong)

end
