(* ===== verification/Site_Laws.thy ===== *)
theory Site_Laws
  imports Page_Laws
begin

text \<open>The pages from their components: every page closes what it opens.\<close>

section \<open>The frame\<close>

lemma style_blocks:
  "html_run (Content, st, tags) style_2 = Some (Content, st, tags)"
  "html_run (Content, st, tags) style_3 = Some (Content, st, tags)"
  "html_run (Content, st, tags) style_4 = Some (Content, st, tags)"
  "html_run (Content, st, tags) style_5 = Some (Content, st, tags)"
  "html_run (Content, st, tags) style_6 = Some (Content, st, tags)"
  "html_run (Content, st, tags) style_7 = Some (Content, st, tags)"
  "html_run (Content, st, tags) style_8 = Some (Content, st, tags)"
  "html_run (Content, st, tags) style_9 = Some (Content, st, tags)"
  "html_run (Content, st, tags) style_10 = Some (Content, st, tags)"
  "html_run (Content, st, tags) style_11 = Some (Content, st, tags)"
  unfolding style_2_def style_3_def style_4_def style_5_def style_6_def
    style_7_def style_8_def style_9_def style_10_def style_11_def
  by (simp_all add: html_run_append cong: html_run_weak_cong)

lemma style_ends:
  "html_run (Content, st, tags) style_1 = Some (Content, ''style'' # st, ''style'' # tags)"
  "html_run (Content, ''style'' # st, tags) style_12 = Some (Content, st, ''/style'' # tags)"
  unfolding style_1_def style_12_def by (simp_all add: read_literal cong: html_run_weak_cong)

lemma stylesheet_adds: "adds stylesheet [''/style'', ''style'']"
  unfolding adds_def stylesheet_def
  by (simp only: page_run_simps piece_run.simps(1) html_run_append style_ends style_blocks option.case
      append_Cons append_Nil simp_thms)
text \<open>Reading a component that is part of another.\<close>

lemmas read_part =
  addsD [OF favicon_adds] addsD [OF stylesheet_adds] addsD [OF topbar_adds] addsD [OF siteNav_adds]
  addsD [OF heroCopy_adds] addsD [OF limitsBody_adds] addsD [OF disclaimerSection_adds] addsD [OF statTile_adds]

lemma pageHead_adds: "adds (pageHead title)
    [''/head'', ''/style'', ''style'', ''/script'', ''script'', ''meta'', ''link'', ''/title'', ''title'', ''head'']"
  unfolding adds_def pageHead_def by (simp add: read_literal read_part cong: read_cong)

lemma limitsSection_adds: "\<exists>ts. adds limitsSection ts"
proof -
  have "adds limitsSection ([''/section''] @ [''/table'', ''/tr'', ''/td'', ''td'', ''/th'', ''th'', ''tr'', ''/tr'',
      ''/td'', ''td'', ''/th'', ''th'', ''tr'', ''table''] @ [''/h2'', ''h2'', ''section''])"
    unfolding adds_def limitsSection_def by (simp add: read_literal read_part cong: read_cong)
  then show ?thesis by blast
qed

section \<open>The endpoints\<close>

text \<open>The two paths of the documentation, with their marked parameters.\<close>

definition documented_path :: "string \<Rightarrow> bool" where
  "documented_path p \<longleftrightarrow> p = ''/key/KEY'' \<or> p = ''/range?start=START&end=END''"

lemma PathHTML_documented:
  "ep_Path e = ''/key/KEY'' \<Longrightarrow> PathHTML e = ''/key/'' @ path_span ''KEY''"
  "ep_Path e = ''/range?start=START&end=END'' \<Longrightarrow>
     PathHTML e = ''/range?start='' @ path_span ''START'' @ ''&end='' @ path_span ''END''"
  by (simp_all add: PathHTML_def replace_all.simps path_span_def quote_char_def)

lemma path_span_run:
  "ph \<in> {''KEY'', ''START'', ''END''} \<Longrightarrow>
   html_run (Content, st, tags) (path_span ph) = Some (Content, st, ''/span'' # ''span'' # tags)"
  by (auto simp: path_span_def quote_char_def finish_tag_def tag_name_def void_element_def)

lemma PathHTML_run:
  assumes "documented_path (ep_Path e)"
  shows "\<exists>ts. \<forall>st tags. html_run (Content, st, tags) (PathHTML e) = Some (Content, st, ts @ tags)"
  using assms unfolding documented_path_def
proof
  assume "ep_Path e = ''/key/KEY''"
  then show ?thesis
    by (intro exI [of _ "[''/span'', ''span'']"])
      (simp add: PathHTML_documented html_run_append path_span_run del: append.simps)
next
  assume "ep_Path e = ''/range?start=START&end=END''"
  then show ?thesis
    by (intro exI [of _ "[''/span'', ''span'', ''/span'', ''span'']"])
      (simp add: PathHTML_documented html_run_append path_span_run del: append.simps)
qed

lemma adds_concat_ex: "\<forall>x \<in> set xs. \<exists>ts. adds (f x) ts \<Longrightarrow> \<exists>ts. adds (concat (map f xs)) ts"
proof -
  assume "\<forall>x \<in> set xs. \<exists>ts. adds (f x) ts"
  then obtain g where "\<forall>x \<in> set xs. adds (f x) (g x)" by metis
  then show ?thesis using adds_concat [of xs f g] by blast
qed

lemma usage_row_adds:
  assumes "documented_path (ep_Path e)"
  shows "\<exists>ts. adds (usage_row e) ts"
proof -
  obtain ts where "\<And>st tags. html_run (Content, st, tags) (PathHTML e) = Some (Content, st, ts @ tags)"
    using PathHTML_run [OF assms] by blast
  then have "adds (usage_row e) ([''/div'', ''/div'', ''/code''] @ ts @
      [''code'', ''/span'', ''span'', ''div'', ''/p'', ''p'', ''div''])"
    unfolding adds_def usage_row_def by (simp add: read_literal cong: read_cong)
  then show ?thesis by blast
qed


lemma docs_endpoint_adds:
  assumes "documented_path (ep_Path e)"
  shows "\<exists>ts. adds (docs_endpoint e) ts"
proof -
  obtain ts where p: "\<And>st tags. html_run (Content, st, tags) (PathHTML e) = Some (Content, st, ts @ tags)"
    using PathHTML_run [OF assms] by blast
  obtain us where r: "adds (concat (map docs_row (ep_Rows e))) us"
    using adds_concat_ex [of "ep_Rows e" docs_row] docs_row_adds by blast
  have "adds (docs_endpoint e) ([''/div'', ''/pre'', ''/code'', ''code'', ''pre'', ''/pre'', ''/code'', ''code'',
      ''pre'', ''/pre'', ''/code'', ''code'', ''pre'', ''/pre'', ''/code'', ''code'', ''pre'', ''/table''] @ us @
      [''/tr'', ''/th'', ''th'', ''/th'', ''th'', ''tr'', ''table'', ''/p'', ''p'', ''/div'', ''/code''] @ ts @
      [''code'', ''/span'', ''span'', ''div'', ''div''])"
    unfolding adds_def docs_endpoint_def
    by (simp add: read_literal page_run_append p addsD [OF r] cong: read_cong)
  then show ?thesis by blast
qed

section \<open>The pages\<close>

lemma usageSection_adds:
  assumes "\<forall>e \<in> set es. documented_path (ep_Path e)"
  shows "\<exists>ts. adds (usageSection es) ts"
proof -
  obtain ts where r: "adds (concat (map usage_row es)) ts"
    using adds_concat_ex [of es usage_row] usage_row_adds assms by blast
  have "adds (usageSection es) ([''/section'', ''/p'', ''/a'', ''/span'', ''span'', ''a'', ''p'', ''/p'', ''/code'',
      ''code'', ''p'', ''/div''] @ ts @ [''div'', ''/h2'', ''h2'', ''section''])"
    unfolding adds_def usageSection_def
    by (simp add: read_literal page_run_append addsD [OF r] cong: read_cong)
  then show ?thesis by blast
qed

text \<open>The tags of the frame of a page, up to the navigation.\<close>

definition frame_tags :: "string list" where
  "frame_tags =
     [''/nav'', ''/a'', ''a'', ''/a'', ''a'', ''/a'', ''a'', ''nav'', ''div'',
      ''/script'', ''script'', ''/div'', ''/div'', ''/div'', ''/div'', ''/span'', ''span'',
      ''/span'', ''span'', ''div'', ''div'', ''/button'', ''button'', ''div'', ''div'', ''body'',
      ''/head'', ''/style'', ''style'', ''/script'', ''script'', ''meta'', ''link'', ''/title'', ''title'', ''head'',
      ''html'']"

lemma websiteIndex_adds:
  assumes "\<forall>e \<in> set es. documented_path (ep_Path e)"
  shows "\<exists>ts. adds (websiteIndex es) ts"
proof -
  obtain us where u: "adds (usageSection es) us" using usageSection_adds [OF assms] by blast
  obtain ls where l: "adds limitsSection ls" using limitsSection_adds by blast
  have "\<exists>ts. \<forall>st tags. page_run (websiteIndex es) (Content, st, tags) = Some (Content, st, ts @ tags)"
    unfolding adds_def websiteIndex_def by (simp add: read_literal read_part addsD [OF pageHead_adds] addsD [OF u]
        addsD [OF l] cong: read_cong)
  then show ?thesis by (simp add: adds_def)
qed

text \<open>The long literals of the documentation.\<close>

lemma docs_literals:
  "html_run (Content, st, tags) docs_intro =
     Some (Content, ''section'' # ''div'' # st, ''/h3'' # ''h3'' # ''/p'' # ''/code'' # ''code'' # ''p'' #
       ''/h3'' # ''h3'' # ''/p'' # ''p'' # ''/h2'' # ''h2'' # ''section'' # ''div'' # tags)"
  "html_run (Content, st, tags) docs_selector =
     Some (Content, ''div'' # st, ''/button'' # ''button'' # ''/button'' # ''button'' # ''div'' # ''hr'' # tags)"
  "html_run (Content, ''div'' # st, tags) docs_list =
     Some (Content, ''div'' # st, ''div'' # ''/div'' # ''/button'' # ''button'' # ''/button'' # ''button'' # tags)"
  "html_run (Content, ''div'' # ''section'' # ''div'' # ''div'' # ''body'' # ''html'' # st, tags) docs_end =
     Some (Content, st, ''/html'' # ''/body'' # ''/div'' # ''/div'' # ''/section'' # ''/p'' # ''/a'' # ''/span'' #
       ''span'' # ''a'' # ''p'' # ''/script'' # ''script'' # ''/div'' # tags)"
  unfolding docs_intro_def docs_selector_def docs_list_def docs_end_def
  by (simp_all add: read_literal cong: read_cong)

lemma docsPage_adds:
  assumes "\<forall>e \<in> set es. documented_path (ep_Path e)"
  shows "\<exists>ts. adds (docsPage es) ts"
proof -
  obtain us where u: "adds (concat (map docs_endpoint es)) us"
    using adds_concat_ex [of es docs_endpoint] docs_endpoint_adds assms by blast
  have "adds (docsPage es)
      ([''/html'', ''/body'', ''/div'', ''/div'', ''/section'', ''/p'', ''/a'', ''/span'', ''span'', ''a'', ''p'',
        ''/script'', ''script'', ''/div''] @ us @
       [''div'', ''/div'', ''/button'', ''button'', ''/button'', ''button'', ''/button'', ''button'', ''/button'',
        ''button'', ''div'', ''hr'', ''/h3'', ''h3'', ''/p'', ''/code'', ''code'', ''p'', ''/h3'', ''h3'', ''/p'',
        ''p'', ''/h2'', ''h2'', ''section'', ''div''] @ frame_tags)"
    unfolding adds_def docsPage_def frame_tags_def
    by (simp add: read_literal docs_literals page_run_append read_part addsD [OF pageHead_adds] addsD [OF u]
        cong: read_cong)
  then show ?thesis by blast
qed

text \<open>The tags of the status, which depend on the number of recent requests only.\<close>

definition feed_tags :: "string list" where
  "feed_tags = [''/tr'', ''/td'', ''td'', ''/td'', ''td'', ''/td'', ''td'', ''/td'', ''td'', ''tr'']"

definition tile_tags :: "string list" where
  "tile_tags = [''/div'', ''/div'', ''div'', ''/div'', ''div'', ''div'']"

definition status_tags :: "nat \<Rightarrow> string list" where
  "status_tags n =
     [''/section''] @
     (if n = 0 then [''/p'', ''p'']
      else ''/table'' # concat (replicate n feed_tags) @
        [''/tr'', ''/th'', ''th'', ''/th'', ''th'', ''/th'', ''th'', ''/th'', ''th'', ''tr'', ''table'']) @
     [''/h3'', ''h3'', ''/div''] @ concat (replicate 6 tile_tags) @ [''div'', ''/h3'', ''h3'', ''/div''] @
     concat (replicate 3 tile_tags) @ [''div'', ''/h3'', ''h3'', ''/p'', ''p'', ''/h2'', ''h2'', ''section'']"

lemma feed_adds: "adds (concat (map feed_row ops)) (concat (replicate (length ops) feed_tags))"
proof -
  have "map (\<lambda>op. feed_tags) (rev ops) = replicate (length ops) feed_tags"
    by (simp add: map_replicate_const)
  with adds_concat [of ops feed_row "\<lambda>op. feed_tags"] feed_row_adds show ?thesis
    by (simp add: feed_tags_def)
qed

lemma statusBody_adds: "adds (statusBody v) (status_tags (length (sv_RecentOps v)))"
  unfolding adds_def statusBody_def
  by (simp add: read_literal page_run_append read_part addsD [OF feed_adds] status_tags_def tile_tags_def numeral_eq_Suc
      cong: read_cong)

lemma statusPage_adds: "adds (statusPage v)
   ([''/html'', ''/body'', ''/div'', ''/div'', ''/div''] @ status_tags (length (sv_RecentOps v)) @
    [''div'', ''div''] @ frame_tags)"
  unfolding adds_def statusPage_def frame_tags_def
  by (simp add: read_literal read_part addsD [OF pageHead_adds] addsD [OF statusBody_adds] cong: read_cong)

end
