(* ===== verification/Admin_Api.thy ===== *)
theory Admin_Api
  imports Public_Laws
begin

text \<open>
  \<open>server/admin.go\<close>: the administration interface, behind one shared key. The reader of the JSON
  body (\<open>json.Decoder\<close> into \<open>RateLimitOverride\<close>) is an argument: it gives the error text of a
  body it rejects, or the five optional numbers. The disk statistics are those of
  \<open>Manager_Background\<close>.
\<close>

section \<open>Rate-limit overrides\<close>

record rate_limit_override =
  ov_CapacityBytes :: "float64 option"
  ov_RefillBytesPerSec :: "float64 option"
  ov_FlatOverheadBytes :: "float64 option"
  ov_WriteByteWeight :: "float64 option"
  ov_ReadByteWeight :: "float64 option"

definition applyRateLimitOverride :: "rate_limit_config \<Rightarrow> rate_limit_override \<Rightarrow> rate_limit_config" where
  "applyRateLimitOverride base ov =
     (let cfg = base;
          cfg = (case ov_CapacityBytes ov of Some v \<Rightarrow> cfg\<lparr>CapacityBytes := v\<rparr> | None \<Rightarrow> cfg);
          cfg = (case ov_RefillBytesPerSec ov of Some v \<Rightarrow> cfg\<lparr>RefillBytesPerSec := v\<rparr> | None \<Rightarrow> cfg);
          cfg = (case ov_FlatOverheadBytes ov of Some v \<Rightarrow> cfg\<lparr>FlatOverheadBytes := v\<rparr> | None \<Rightarrow> cfg);
          cfg = (case ov_WriteByteWeight ov of Some v \<Rightarrow> cfg\<lparr>WriteByteWeight := v\<rparr> | None \<Rightarrow> cfg);
          cfg = (case ov_ReadByteWeight ov of Some v \<Rightarrow> cfg\<lparr>ReadByteWeight := v\<rparr> | None \<Rightarrow> cfg)
      in cfg)"

section \<open>Answers\<close>

definition writeJSON :: "int \<Rightarrow> string \<Rightarrow> reply" where
  "writeJSON status v =
     Replied [SetHeader ''Content-Type'' ''application/json'', WriteHeader status, Write (v @ [newline])]"

definition json_error :: "string \<Rightarrow> string" where
  "json_error msg = json_object [json_member ''error'' (json_string msg)]"

definition writeStoreErr :: "store_error \<Rightarrow> reply" where
  "writeStoreErr e = writeJSON (se_Status e) (json_error (se_Message e))"

definition json_uint :: "64 word \<Rightarrow> string" where
  "json_uint n = dec_nat (unat n)"

definition json_storage :: "storage_stats \<Rightarrow> string" where
  "json_storage st = json_object
     [json_member ''disk_used_bytes'' (json_uint (DiskUsedBytes st)),
      json_member ''machine_free_bytes'' (json_uint (MachineFreeBytes st)),
      json_member ''machine_total_bytes'' (json_uint (MachineTotalBytes st))]"

section \<open>The handlers\<close>

definition requireAdminKey ::
  "string \<Rightarrow> (http_request \<Rightarrow> 's \<Rightarrow> reply \<times> 's) \<Rightarrow> http_request \<Rightarrow> 's \<Rightarrow> reply \<times> 's" where
  "requireAdminKey adminKey h rq s =
     (if adminKey = '''' \<or> rq_Header rq ''X-Admin-Key'' \<noteq> adminKey
      then (writeJSON 401 (json_error ''missing or invalid X-Admin-Key''), s)
      else h rq s)"

type_synonym override_reader = "string \<Rightarrow> bool \<Rightarrow> string + rate_limit_override"

definition rate_limit_handler ::
  "override_reader \<Rightarrow> env \<Rightarrow> string \<Rightarrow> http_request \<Rightarrow> ('h, 'w) srv_state \<Rightarrow> reply \<times> ('h, 'w) srv_state" where
  "rate_limit_handler decode ev key rq = (\<lambda>(w, man).
     case decode (rq_Body rq) (rq_BodyFails rq) of
       Inl e \<Rightarrow> (writeJSON 400 (json_error e), w, man)
     | Inr override \<Rightarrow>
         (let cfg = applyRateLimitOverride (man_rateLimit man) override in
          case LookupProvisioned man key of
            Inl e \<Rightarrow> (writeStoreErr e, w, man)
          | Inr db \<Rightarrow> (no_content, w, set_tenant key (SetRateLimitConfig (clk ev 0) cfg db) man)))"

definition storage_handler :: "disk \<Rightarrow> http_request \<Rightarrow> ('h, 'w) srv_state \<Rightarrow> reply \<times> ('h, 'w) srv_state" where
  "storage_handler dk rq = (\<lambda>(w, man).
     (case StorageStats dk man of
        Inl e \<Rightarrow> writeJSON 500 (json_error (os_text e))
      | Inr stats \<Rightarrow> writeJSON 200 (json_storage stats), w, man))"

definition method_not_allowed :: "string \<Rightarrow> reply" where
  "method_not_allowed allow =
     Replied (SetHeader ''Allow'' allow # http_Error ''Method Not Allowed'' 405)"

text \<open>The two patterns; a pattern with \<open>GET\<close> serves \<open>HEAD\<close> too.\<close>

definition NewAdminHandler ::
  "override_reader \<Rightarrow> disk \<Rightarrow> env \<Rightarrow> string \<Rightarrow> http_request \<Rightarrow> ('h, 'w) srv_state \<Rightarrow>
   reply \<times> ('h, 'w) srv_state" where
  "NewAdminHandler decode dk ev adminKey rq s =
     (let p = (if rq_Method rq = ''CONNECT'' then rq_EscapedPath rq else cleanPath (rq_EscapedPath rq)) in
      if p \<noteq> rq_EscapedPath rq then (Redirected p, s)
      else
        case path_segments p of
          [a, b] \<Rightarrow>
            if a = ''admin'' \<and> b = ''storage'' then
              if rq_Method rq = ''GET'' \<or> rq_Method rq = ''HEAD''
              then requireAdminKey adminKey (storage_handler dk) rq s
              else (method_not_allowed ''GET, HEAD'', s)
            else (Replied http_NotFound, s)
        | [a, key, c] \<Rightarrow>
            if a = ''admin'' \<and> key \<noteq> '''' \<and> c = ''rate-limit'' then
              if rq_Method rq = ''POST''
              then requireAdminKey adminKey (rate_limit_handler decode ev key) rq s
              else (method_not_allowed ''POST'', s)
            else (Replied http_NotFound, s)
        | _ \<Rightarrow> (Replied http_NotFound, s))"

section \<open>Laws\<close>

lemma admin_reply_eval [simp]:
  "reply_status (writeJSON c v) = c" "reply_body (writeJSON c v) = v @ [newline]"
  "reply_status (method_not_allowed a) = 405"
  "reply_status (writeStoreErr e) = se_Status e"
  by (simp_all add: writeJSON_def reply_status_def reply_body_def method_not_allowed_def http_Error_def
      writeStoreErr_def)

lemma applyRateLimitOverride_fields:
  "CapacityBytes (applyRateLimitOverride base ov) =
     (case ov_CapacityBytes ov of Some v \<Rightarrow> v | None \<Rightarrow> CapacityBytes base)"
  "RefillBytesPerSec (applyRateLimitOverride base ov) =
     (case ov_RefillBytesPerSec ov of Some v \<Rightarrow> v | None \<Rightarrow> RefillBytesPerSec base)"
  "FlatOverheadBytes (applyRateLimitOverride base ov) =
     (case ov_FlatOverheadBytes ov of Some v \<Rightarrow> v | None \<Rightarrow> FlatOverheadBytes base)"
  "WriteByteWeight (applyRateLimitOverride base ov) =
     (case ov_WriteByteWeight ov of Some v \<Rightarrow> v | None \<Rightarrow> WriteByteWeight base)"
  "ReadByteWeight (applyRateLimitOverride base ov) =
     (case ov_ReadByteWeight ov of Some v \<Rightarrow> v | None \<Rightarrow> ReadByteWeight base)"
  by (simp_all add: applyRateLimitOverride_def Let_def split: option.splits)

text \<open>Changing the limits of a tenant leaves its data and its links alone.\<close>

lemma SetRateLimitConfig_view [simp]:
  "db_view dat w (SetRateLimitConfig now cfg db) = db_view dat w db"
  by (simp add: SetRateLimitConfig_def db_view_def)

lemma SetRateLimitConfig_ok:
  assumes "tenant_ok srv dat w man k db" "sane_config cfg"
  shows "tenant_ok srv dat w man k (SetRateLimitConfig now cfg db)"
proof -
  have "db_inv (SetRateLimitConfig now cfg db)"
    using assms tb_inv_New [OF assms(2)]
    by (auto simp: tenant_ok_def tenant_wf_def SetRateLimitConfig_def db_inv_def)
  with assms(1) show ?thesis
    by (auto simp: tenant_ok_def tenant_wf_def SetRateLimitConfig_def db_linked_def db_housed_def db_view_def)
qed

end
