(* ===== verification/Config.thy ===== *)
theory Config
  imports Admin_Api
begin

text \<open>
  \<open>server/main.go\<close>: the settings of the server, from the environment and the command line, and
  the start of the server from them. The flags are what the library \<open>flag\<close> has parsed, one
  optional value each. Numbers in the environment are read by \<open>strconv\<close>, modelled here.
\<close>

section \<open>strconv.ParseFloat\<close>

definition any_digit :: "bool \<Rightarrow> char \<Rightarrow> nat option" where
  "any_digit hex c = (if hex then hex_val c else digit_val c)"

text \<open>Digits with at most one point: the digits as a number, how many followed the point, what is left.\<close>

fun scan_mantissa ::
  "bool \<Rightarrow> bool \<Rightarrow> nat \<Rightarrow> nat \<Rightarrow> bool \<Rightarrow> string \<Rightarrow> nat \<times> nat \<times> bool \<times> string" where
  "scan_mantissa hex dot m fr seen [] = (m, fr, seen, [])"
| "scan_mantissa hex dot m fr seen (c # cs) =
     (if c = CHR ''_'' then scan_mantissa hex dot m fr seen cs
      else if c = CHR ''.'' then
        (if dot then (m, fr, seen, c # cs) else scan_mantissa hex True m fr seen cs)
      else
        (case any_digit hex c of
           None \<Rightarrow> (m, fr, seen, c # cs)
         | Some d \<Rightarrow> scan_mantissa hex dot (m * (if hex then 16 else 10) + d) (if dot then fr + 1 else fr) True cs))"

text \<open>The digits of an exponent; the library stops adding digits from 10000 on.\<close>

fun scan_exponent :: "nat \<Rightarrow> string \<Rightarrow> nat \<times> string" where
  "scan_exponent e [] = (e, [])"
| "scan_exponent e (c # cs) =
     (if c = CHR ''_'' then scan_exponent e cs
      else
        (case digit_val c of
           None \<Rightarrow> (e, c # cs)
         | Some d \<Rightarrow> scan_exponent (if e < 10000 then e * 10 + d else e) cs))"

definition strip_sign :: "string \<Rightarrow> bool \<times> string" where
  "strip_sign s =
     (case s of
        [] \<Rightarrow> (False, [])
      | c # cs \<Rightarrow> if c = CHR ''+'' then (False, cs) else if c = CHR ''-'' then (True, cs) else (False, s))"

text \<open>The exponent with its sign, or no exponent; \<open>None\<close> for a malformed one.\<close>

definition read_exponent :: "bool \<Rightarrow> string \<Rightarrow> int option" where
  "read_exponent hex s =
     (case s of
        [] \<Rightarrow> if hex then None else Some 0
      | c # cs \<Rightarrow>
          if lower_char c = (if hex then CHR ''p'' else CHR ''e'') then
            (case strip_sign cs of
               (neg, ds) \<Rightarrow>
                 if ds = [] \<or> digit_val (hd ds) = None then None
                 else (case scan_exponent 0 ds of
                         (e, rest) \<Rightarrow> if rest \<noteq> [] then None else Some (if neg then - int e else int e)))
          else None)"

text \<open>Underscores only between digits, the base prefix counting as a digit.\<close>

fun underscores_between :: "bool \<Rightarrow> char \<Rightarrow> string \<Rightarrow> bool" where
  "underscores_between hex i [] = (i \<noteq> CHR ''_'')"
| "underscores_between hex i (c # cs) =
     (if any_digit hex c \<noteq> None then underscores_between hex CHR ''0'' cs
      else if c = CHR ''_'' then i = CHR ''0'' \<and> underscores_between hex CHR ''_'' cs
      else i \<noteq> CHR ''_'' \<and> underscores_between hex CHR ''!'' cs)"

definition is_hex_prefix :: "string \<Rightarrow> bool" where
  "is_hex_prefix s \<longleftrightarrow> 2 < length s \<and> s ! 0 = CHR ''0'' \<and> lower_char (s ! 1) = CHR ''x''"

definition ParseFloat :: "string \<Rightarrow> float64 option" where
  "ParseFloat s =
     (case strip_sign s of
        (neg, t) \<Rightarrow>
          if map lower_char t \<in> {''inf'', ''infinity''} then Some (if neg then NInf else PInf)
          else if map lower_char s = ''nan'' then Some NaN
          else
            let hex = is_hex_prefix t; u = (if hex then drop 2 t else t) in
            case scan_mantissa hex False 0 0 False u of
              (m, fr, seen, rest) \<Rightarrow>
                if \<not> seen then None
                else
                  (case read_exponent hex rest of
                     None \<Rightarrow> None
                   | Some e \<Rightarrow>
                       if CHR ''_'' \<in> set u \<and> \<not> underscores_between hex (if hex then CHR ''0'' else CHR ''^'') u then None
                       else
                         let x = (if hex then of_nat m * pow2 (e - 4 * int fr)
                                  else of_nat m / 10 ^ fr * (if 0 \<le> e then 10 ^ nat e else 1 / 10 ^ nat (- e)));
                             y = rnd (if neg then - x else x)
                         in if y \<in> {PInf, NInf} then None else Some y))"

section \<open>Settings\<close>

definition envOr :: "(string \<Rightarrow> string) \<Rightarrow> string \<Rightarrow> string \<Rightarrow> string" where
  "envOr getenv key fallback = (let v = getenv key in if v \<noteq> '''' then v else fallback)"

definition envOrUint64 :: "(string \<Rightarrow> string) \<Rightarrow> string \<Rightarrow> 64 word \<Rightarrow> 64 word" where
  "envOrUint64 getenv key fallback =
     (let v = getenv key in
      if v = '''' then fallback else case ParseUint v of None \<Rightarrow> fallback | Some n \<Rightarrow> n)"

definition envOrFloat64 :: "(string \<Rightarrow> string) \<Rightarrow> string \<Rightarrow> float64 \<Rightarrow> float64" where
  "envOrFloat64 getenv key fallback =
     (let v = getenv key in
      if v = '''' then fallback else case ParseFloat v of None \<Rightarrow> fallback | Some n \<Rightarrow> n)"

definition MaxStorageBytes :: "64 word" where "MaxStorageBytes = 1024 * 1024 * 1024"
definition InactivityDeleteDays :: "64 word" where "InactivityDeleteDays = 67"
definition ReapIntervalSeconds :: "64 word" where "ReapIntervalSeconds = 3600"

definition default_rate_limit :: rate_limit_config where
  "default_rate_limit =
     \<lparr>CapacityBytes = Fin (10 * 1024 * 1024), RefillBytesPerSec = Fin (5 * 1024 * 1024),
      FlatOverheadBytes = Fin 1024, WriteByteWeight = Fin 1, ReadByteWeight = Fin (1 / 8)\<rparr>"

text \<open>What was given on the command line.\<close>

record cli_flags =
  fl_verbose :: "bool option"
  fl_data_root :: "string option"
  fl_api_addr :: "string option"
  fl_website_addr :: "string option"
  fl_max_storage_bytes :: "64 word option"
  fl_capacity :: "float64 option"
  fl_refill :: "float64 option"
  fl_flat_overhead :: "float64 option"
  fl_write_weight :: "float64 option"
  fl_read_weight :: "float64 option"
  fl_admin_key :: "string option"
  fl_inactivity_days :: "64 word option"
  fl_reap_interval :: "64 word option"

record settings =
  st_verbose :: bool
  st_dataRoot :: string
  st_apiAddr :: string
  st_websiteAddr :: string
  st_maxStorageBytes :: "64 word"
  st_rateLimit :: rate_limit_config
  st_adminKey :: string
  st_inactivityDays :: "64 word"
  st_reapIntervalSeconds :: "64 word"

definition flag_or :: "'a option \<Rightarrow> 'a \<Rightarrow> 'a" where
  "flag_or f d = (case f of Some v \<Rightarrow> v | None \<Rightarrow> d)"

definition read_settings :: "(string \<Rightarrow> string) \<Rightarrow> cli_flags \<Rightarrow> settings" where
  "read_settings getenv fl =
     \<lparr>st_verbose = flag_or (fl_verbose fl) (getenv ''FREDB_VERBOSE'' = ''1''),
      st_dataRoot = flag_or (fl_data_root fl) (envOr getenv ''FREDB_DATA_ROOT'' ''/tmp/fredb-data''),
      st_apiAddr = flag_or (fl_api_addr fl) (envOr getenv ''FREDB_API_ADDR'' '':8080''),
      st_websiteAddr = flag_or (fl_website_addr fl) (envOr getenv ''FREDB_WEBSITE_ADDR'' '':8081''),
      st_maxStorageBytes = flag_or (fl_max_storage_bytes fl)
        (envOrUint64 getenv ''FREDB_MAX_STORAGE_BYTES'' MaxStorageBytes),
      st_rateLimit =
        \<lparr>CapacityBytes = flag_or (fl_capacity fl)
           (envOrFloat64 getenv ''FREDB_RATE_LIMIT_CAPACITY_BYTES'' (CapacityBytes default_rate_limit)),
         RefillBytesPerSec = flag_or (fl_refill fl)
           (envOrFloat64 getenv ''FREDB_RATE_LIMIT_REFILL_BYTES_PER_SEC'' (RefillBytesPerSec default_rate_limit)),
         FlatOverheadBytes = flag_or (fl_flat_overhead fl)
           (envOrFloat64 getenv ''FREDB_RATE_LIMIT_FLAT_OVERHEAD_BYTES'' (FlatOverheadBytes default_rate_limit)),
         WriteByteWeight = flag_or (fl_write_weight fl)
           (envOrFloat64 getenv ''FREDB_RATE_LIMIT_WRITE_BYTE_WEIGHT'' (WriteByteWeight default_rate_limit)),
         ReadByteWeight = flag_or (fl_read_weight fl)
           (envOrFloat64 getenv ''FREDB_RATE_LIMIT_READ_BYTE_WEIGHT'' (ReadByteWeight default_rate_limit))\<rparr>,
      st_adminKey = flag_or (fl_admin_key fl) (envOr getenv ''FREDB_ADMIN_KEY'' ''''),
      st_inactivityDays = flag_or (fl_inactivity_days fl)
        (envOrUint64 getenv ''FREDB_INACTIVITY_DELETE_DAYS'' InactivityDeleteDays),
      st_reapIntervalSeconds = flag_or (fl_reap_interval fl)
        (envOrUint64 getenv ''FREDB_REAP_INTERVAL_SECONDS'' ReapIntervalSeconds)\<rparr>"

section \<open>Starting the server\<close>

text \<open>\<open>time.Duration(n)\<close> of a 64-bit number, and the two durations of the reaper.\<close>

definition Duration :: "64 word \<Rightarrow> int" where
  "Duration n = wrap64 (uint n)"

definition reap_interval :: "settings \<Rightarrow> int" where
  "reap_interval st = wrap64 (Duration (st_reapIntervalSeconds st) * Second)"

definition idle_limit :: "settings \<Rightarrow> int" where
  "idle_limit st = wrap64 (wrap64 (Duration (st_inactivityDays st) * 24) * Hour)"

text \<open>The key of the administrator: configured, or 24 random bytes in hexadecimal.\<close>

definition admin_key :: "env \<Rightarrow> settings \<Rightarrow> string + string" where
  "admin_key ev st =
     (if st_adminKey st = '''' then
        (case rand_Read ev 0 of Inl e \<Rightarrow> Inl e | Inr b \<Rightarrow> Inr (hex_EncodeToString b))
      else Inr (st_adminKey st))"

text \<open>
  \<open>main\<close> up to the servers: \<open>Inl\<close> is \<open>log.Fatal\<close>. \<open>evk\<close> is the environment of the draw of the
  key, \<open>ev\<close> that of \<open>LoadAll\<close>, \<open>t1\<close> and \<open>t2\<close> the readings of \<open>NewStatusSampler\<close>. The started
  server has its files and table, the key, the durations of the reaper and the sampler.
\<close>

record ('h, 'w) started =
  sv_world :: "'w world"
  sv_manager :: "'h manager"
  sv_adminKey :: string
  sv_reapInterval :: int
  sv_maxIdle :: int
  sv_sampler :: sampler

definition main ::
  "('h, 'w) fredb_api \<Rightarrow> (string \<Rightarrow> string) \<Rightarrow> cli_flags \<Rightarrow> env \<Rightarrow> env \<Rightarrow> gotime \<Rightarrow> gotime \<Rightarrow> 'w world \<Rightarrow>
   string + ('h, 'w) started" where
  "main api getenv fl evk ev t1 t2 w =
     (let st = read_settings getenv fl in
      case admin_key evk st of
        Inl e \<Rightarrow> Inl e
      | Inr key \<Rightarrow>
          (let man = NewDatabaseManager (st_dataRoot st) (int MaxValueBytes) (st_maxStorageBytes st) (st_rateLimit st) in
           case LoadAll api ev w man of
             (Inl e, _, _) \<Rightarrow> Inl (os_text e)
           | (Inr _, w1, man1) \<Rightarrow>
               Inr \<lparr>sv_world = w1, sv_manager = man1, sv_adminKey = key, sv_reapInterval = reap_interval st,
                    sv_maxIdle = idle_limit st, sv_sampler = NewStatusSampler t1 t2\<rparr>))"

end
