(* ===== verification/Website.thy ===== *)
theory Website
  imports Config Site_Pages
begin

text \<open>
  \<open>website/website.go\<close>: the pages around the store, and the second server of \<open>main\<close>, which
  puts them beside the administration interface. The router gin, the runtime of templ and the
  embedded files are arguments. The interface \<open>Provisioner\<close> of the source is the locale of that
  name, which the manager interprets.
\<close>

section \<open>The pages\<close>

text \<open>
  What the handlers are built from: the runtime, the variable \<open>endpoints\<close> of the package, and what
  serves an embedded file.
\<close>

record 'b web_site =
  ws_runtime :: "'b templ_runtime"
  ws_endpoints :: "endpoint list"
  ws_file :: "string \<Rightarrow> http_request \<Rightarrow> reply"

text \<open>\<open>component.Render(c.Request.Context(), c.Writer)\<close>; its error is dropped.\<close>

definition render_page :: "'b web_site \<Rightarrow> component \<Rightarrow> resp_call list" where
  "render_page ws ps =
     (let rt = ws_runtime ws in [Write (tr_sent rt (snd (Render rt ps (tr_start rt))))])"

datatype web_route =
    R_static | R_index | R_robot | R_provision | R_docs | R_status | R_status_live
text \<open>The registrations of \<open>NewHandler\<close>: method, path, handler.\<close>

definition web_routes :: "(string \<times> string \<times> web_route) list" where
  "web_routes =
     [(''GET'', ''/static/*filepath'', R_static), (''HEAD'', ''/static/*filepath'', R_static),
      (''GET'', ''/'', R_index), (''GET'', ''/robot'', R_robot),
      (''POST'', ''/ui/provision'', R_provision), (''GET'', ''/docs'', R_docs),
      (''GET'', ''/status'', R_status), (''GET'', ''/status/live'', R_status_live)]"

definition ui_provision ::
  "'b web_site \<Rightarrow> (env \<Rightarrow> 's \<Rightarrow> (string + string) \<times> 's) \<Rightarrow> env \<Rightarrow> 's \<Rightarrow> reply \<times> 's" where
  "ui_provision ws provision ev s =
     (case provision ev s of
        (Inl e, s') \<Rightarrow> (Replied (WriteHeader 500 # render_page ws (websiteError e)), s')
      | (Inr apiKey, s') \<Rightarrow> (Replied (render_page ws (websiteKey apiKey)), s'))"

definition run_route ::
  "'b web_site \<Rightarrow> (env \<Rightarrow> 's \<Rightarrow> (string + string) \<times> 's) \<Rightarrow> (unit \<Rightarrow> status_view) \<Rightarrow> env \<Rightarrow> web_route \<Rightarrow>
   http_request \<Rightarrow> 's \<Rightarrow> reply \<times> 's" where
  "run_route ws provision status ev rt rq s =
     (case rt of
        R_static \<Rightarrow> (ws_file ws (rq_Path rq) rq, s)
      | R_index \<Rightarrow> (Replied (render_page ws (websiteIndex (ws_endpoints ws))), s)
      | R_robot \<Rightarrow> (ws_file ws ''robot.txt'' rq, s)
      | R_provision \<Rightarrow> ui_provision ws provision ev s
      | R_docs \<Rightarrow> (Replied (render_page ws (docsPage (ws_endpoints ws))), s)
      | R_status \<Rightarrow> (Replied (render_page ws (statusPage (status ()))), s)
      | R_status_live \<Rightarrow> (Replied (render_page ws (statusBody (status ()))), s))"
text \<open>gin picks the registration that serves a request, or answers itself.\<close>

type_synonym router = "(string \<times> string \<times> web_route) list \<Rightarrow> http_request \<Rightarrow> web_route option"

definition NewHandler ::
  "router \<Rightarrow> (http_request \<Rightarrow> reply) \<Rightarrow> 'b web_site \<Rightarrow> (env \<Rightarrow> 's \<Rightarrow> (string + string) \<times> 's) \<Rightarrow>
   (unit \<Rightarrow> status_view) \<Rightarrow> env \<Rightarrow> http_request \<Rightarrow> 's \<Rightarrow> reply \<times> 's" where
  "NewHandler gin no_route ws provision status ev rq s =
     (case gin web_routes rq of
        None \<Rightarrow> (no_route rq, s)
      | Some rt \<Rightarrow> run_route ws provision status ev rt rq s)"

text \<open>A registered path without wildcards serves exactly the requests of its method and path.\<close>

definition gin_ok :: "router \<Rightarrow> bool" where
  "gin_ok gin \<longleftrightarrow>
     (\<forall>routes rq rt. (rq_Method rq, rq_Path rq, rt) \<in> set routes \<longrightarrow>
        distinct (map (\<lambda>(m, p, _). (m, p)) routes) \<longrightarrow>
        CHR ''*'' \<notin> set (rq_Path rq) \<longrightarrow> CHR '':'' \<notin> set (rq_Path rq) \<longrightarrow> gin routes rq = Some rt)"

section \<open>The second server of main\<close>

definition site_mux ::
  "(http_request \<Rightarrow> 's \<Rightarrow> reply \<times> 's) \<Rightarrow> (http_request \<Rightarrow> 's \<Rightarrow> reply \<times> 's) \<Rightarrow> http_request \<Rightarrow> 's \<Rightarrow>
   reply \<times> 's" where
  "site_mux admin web rq s =
     (let p = (if rq_Method rq = ''CONNECT'' then rq_EscapedPath rq else cleanPath (rq_EscapedPath rq));
          segs = path_segments p in
      if segs = [''admin''] then (Redirected ''/admin/'', s)
      else if p \<noteq> rq_EscapedPath rq then (Redirected p, s)
      else if hd segs = ''admin'' then admin rq s
      else web rq s)"

definition manager_provision :: "env \<Rightarrow> ('h, 'w) srv_state \<Rightarrow> (string + string) \<times> ('h, 'w) srv_state" where
  "manager_provision ev = (\<lambda>(w, man). RequestProvision ev w man)"

text \<open>Both servers, on the manager that \<open>main\<close> started.\<close>

definition site_server ::
  "router \<Rightarrow> (http_request \<Rightarrow> reply) \<Rightarrow> 'b web_site \<Rightarrow> override_reader \<Rightarrow> disk \<Rightarrow> string \<Rightarrow> bool \<Rightarrow> sampler \<Rightarrow>
   env \<Rightarrow> http_request \<Rightarrow> ('h, 'w) srv_state \<Rightarrow> reply \<times> ('h, 'w) srv_state \<times> (string \<times> int) list" where
  "site_server gin no_route ws decode dk adminKey verbose sm ev =
     withLogging
       (WithCORS
         (site_mux (NewAdminHandler decode dk ev adminKey)
            (NewHandler gin no_route ws manager_provision (\<lambda>_. Status sm) ev)))
       verbose"

definition api_server ::
  "('h, 'w) fredb_api \<Rightarrow> gotime \<Rightarrow> gotime \<Rightarrow> gotime \<Rightarrow> bool \<Rightarrow> env \<Rightarrow> http_request \<Rightarrow>
   ('h, 'w) srv_state \<times> sampler \<Rightarrow>
   (reply \<times> (('h, 'w) srv_state \<times> sampler) \<times> (string \<times> int) list) option" where
  "api_server api t0 t1 now verbose ev rq s =
     (case Measure (NewPublicHandler api ev) t0 t1 now rq s of
        None \<Rightarrow> None
      | Some (r, s') \<Rightarrow> Some (withLogging (\<lambda>rq s. (r, s')) verbose rq s))"
section \<open>The interface the pages rely on\<close>

locale provisioner =
  fixes provision :: "env \<Rightarrow> 's \<Rightarrow> (string + string) \<times> 's"
    and tenants :: "'s \<Rightarrow> string set"
    and ready :: "env \<Rightarrow> 's \<Rightarrow> bool"
    and good :: "'s \<Rightarrow> bool"
  assumes provision_new: "ready ev s \<Longrightarrow> good s \<Longrightarrow> provision ev s = (Inr k, s') \<Longrightarrow>
      k \<notin> tenants s \<and> tenants s' = insert k (tenants s) \<and> good s'"
    and provision_none: "ready ev s \<Longrightarrow> good s \<Longrightarrow> provision ev s = (Inl e, s') \<Longrightarrow>
      tenants s' = tenants s \<and> good s'"
begin

text \<open>The page shows a key exactly when it has created the tenant of that key.\<close>

lemma ui_provision_spec:
  assumes "ready ev s" "good s" "ui_provision ws provision ev s = (r, s')"
  shows "good s' \<and>
    ((\<exists>k. k \<notin> tenants s \<and> tenants s' = insert k (tenants s) \<and> r = Replied (render_page ws (websiteKey k))) \<or>
     (\<exists>e. tenants s' = tenants s \<and> r = Replied (WriteHeader 500 # render_page ws (websiteError e))))"
proof (cases "provision ev s")
  case (Pair x s1)
  show ?thesis
  proof (cases x)
    case (Inl e)
    with Pair assms(3) have "r = Replied (WriteHeader 500 # render_page ws (websiteError e))" "s1 = s'"
      by (simp_all add: ui_provision_def)
    with provision_none [OF assms(1,2), of e s'] Pair Inl show ?thesis by blast
  next
    case (Inr k)
    with Pair assms(3) have "r = Replied (render_page ws (websiteKey k))" "s1 = s'"
      by (simp_all add: ui_provision_def)
    with provision_new [OF assms(1,2), of k s'] Pair Inr show ?thesis by blast
  qed
qed

end

definition server_good :: "('h, 'w) eng_at \<Rightarrow> 'w eng_dat \<Rightarrow> ('h, 'w) srv_state \<Rightarrow> bool" where
  "server_good srv dat s \<longleftrightarrow> man_inv srv dat (fst s) (snd s)"

definition server_tenants :: "'w eng_dat \<Rightarrow> ('h, 'w) srv_state \<Rightarrow> string set" where
  "server_tenants dat s = dom (man_view dat (fst s) (snd s))"

interpretation man_prov: provisioner manager_provision "server_tenants dat"
  "\<lambda>ev s. provision_fresh ev (fst s) (snd s)" "server_good srv dat"
  for srv :: "('h, 'w) eng_at" and dat :: "'w eng_dat"
proof unfold_locales
  fix ev k e and s s' :: "('h, 'w) srv_state"
  obtain w man w' man' where s: "s = (w, man)" "s' = (w', man')" by (cases s; cases s')
  assume f: "provision_fresh ev (fst s) (snd s)" and g: "server_good srv dat s"
  have inv: "man_inv srv dat w man" using g by (simp add: server_good_def s)
  have rand: "rand_ok ev" using f by (simp add: provision_fresh_def)
  show "k \<notin> server_tenants dat s \<and> server_tenants dat s' = insert k (server_tenants dat s) \<and> server_good srv dat s'"
    if "manager_provision ev s = (Inr k, s')"
  proof -
    have c: "RequestProvision ev w man = (Inr k, w', man')" using that by (simp add: manager_provision_def s)
    have fresh: "fmlookup (nodes w) (tenant_dir man j) = None" if "Inr k = Inr j" for j
      using that f c by (simp add: provision_fresh_def s)
    note P = RequestProvision_inv [OF inv rand fresh c]
    from P(1) P(2) [of k] show ?thesis
      by (auto simp: server_tenants_def server_good_def s man_view_def)
  qed
  show "server_tenants dat s' = server_tenants dat s \<and> server_good srv dat s'"
    if "manager_provision ev s = (Inl e, s')"
  proof -
    have c: "RequestProvision ev w man = (Inl e, w', man')" using that by (simp add: manager_provision_def s)
    note P = RequestProvision_inv [OF inv rand _ c]
    from P(1) P(3) [of e] show ?thesis by (auto simp: server_tenants_def server_good_def s)
  qed
qed

end
