(* ===== verification/Page_Properties.thy ===== *)
theory Page_Properties
  imports Site_Laws Website
begin

text \<open>The properties of the pages: what reaches the browser, and what it makes of it.\<close>

section \<open>A runtime without failures\<close>

text \<open>The state is the buffer, if there is one, and the text sent.\<close>

definition put_text :: "string \<Rightarrow> string option \<times> string \<Rightarrow> string option \<times> (string option \<times> string)" where
  "put_text t = (\<lambda>(b, w). (None, map_option (\<lambda>b. b @ t) b, w))"

definition ex_runtime :: "(string option \<times> string) templ_runtime" where
  "ex_runtime =
     \<lparr>tr_start = (None, ''''), tr_sent = snd, ctx_Err = (\<lambda>s. None),
      GetBuffer = (\<lambda>(b, w). case b of Some t \<Rightarrow> (True, b, w) | None \<Rightarrow> (False, Some '''', w)),
      ReleaseBuffer = (\<lambda>(b, w). (None, None, case b of Some t \<Rightarrow> w @ t | None \<Rightarrow> w)),
      WriteString = (\<lambda>i. put_text), Buffer_WriteString = put_text, JoinStringErrs = (\<lambda>v. (v, None)),
      EscapeString = html_EscapeString, ResolveAttributeValue = (\<lambda>v. (html_EscapeString v, None)),
      CSSClasses_String = concat, RenderCSSItems = (\<lambda>cs. put_text ''''), Raw_Render = put_text,
      templ_Error = (\<lambda>e file line col. e)\<rparr>"

lemma ex_runtime_ok:
  "templ_ok ex_runtime (\<lambda>(b, w). b \<noteq> None) (\<lambda>(b, w). w @ (case b of Some t \<Rightarrow> t | None \<Rightarrow> ''''))"
  by (auto simp: templ_ok_def ex_runtime_def appends_def put_text_def split: option.splits)

section \<open>Rendering\<close>

text \<open>
  C38. A page is sent completely, or cut and reported. Whatever fails while a component is
  rendered into the response (a write, after any part of its text, a nested component, the
  context of the request, the last flush), what the client gets is the beginning of the page;
  it is all of it when no error comes back, and nothing when the request was cancelled before.
\<close>

theorem page_complete_or_cut:
  assumes "templ_ok rt buffered sofar" and "Render rt ps (tr_start rt) = (err, s')"
  shows "prefix (tr_sent rt s') (page_text ps) \<and> (err = None \<longrightarrow> tr_sent rt s' = page_text ps) \<and>
    (ctx_Err rt (tr_start rt) \<noteq> None \<longrightarrow> tr_sent rt s' = '''' \<and> err \<noteq> None)"
proof (intro conjI impI)
  show "prefix (tr_sent rt s') (page_text ps)" by (rule Render_sends(1) [OF assms])
  show "tr_sent rt s' = page_text ps" if "err = None" by (rule Render_sends(2) [OF assms that])
  assume c: "ctx_Err rt (tr_start rt) \<noteq> None"
  with Render_sends(3) [OF assms] show "tr_sent rt s' = ''''" by blast
  from c obtain e where "ctx_Err rt (tr_start rt) = Some e" by blast
  with assms(2) have "err = Some e" by (simp add: Render_def GeneratedTemplate_def)
  then show "err \<noteq> None" by simp
qed

lemma page_complete_or_cut_witness:
  "\<exists>s'. Render ex_runtime (websiteError ''no <space>'') (None, '''') = (None, s') \<and>
     snd s' = page_text (websiteError ''no <space>'')"
proof -
  have "tr_start ex_runtime = (None, '''')" "tr_sent ex_runtime = snd" by (simp_all add: ex_runtime_def)
  moreover have "\<exists>s'. Render ex_runtime (websiteError ''no <space>'') (None, '''') = (None, s')"
    by (simp add: Render_def GeneratedTemplate_def websiteError_def ex_runtime_def put_text_def write_value_def)
  then obtain s' where "Render ex_runtime (websiteError ''no <space>'') (None, '''') = (None, s')" ..
  ultimately show ?thesis
    using page_complete_or_cut [OF ex_runtime_ok, of "websiteError ''no <space>''" None s'] by auto
qed

section \<open>Markup\<close>

lemma endpoints_documented: "\<forall>e \<in> set endpoints. documented_path (ep_Path e)"
  by (simp add: endpoints_def new_endpoint_def documented_path_def)

lemma init_endpoints_documented:
  "init_endpoints fs es = Some es' \<Longrightarrow> \<forall>e \<in> set es. documented_path (ep_Path e) \<Longrightarrow>
    \<forall>e \<in> set es'. documented_path (ep_Path e)"
proof (induction es arbitrary: es')
  case (Cons e es)
  then show ?case by (auto simp: load_examples_def split: option.splits)
qed simp

text \<open>
  C39. No text breaks the markup. With the documented endpoints and whatever examples are
  embedded, every page of the site closes the elements it opens, in order, and ends outside a
  tag: the start page, the documentation, the status page and its live part for any view,
  and the two answers to the button. The tags of the status depend on nothing in the view but
  the number of recent requests.
\<close>

theorem pages_well_nested:
  assumes "init_endpoints fs endpoints = Some es"
  shows "well_nested (page_text (websiteIndex es)) \<and> well_nested (page_text (docsPage es)) \<and>
    well_nested (page_text (statusPage v)) \<and> well_nested (page_text (websiteKey k)) \<and>
    well_nested (page_text (websiteError m)) \<and>
    page_tags (page_text (statusBody v)) = Some (rev (status_tags (length (sv_RecentOps v))))"
proof -
  have es: "\<forall>e \<in> set es. documented_path (ep_Path e)"
    by (rule init_endpoints_documented [OF assms endpoints_documented])
  obtain ts us where "adds (websiteIndex es) ts" "adds (docsPage es) us"
    using websiteIndex_adds [OF es] docsPage_adds [OF es] by blast
  then show ?thesis
    by (intro conjI adds_well_nested(1) adds_well_nested(2)) (assumption |
      rule statusPage_adds websiteKey_adds websiteError_adds statusBody_adds)+
qed

lemma pages_well_nested_witness:
  "\<exists>es. init_endpoints (\<lambda>f. Some ''<b>&'') endpoints = Some es \<and> ep_Go (hd es) = ''<b>&'' \<and>
     well_nested (page_text (docsPage es))"
proof -
  obtain es where es: "init_endpoints (\<lambda>f. Some ''<b>&'') endpoints = Some es" "ep_Go (hd es) = ''<b>&''"
    by (simp add: endpoints_def new_endpoint_def load_examples_def loadExample_def trim_right_newlines_def)
  from pages_well_nested [OF es(1)] es show ?thesis by blast
qed

text \<open>What a browser shows of a page: the characters outside tags, with the entities read back.\<close>

fun html_chars :: "html_mode \<Rightarrow> string \<Rightarrow> string" where
  "html_chars m [] = ''''"
| "html_chars Content (c # cs) = (if c = CHR ''<'' then html_chars (In_tag '''') cs else c # html_chars Content cs)"
| "html_chars (In_tag acc) (c # cs) =
     html_chars (if c = CHR ''>'' then Content else if c = CHR 0x22 then Quoted acc else In_tag acc) cs"
| "html_chars (Quoted acc) (c # cs) = html_chars (if c = CHR 0x22 then In_tag acc else Quoted acc) cs"

definition entity :: "string \<Rightarrow> (char \<times> string) option" where
  "entity s =
     (if has_prefix s ''&amp;'' then Some (CHR ''&'', drop 5 s)
      else if has_prefix s ''&#39;'' then Some (CHR 0x27, drop 5 s)
      else if has_prefix s ''&lt;'' then Some (CHR ''<'', drop 4 s)
      else if has_prefix s ''&gt;'' then Some (CHR ''>'', drop 4 s)
      else if has_prefix s ''&#34;'' then Some (CHR 0x22, drop 5 s) else None)"

lemma has_prefix_nil [simp]: "has_prefix [] p \<longleftrightarrow> p = []"
  by (cases p) auto

function html_UnescapeString :: "string \<Rightarrow> string" where
  "html_UnescapeString s =
     (case entity s of
        Some (c, rest) \<Rightarrow> c # html_UnescapeString rest
      | None \<Rightarrow> (case s of [] \<Rightarrow> '''' | c # cs \<Rightarrow> c # html_UnescapeString cs))"
  by pat_completeness auto
termination
proof (relation "measure length")
  fix s x c rest
  assume "entity s = Some x" "(c, rest) = x"
  then show "(rest, s) \<in> measure length"
    by (cases s) (auto simp: entity_def split: if_splits)
qed auto

declare html_UnescapeString.simps [simp del]

definition shown_text :: "string \<Rightarrow> string" where
  "shown_text t = html_UnescapeString (html_chars Content t)"

lemma html_chars_escaped: "html_chars Content (html_EscapeString s @ t) = html_EscapeString s @ html_chars Content t"
proof -
  have "html_chars Content (u @ t) = u @ html_chars Content t" if "CHR ''<'' \<notin> set u" for u
    using that by (induction u) auto
  then show ?thesis using escaped_set by blast
qed

lemma html_Unescape_escaped: "html_UnescapeString (html_EscapeString s @ t) = s @ html_UnescapeString t"
proof (induction s)
  case Nil
  then show ?case by (simp add: html_EscapeString_def)
next
  case (Cons c s)
  then show ?case
    by (subst html_UnescapeString.simps)
      (auto simp: html_EscapeString_def escape_char_def entity_def split: list.splits)
qed

text \<open>
  C40. What the button answers is shown as it is, and is only text. The page of an error shows
  exactly its message, that of a key shows exactly the key between its labels, and the tags of
  both pages are the same for every message and key, so that neither can bring markup of its own.
\<close>

theorem answers_shown_verbatim:
  "shown_text (page_text (websiteError m)) = m \<and>
   shown_text (page_text (websiteKey k)) = ''API_KEY:'' @ k @ '' Click to copy'' \<and>
   page_tags (page_text (websiteError m)) = Some [''div'', ''span'', ''/span'', ''/div''] \<and>
   page_tags (page_text (websiteKey k)) =
     Some [''div'', ''span'', ''/span'', ''span'', ''/span'', ''span'', ''/span'', ''/div'']"
proof (intro conjI)
  have "html_chars Content (page_text (websiteError m)) = html_EscapeString m @ ''''"
    by (simp add: websiteError_def html_chars_escaped)
  then show "shown_text (page_text (websiteError m)) = m"
    by (simp only: shown_text_def html_Unescape_escaped) (simp add: html_UnescapeString.simps entity_def)
  have "html_chars Content (page_text (websiteKey k)) = ''API_KEY:'' @ html_EscapeString k @ '' Click to copy''"
    by (simp add: websiteKey_def html_chars_escaped)
  moreover have "html_UnescapeString (''API_KEY:'' @ t) = ''API_KEY:'' @ html_UnescapeString t" for t
    by (simp add: html_UnescapeString.simps entity_def)
  moreover have "html_UnescapeString '' Click to copy'' = '' Click to copy''"
    by (simp add: html_UnescapeString.simps entity_def)
  ultimately show "shown_text (page_text (websiteKey k)) = ''API_KEY:'' @ k @ '' Click to copy''"
    by (simp only: shown_text_def html_Unescape_escaped)
  show "page_tags (page_text (websiteError m)) = Some [''div'', ''span'', ''/span'', ''/div'']"
    using adds_well_nested(2) [OF websiteError_adds] by simp
  show "page_tags (page_text (websiteKey k)) =
      Some [''div'', ''span'', ''/span'', ''span'', ''/span'', ''span'', ''/span'', ''/div'']"
    using adds_well_nested(2) [OF websiteKey_adds] by simp
qed

end
