(* ===== verification/Admin_Properties.thy ===== *)
theory Admin_Properties
  imports Admin_Api Public_Properties
begin

text \<open>The properties of the administration interface, each with a witness.\<close>

section \<open>Concrete requests\<close>

definition ex_override_path :: string where
  "ex_override_path = ''/admin/'' @ ex_key @ ''/rate-limit''"

definition ex_override_request :: "string \<Rightarrow> http_request" where
  "ex_override_request secret =
     \<lparr>rq_Method = ''POST'', rq_EscapedPath = ex_override_path, rq_Path = ex_override_path,
      rq_Header = (\<lambda>h. if h = ''X-Admin-Key'' then secret else ''''), rq_Query = (\<lambda>q. ''''),
      rq_Body = '''', rq_BodyFails = False\<rparr>"

definition ex_override :: rate_limit_override where
  "ex_override = \<lparr>ov_CapacityBytes = Some (Fin 5), ov_RefillBytesPerSec = None, ov_FlatOverheadBytes = Some (Fin 2),
     ov_WriteByteWeight = None, ov_ReadByteWeight = Some (Fin 0)\<rparr>"

definition ex_disk :: disk where
  "ex_disk =
     \<lparr>dk_walk = (\<lambda>p. Inr (WDir (Inl (NotExist ''gone'')) None [])),
      dk_statfs = (\<lambda>p. Inr \<lparr>sf_Blocks = 1000, sf_Bavail = 10, sf_Bsize = 4096\<rparr>)\<rparr>"

lemma ex_override_paths:
  "cleanPath ex_override_path = ex_override_path"
  "path_segments ex_override_path = [''admin'', ex_key, ''rate-limit'']"
proof -
  have s: "slash \<notin> set ex_key" "CHR ''%'' \<notin> set ex_key" "plain_name ex_key"
    by (simp_all add: ex_key_list plain_name_def)
  have sp: "split_on slash ex_override_path = ['''', ''admin'', ex_key, ''rate-limit'']"
    using split_on_append_sep [OF s(1), of "''rate-limit''"] by (simp add: ex_override_path_def)
  have "path_comps ex_override_path = [''admin'', ex_key, ''rate-limit'']"
    using clean_step_plain [OF s(3)]
    by (simp add: path_comps_def sp) (simp add: ex_override_path_def path_rooted_def clean_step_def)
  then have "path_Clean ex_override_path = ex_override_path"
    by (simp add: path_Clean_def path_render_def) (simp add: ex_override_path_def path_rooted_def)
  then show "cleanPath ex_override_path = ex_override_path"
    by (simp add: cleanPath_def Let_def) (simp add: ex_override_path_def)
  have "pct_decode ex_key = Some ex_key" by (simp add: ex_key_list)
  then show "path_segments ex_override_path = [''admin'', ex_key, ''rate-limit'']"
    using sp by (simp add: path_segments_def ex_override_path_def pathUnescape_def)
qed

section \<open>Properties\<close>

text \<open>The answer to a request without the key, from its method and its path alone.\<close>

definition admin_refusal :: "string \<Rightarrow> string \<Rightarrow> reply" where
  "admin_refusal m path =
     (let p = (if m = ''CONNECT'' then path else cleanPath path);
          no = writeJSON 401 (json_error ''missing or invalid X-Admin-Key'') in
      if p \<noteq> path then Redirected p
      else case path_segments p of
        [a, b] \<Rightarrow>
          if a = ''admin'' \<and> b = ''storage''
          then (if m = ''GET'' \<or> m = ''HEAD'' then no else method_not_allowed ''GET, HEAD'')
          else Replied http_NotFound
      | [a, key, c] \<Rightarrow>
          if a = ''admin'' \<and> key \<noteq> '''' \<and> c = ''rate-limit''
          then (if m = ''POST'' then no else method_not_allowed ''POST'')
          else Replied http_NotFound
      | _ \<Rightarrow> Replied http_NotFound)"

lemma admin_refusal_status:
  "(\<exists>p. admin_refusal m path = Redirected p) \<or> reply_status (admin_refusal m path) \<in> {401, 404, 405}"
  by (simp add: admin_refusal_def Let_def split: list.splits)

lemma admin_refused:
  assumes "adminKey = '''' \<or> rq_Header rq ''X-Admin-Key'' \<noteq> adminKey"
  shows "NewAdminHandler decode dk ev adminKey rq s = (admin_refusal (rq_Method rq) (rq_EscapedPath rq), s)"
proof -
  define p where "p = (if rq_Method rq = ''CONNECT'' then rq_EscapedPath rq else cleanPath (rq_EscapedPath rq))"
  have k: "requireAdminKey adminKey h rq s = (writeJSON 401 (json_error ''missing or invalid X-Admin-Key''), s)" for h
    using assms by (auto simp: requireAdminKey_def)
  show ?thesis
  proof (cases "p = rq_EscapedPath rq")
    case True
    let ?ss = "path_segments (rq_EscapedPath rq)"
    show ?thesis
      unfolding NewAdminHandler_def admin_refusal_def Let_def p_def [symmetric] k True
      by (cases ?ss; cases "tl ?ss"; cases "tl (tl ?ss)"; cases "tl (tl (tl ?ss))"; simp)
  next
    case False
    then show ?thesis
      unfolding NewAdminHandler_def admin_refusal_def Let_def p_def [symmetric] by simp
  qed
qed

text \<open>
  C33. The administration interface gives nothing away. Take two requests with the same method
  and path to two servers, neither of which carries the key configured there (or no key is
  configured): their other headers, queries and bodies, the keys, the states of the servers and
  of their disks may all differ, and both get the same answer, a redirect, 401, 404 or 405, and
  change nothing.
\<close>

theorem admin_needs_key:
  assumes "adminKey = '''' \<or> rq_Header rq ''X-Admin-Key'' \<noteq> adminKey"
    and "adminKey' = '''' \<or> rq_Header rq' ''X-Admin-Key'' \<noteq> adminKey'"
    and "rq_Method rq' = rq_Method rq" "rq_EscapedPath rq' = rq_EscapedPath rq"
  shows "\<exists>r. ((\<exists>p. r = Redirected p) \<or> reply_status r \<in> {401, 404, 405}) \<and>
    NewAdminHandler decode dk ev adminKey rq s = (r, s) \<and>
    NewAdminHandler decode' dk' ev' adminKey' rq' s' = (r, s')"
  using admin_refusal_status [of "rq_Method rq" "rq_EscapedPath rq"]
  by (intro exI [of _ "admin_refusal (rq_Method rq) (rq_EscapedPath rq)"])
     (simp add: admin_refused [OF assms(1)] admin_refused [OF assms(2)] assms(3,4))

lemma admin_needs_key_witness:
  "\<exists>r. NewAdminHandler (\<lambda>b f. Inr ex_override) ex_disk ex_env ''secret'' (ex_override_request ''guess'')
       (ex_start, ex_man) = (r, ex_start, ex_man) \<and>
     NewAdminHandler (\<lambda>b f. Inl ''bad'') ex_disk ex_env ''other'' (ex_override_request ''secret'')
       (ex_registry, ex_man1) = (r, ex_registry, ex_man1) \<and> reply_status r = 401"
proof -
  let ?g = "ex_override_request ''guess''" and ?s = "ex_override_request ''secret''"
  have h: "''secret'' = '''' \<or> rq_Header ?g ''X-Admin-Key'' \<noteq> ''secret''"
    "''other'' = '''' \<or> rq_Header ?s ''X-Admin-Key'' \<noteq> ''other''"
    "rq_Method ?s = rq_Method ?g" "rq_EscapedPath ?s = rq_EscapedPath ?g"
    by (simp_all add: ex_override_request_def)
  obtain r where
    g: "NewAdminHandler (\<lambda>b f. Inr ex_override) ex_disk ex_env ''secret'' ?g (ex_start, ex_man) = (r, ex_start, ex_man)"
    and s: "NewAdminHandler (\<lambda>b f. Inl ''bad'') ex_disk ex_env ''other'' ?s (ex_registry, ex_man1) =
      (r, ex_registry, ex_man1)"
    using admin_needs_key [OF h, where decode = "\<lambda>b f. Inr ex_override" and decode' = "\<lambda>b f. Inl ''bad''" and
        dk = ex_disk and dk' = ex_disk and ev = ex_env and ev' = ex_env and s = "(ex_start, ex_man)" and
        s' = "(ex_registry, ex_man1)"] by blast
  moreover have "reply_status r = 401"
    using g ex_override_paths
    by (simp add: NewAdminHandler_def ex_override_request_def requireAdminKey_def ex_key_list) auto
  ultimately show ?thesis by blast
qed
text \<open>
  C34. An override takes effect at once and completely. With the right key, a known tenant and a
  body that parses, each of the tenant's five limits becomes the value of the override or else
  the default of the server (not the tenant's earlier value), and its bucket a full one of the
  new capacity and refill rate; the answer is 204. Nothing else of the tenant changes, its data,
  all other tenants and the files stay as they are, and the invariant of the table is kept when
  the new limits are sane: finite and not negative, with a refill rate of at most \<open>2^900\<close>.
\<close>

theorem override_takes_effect:
  assumes "adminKey \<noteq> ''''" "rq_Header rq ''X-Admin-Key'' = adminKey" "rq_Method rq = ''POST''"
    and "cleanPath (rq_EscapedPath rq) = rq_EscapedPath rq"
    and "path_segments (rq_EscapedPath rq) = [''admin'', k, ''rate-limit'']" "k \<noteq> ''''"
    and "decode (rq_Body rq) (rq_BodyFails rq) = Inr ov" "fmlookup (man_tenants man) k = Some db"
    and "man_inv srv dat w man"
  shows "\<exists>cfg db'. NewAdminHandler decode dk ev adminKey rq (w, man) = (no_content, w, set_tenant k db' man) \<and>
    db' = db\<lparr>db_rateLimit := cfg, db_bucket := Some
      \<lparr>tb_tokens = CapacityBytes cfg, tb_capacity = CapacityBytes cfg,
       tb_refillPerSec = RefillBytesPerSec cfg, tb_last = clk ev 0\<rparr>\<rparr> \<and>
    CapacityBytes cfg =
      (case ov_CapacityBytes ov of Some v \<Rightarrow> v | None \<Rightarrow> CapacityBytes (man_rateLimit man)) \<and>
    RefillBytesPerSec cfg =
      (case ov_RefillBytesPerSec ov of Some v \<Rightarrow> v | None \<Rightarrow> RefillBytesPerSec (man_rateLimit man)) \<and>
    FlatOverheadBytes cfg =
      (case ov_FlatOverheadBytes ov of Some v \<Rightarrow> v | None \<Rightarrow> FlatOverheadBytes (man_rateLimit man)) \<and>
    WriteByteWeight cfg =
      (case ov_WriteByteWeight ov of Some v \<Rightarrow> v | None \<Rightarrow> WriteByteWeight (man_rateLimit man)) \<and>
    ReadByteWeight cfg =
      (case ov_ReadByteWeight ov of Some v \<Rightarrow> v | None \<Rightarrow> ReadByteWeight (man_rateLimit man)) \<and>
    man_view dat w (set_tenant k db' man) = man_view dat w man \<and>
    (sane_config cfg \<longrightarrow> man_inv srv dat w (set_tenant k db' man))"
proof -
  let ?cfg = "applyRateLimitOverride (man_rateLimit man) ov"
  let ?db = "SetRateLimitConfig (clk ev 0) ?cfg db"
  have c: "NewAdminHandler decode dk ev adminKey rq (w, man) = (no_content, w, set_tenant k ?db man)"
    using assms(1-8)
    by (simp add: NewAdminHandler_def requireAdminKey_def rate_limit_handler_def LookupProvisioned_def Let_def)
  have i: "sane_config ?cfg \<longrightarrow> man_inv srv dat w (set_tenant k ?db man)"
    by (intro impI man_inv_set assms(9) SetRateLimitConfig_ok man_invD [OF assms(9,8)])
  have v: "man_view dat w (set_tenant k ?db man) = man_view dat w man"
    using assms(8) by (auto simp: man_view_def fun_eq_iff)
  have "?db = db\<lparr>db_rateLimit := ?cfg, db_bucket := Some
      \<lparr>tb_tokens = CapacityBytes ?cfg, tb_capacity = CapacityBytes ?cfg,
       tb_refillPerSec = RefillBytesPerSec ?cfg, tb_last = clk ev 0\<rparr>\<rparr>"
    by (simp add: SetRateLimitConfig_def NewTokenBucket_def)
  with c i v show ?thesis
    by (intro exI [of _ ?cfg] exI [of _ ?db] conjI) (assumption | rule applyRateLimitOverride_fields)+
qed

lemma override_takes_effect_witness:
  "\<exists>db'. NewAdminHandler (\<lambda>b f. Inr ex_override) ex_disk ex_env ''secret'' (ex_override_request ''secret'')
       (ex_registry, ex_man1) = (no_content, ex_registry, set_tenant ex_key db' ex_man1) \<and>
     db_rateLimit db' = \<lparr>CapacityBytes = Fin 5, RefillBytesPerSec = Fin 8, FlatOverheadBytes = Fin 2,
       WriteByteWeight = Fin 1, ReadByteWeight = Fin 0\<rparr> \<and>
     man_inv ref_srv ref_dat ex_registry (set_tenant ex_key db' ex_man1)"
proof -
  let ?rq = "ex_override_request ''secret''"
  have rq: "rq_Header ?rq ''X-Admin-Key'' = ''secret''" "rq_Method ?rq = ''POST''"
    "cleanPath (rq_EscapedPath ?rq) = rq_EscapedPath ?rq"
    "path_segments (rq_EscapedPath ?rq) = [''admin'', ex_key, ''rate-limit'']" "ex_key \<noteq> ''''"
    using ex_override_paths by (simp_all add: ex_override_request_def ex_key_list)
  have rl: "man_rateLimit ex_man1 = ex_config"
    by (simp add: ex_man1_def ex_man_def NewDatabaseManager_def)
  obtain cfg db' where
    c: "NewAdminHandler (\<lambda>b f. Inr ex_override) ex_disk ex_env ''secret'' ?rq (ex_registry, ex_man1) =
      (no_content, ex_registry, set_tenant ex_key db' ex_man1)" and
    f: "db_rateLimit db' = cfg" "CapacityBytes cfg = Fin 5" "RefillBytesPerSec cfg = Fin 8"
      "FlatOverheadBytes cfg = Fin 2" "WriteByteWeight cfg = Fin 1" "ReadByteWeight cfg = Fin 0" and
    i: "sane_config cfg \<longrightarrow> man_inv ref_srv ref_dat ex_registry (set_tenant ex_key db' ex_man1)"
    using override_takes_effect [where adminKey = "''secret''" and decode = "\<lambda>b f. Inr ex_override" and
        dk = ex_disk and ev = ex_env, OF _ rq _ ex_man1_fields(3) ex_man1_inv]
    unfolding rl by (auto simp: ex_override_def ex_config_def)
  moreover have "cfg = \<lparr>CapacityBytes = Fin 5, RefillBytesPerSec = Fin 8, FlatOverheadBytes = Fin 2,
      WriteByteWeight = Fin 1, ReadByteWeight = Fin 0\<rparr>" using f by (cases cfg) simp
  moreover from this have "sane_config cfg"
    using ex_config_sane by (simp add: sane_config_def ex_config_def fin_nonneg_def)
  ultimately show ?thesis by auto
qed

end
