(* ===== verification/Site_Properties.thy ===== *)
theory Site_Properties
  imports Page_Properties Admin_Properties
begin

text \<open>The properties of the settings, of the start of the server and of its second server.\<close>

section \<open>Numbers of the environment\<close>

definition all_digits :: "string \<Rightarrow> bool" where
  "all_digits s \<longleftrightarrow> (\<forall>c \<in> set s. digit_val c \<noteq> None)"

fun decimal_value :: "nat \<Rightarrow> string \<Rightarrow> nat" where
  "decimal_value n [] = n"
| "decimal_value n (c # cs) = decimal_value (n * 10 + (case digit_val c of Some d \<Rightarrow> d | None \<Rightarrow> 0)) cs"

lemma decimal_value_ge: "n \<le> decimal_value n s"
  by (induction n s rule: decimal_value.induct) (auto intro: order_trans [rotated])

lemma parse_digits_value:
  "n < 2 ^ 64 \<Longrightarrow> parse_digits n s =
     (if all_digits s \<and> decimal_value n s < 2 ^ 64 then Some (decimal_value n s) else None)"
proof (induction n s rule: parse_digits.induct)
  case (1 n)
  then show ?case by (simp add: all_digits_def)
next
  case (2 n c cs)
  show ?case
  proof (cases "digit_val c")
    case None
    then show ?thesis by (simp add: all_digits_def)
  next
    case (Some d)
    have v: "n * 10 + d \<le> decimal_value (n * 10 + d) cs" by (rule decimal_value_ge)
    consider (cut) "2 ^ 64 div 10 + 1 \<le> n" | (big) "\<not> 2 ^ 64 div 10 + 1 \<le> n" "2 ^ 64 \<le> n * 10 + d"
      | (ok) "\<not> 2 ^ 64 div 10 + 1 \<le> n" "\<not> 2 ^ 64 \<le> n * 10 + d" by blast
    then show ?thesis
    proof cases
      case cut
      then have "2 ^ 64 \<le> n * 10 + d" by simp
      with v have "\<not> decimal_value (n * 10 + d) cs < 2 ^ 64" by linarith
      with Some cut show ?thesis by simp
    next
      case big
      with v have "\<not> decimal_value (n * 10 + d) cs < 2 ^ 64" by linarith
      with Some big show ?thesis by simp
    next
      case ok
      with "2.IH" [OF Some ok] Some show ?thesis by (simp add: all_digits_def)
    qed
  qed
qed

text \<open>
  A number of the environment is read as its decimal value, and only then: a variable that is
  missing, empty, not all digits, or of a value from \<open>2^64\<close> on gives the fallback; the digit by
  digit overflow checks of the parser never reject a value that fits or accept one that does not.
\<close>

lemma env_number_is_decimal_value:
  "envOrUint64 getenv key fallback =
     (if getenv key \<noteq> '''' \<and> all_digits (getenv key) \<and> decimal_value 0 (getenv key) < 2 ^ 64
      then of_nat (decimal_value 0 (getenv key)) else fallback)"
  by (simp add: envOrUint64_def Let_def ParseUint_def parse_digits_value)

section \<open>The idle limit of the reaper\<close>

lemma wrap64_mod: "wrap64 (wrap64 a * b) = wrap64 (a * b)"
proof -
  define q where "q = (a + 2 ^ 63) div 2 ^ 64"
  have w: "wrap64 a = a - 2 ^ 64 * q" by (simp add: wrap64_def q_def minus_mult_div_eq_mod [symmetric])
  have "wrap64 a * b + 2 ^ 63 = (a * b + 2 ^ 63) + (- q * b) * 2 ^ 64"
    unfolding w by (simp add: algebra_simps)
  then have "(wrap64 a * b + 2 ^ 63) mod 2 ^ 64 = (a * b + 2 ^ 63) mod 2 ^ 64" by (simp only: mod_mult_self1)
  then show ?thesis by (simp only: wrap64_def)
qed

lemma idle_limit_wrap:
  "idle_limit st = wrap64 (int (unat (st_inactivityDays st)) * 86400000000000)"
  by (simp add: idle_limit_def Duration_def wrap64_mod duration_units mult.assoc)

lemma wrap64_days: "wrap64 (int d * 86400000000000) = int d * 86400000000000 \<longleftrightarrow> d \<le> 106751"
proof
  assume e: "wrap64 (int d * 86400000000000) = int d * 86400000000000"
  have "wrap64 (int d * 86400000000000) < 2 ^ 63" by (rule wrap64_bounds(2))
  then show "d \<le> 106751" unfolding e by simp
next
  assume "d \<le> 106751"
  then show "wrap64 (int d * 86400000000000) = int d * 86400000000000"
    by (intro wrap64_id) simp_all
qed

text \<open>
  C35. The idle limit of the reaper is the configured number of days exactly up to 106751 of
  them. From 106752 on the product of 64-bit nanoseconds wraps around, and for 106752 itself it
  is negative: the reaper then deprovisions every tenant it looks at, unless the tenant's last
  activity lies after the reading of the clock at the start of the pass.
\<close>

theorem idle_limit_exact_iff:
  "(idle_limit st = int (unat (st_inactivityDays st)) * (24 * Hour) \<longleftrightarrow> unat (st_inactivityDays st) \<le> 106751) \<and>
   (unat (st_inactivityDays st) = 106752 \<longrightarrow> idle_limit st < 0 \<and>
     (\<forall>(api :: ('h, 'w) fredb_api) now ev k db w man. 0 \<le> time_Sub now (LastActive db) \<longrightarrow>
        reap_one api now (idle_limit st) ev k db w man =
          (case Deprovision api ev k (snd (PersistActivity ev w db)) man of
             (r, w', man') \<Rightarrow> (r = None, w', man'))))"
proof (intro conjI impI allI)
  have "24 * Hour = 86400000000000" by (simp add: duration_units)
  then show "idle_limit st = int (unat (st_inactivityDays st)) * (24 * Hour) \<longleftrightarrow>
      unat (st_inactivityDays st) \<le> 106751"
    by (simp only: idle_limit_wrap wrap64_days)
  assume "unat (st_inactivityDays st) = 106752"
  then show neg: "idle_limit st < 0"
    by (simp only: idle_limit_wrap) (simp add: wrap64_def)
  fix api :: "('h, 'w) fredb_api" and db :: "'h database" and now ev k w man
  assume "0 \<le> time_Sub now (LastActive db)"
  with neg have "idle_limit st < time_Sub now (LastActive db)" by simp
  then show "reap_one api now (idle_limit st) ev k db w man =
      (case Deprovision api ev k (snd (PersistActivity ev w db)) man of
         (r, w', man') \<Rightarrow> (r = None, w', man'))"
    by (auto simp: reap_one_def Let_def split: option.splits prod.splits)
qed

lemma idle_limit_exact_iff_witness:
  "\<exists>st. unat (st_inactivityDays st) = 106752 \<and>
     fst (reap_one ref_api (ex_time 0) (idle_limit st) ex_env ex_key ex_tenant ex_registry ex_man1) =
       (fst (Deprovision ref_api ex_env ex_key (snd (PersistActivity ex_env ex_registry ex_tenant)) ex_man1) = None)"
proof -
  obtain st :: settings where "st_inactivityDays st = 106752"
    by (metis settings.select_convs(8))
  then have st: "unat (st_inactivityDays st) = 106752" by simp
  have t: "0 \<le> time_Sub (ex_time 0) (LastActive ex_tenant)"
    by (simp add: LastActive_def ex_tenant_def time_of_Unix_def ex_time_def time_Sub_def clamp64_def)
  note R = idle_limit_exact_iff [where 'h = string and 'w = ref_engine and st = st, THEN conjunct2,
      rule_format, OF st, THEN conjunct2, rule_format, OF t]
  from st show ?thesis by (intro exI [of _ st]) (simp add: R split: prod.splits)
qed

section \<open>The start of the server\<close>

definition new_manager :: "settings \<Rightarrow> 'h manager" where
  "new_manager st =
     NewDatabaseManager (st_dataRoot st) (int MaxValueBytes) (st_maxStorageBytes st) (st_rateLimit st)"

lemma new_manager_fields [simp]:
  "man_tenants (new_manager st) = fmempty" "man_dataRoot (new_manager st) = st_dataRoot st"
  by (simp_all add: new_manager_def NewDatabaseManager_def)











section \<open>The button of the start page\<close>

definition sends_page :: "'b web_site \<Rightarrow> component \<Rightarrow> string \<Rightarrow> bool" where
  "sends_page ws ps t \<longleftrightarrow> prefix t (page_text ps) \<and>
     (fst (Render (ws_runtime ws) ps (tr_start (ws_runtime ws))) = None \<longrightarrow> t = page_text ps)"

lemma render_page_sends:
  assumes "templ_ok (ws_runtime ws) buffered sofar"
  shows "\<exists>t. render_page ws ps = [Write t] \<and> sends_page ws ps t"
proof -
  let ?rt = "ws_runtime ws"
  obtain e s' where r: "Render ?rt ps (tr_start ?rt) = (e, s')" by fastforce
  with Render_sends(1,2) [OF assms r] show ?thesis by (simp add: render_page_def sends_page_def)
qed

lemma provision_path:
  "cleanPath ''/ui/provision'' = ''/ui/provision''" "path_segments ''/ui/provision'' = [''ui'', ''provision'']"
proof -
  show "cleanPath ''/ui/provision'' = ''/ui/provision''"
    by (simp add: cleanPath_def path_Clean_def path_rooted_def path_comps_def clean_step_def path_render_def)
  show "path_segments ''/ui/provision'' = [''ui'', ''provision'']"
    by (simp add: path_segments_def pathUnescape_def)
qed

text \<open>
  C37. The button makes a database or shows why not. A \<open>POST\<close> of \<open>/ui/provision\<close> to the second
  server goes past the administration interface and the other pages to the manager. Either one
  tenant with a fresh key is added, the answer is 200 and its page is that of this key, or
  no tenant is added and the answer is 500 with the page of the error; the page is complete
  unless its rendering fails, and the invariant of the table holds afterwards.
\<close>

theorem site_provision:
  assumes gin: "gin_ok gin" and rt: "templ_ok (ws_runtime ws) buffered sofar"
    and rq: "rq_Method rq = ''POST''" "rq_EscapedPath rq = ''/ui/provision''" "rq_Path rq = ''/ui/provision''"
    and st: "provision_fresh ev w man" "man_inv srv dat w man"
    and call: "site_server gin no_route ws decode dk adminKey verbose sm ev rq (w, man) = (r, (w', man'), lg)"
  shows "man_inv srv dat w' man' \<and>
    ((\<exists>k. man_view dat w man k = None \<and> dom (man_view dat w' man') = insert k (dom (man_view dat w man)) \<and>
        reply_status r = 200 \<and> sends_page ws (websiteKey k) (reply_body r)) \<or>
     (\<exists>e. dom (man_view dat w' man') = dom (man_view dat w man) \<and>
        reply_status r = 500 \<and> sends_page ws (websiteError e) (reply_body r)))"
proof -
  have route: "gin web_routes rq = Some R_provision"
    using gin rq(1,3) unfolding gin_ok_def by (simp add: web_routes_def)
  obtain r0 where u: "ui_provision ws manager_provision ev (w, man) = (r0, w', man')"
    and r: "r = add_calls cors_headers r0"
    using withLogging_passes [OF call [unfolded site_server_def]] rq route
    by (auto simp: WithCORS_def site_mux_def provision_path Let_def
        NewHandler_def run_route_def split: prod.splits)
  have "\<exists>t. \<forall>ps. render_page ws ps = [Write (t ps)] \<and> sends_page ws ps (t ps)"
    by (intro choice allI render_page_sends [OF rt])
  then obtain t where t: "\<And>ps. render_page ws ps = [Write (t ps)]" "\<And>ps. sends_page ws ps (t ps)" by blast
  have e500: "reply_status (Replied [WriteHeader 500, Write v]) = 500"
    "reply_body (Replied [WriteHeader 500, Write v]) = v" for v
    by (simp_all add: reply_status_def reply_body_def)
  from man_prov.ui_provision_spec [of ev "(w, man)" srv dat, OF _ _ u, unfolded server_good_def server_tenants_def t(1)] st
  have "man_inv srv dat w' man'" and
    "(\<exists>k. k \<notin> dom (man_view dat w man) \<and> dom (man_view dat w' man') = insert k (dom (man_view dat w man)) \<and>
        r0 = Replied [Write (t (websiteKey k))]) \<or>
     (\<exists>e. dom (man_view dat w' man') = dom (man_view dat w man) \<and>
        r0 = Replied [WriteHeader 500, Write (t (websiteError e))])" (is "?new \<or> ?none")
    by simp_all
  from this(2) show ?thesis
  proof
    assume ?new
    then obtain k where "k \<notin> dom (man_view dat w man)"
      "dom (man_view dat w' man') = insert k (dom (man_view dat w man))" "r0 = Replied [Write (t (websiteKey k))]"
      by blast
    with r t(2) [of "websiteKey k"] \<open>man_inv srv dat w' man'\<close> show ?thesis
      by (intro conjI disjI1 exI [of _ k]) (simp_all add: domIff)
  next
    assume ?none
    then obtain e where "dom (man_view dat w' man') = dom (man_view dat w man)"
      "r0 = Replied [WriteHeader 500, Write (t (websiteError e))]" by blast
    with r t(2) [of "websiteError e"] \<open>man_inv srv dat w' man'\<close> show ?thesis
      by (intro conjI disjI2 exI [of _ e]) (simp_all add: e500)
  qed
qed
text \<open>A witness: the free router, which serves a registered method and path, and a first tenant.\<close>

definition ex_router :: router where
  "ex_router routes rq =
     map_option (\<lambda>(m, p, rt). rt) (find (\<lambda>(m, p, rt). m = rq_Method rq \<and> p = rq_Path rq) routes)"

lemma ex_router_ok: "gin_ok ex_router"
proof -
  have found: "map_option (\<lambda>(m, p, rt). rt) (find (\<lambda>(m, p, rt). m = a \<and> p = b) routes) = Some rt"
    if "(a, b, rt) \<in> set routes" "distinct (map (\<lambda>(m, p, _). (m, p)) routes)" for routes a b and rt :: web_route
    using that by (induction routes) (auto split: if_splits, force+)
  show ?thesis unfolding gin_ok_def ex_router_def by (intro allI impI) (rule found; assumption)
qed

definition ex_button :: http_request where
  "ex_button =
     \<lparr>rq_Method = ''POST'', rq_EscapedPath = ''/ui/provision'', rq_Path = ''/ui/provision'',
      rq_Header = (\<lambda>h. ''''), rq_Query = (\<lambda>q. ''''), rq_Body = '''', rq_BodyFails = False\<rparr>"

definition ex_site :: "(string option \<times> string) web_site" where
  "ex_site = \<lparr>ws_runtime = ex_runtime, ws_endpoints = [], ws_file = (\<lambda>f rq. Replied http_NotFound)\<rparr>"

lemma site_provision_witness:
  "\<exists>r w' man' lg.
     site_server ex_router (\<lambda>rq. Replied http_NotFound) ex_site (\<lambda>b f. Inr ex_override) ex_disk ''secret'' False
       (NewStatusSampler (ex_time 0) (ex_time 0)) ex_env ex_button (ex_start, ex_man) = (r, (w', man'), lg) \<and>
     man_inv ref_srv ref_dat w' man' \<and> (reply_status r = 200 \<or> reply_status r = 500)"
proof -
  have f: "provision_fresh ex_env ex_start ex_man"
    using ex_rand by (simp add: provision_fresh_def ex_start_def)
  have rt: "templ_ok (ws_runtime ex_site) (\<lambda>(b, w). b \<noteq> None)
      (\<lambda>(b, w). w @ (case b of Some t \<Rightarrow> t | None \<Rightarrow> ''''))"
    using ex_runtime_ok by (simp add: ex_site_def)
  have rq: "rq_Method ex_button = ''POST''" "rq_EscapedPath ex_button = ''/ui/provision''"
    "rq_Path ex_button = ''/ui/provision''" by (simp_all add: ex_button_def)
  let ?run = "site_server ex_router (\<lambda>rq. Replied http_NotFound) ex_site (\<lambda>b f. Inr ex_override) ex_disk
      ''secret'' False (NewStatusSampler (ex_time 0) (ex_time 0)) ex_env ex_button (ex_start, ex_man)"
  obtain r s' lg where "?run = (r, s', lg)" by (rule prod_cases3)
  moreover obtain w' man' where "s' = (w', man')" by (rule prod.exhaust)
  ultimately have c: "?run = (r, (w', man'), lg)" by (simp only:)
  from site_provision [OF ex_router_ok rt rq f ex_inv c]
  have "man_inv ref_srv ref_dat w' man'" "reply_status r = 200 \<or> reply_status r = 500"
    by (elim conjE disjE exE, simp_all)+
  with c show ?thesis by (intro exI conjI)
qed

end
