(* ===== verification/Tenant_Steps.thy ===== *)
theory Tenant_Steps
  imports Database_Spec
begin

text \<open>
  Requests on one tenant as they interleave. The bodies in \<open>server/database.go\<close> are cut at
  the points where another goroutine can get in: the section under \<open>db.mu\<close>, the call of the
  token bucket (which has a mutex of its own), the atomic store of the activity stamp, and
  each call of the engine. What lies between two cuts touches no shared state, so one step
  runs from one cut to the next. A request carries the snapshot it took under the lock: the
  pointer of the bucket, the rate limits, the pointer of the engine and the state.

  \<open>SetRateLimitConfig\<close> installs a new bucket while a request may still hold the pointer of
  the old one, so replaced buckets are kept: the pointer is the number of buckets that were
  replaced before. \<open>Destroy\<close> sets the handle of the engine object to nil, and a request that
  holds the object then hands a nil handle to the engine library.
\<close>

section \<open>Shared state\<close>

record ('h, 'w) shared =
  sh_world :: "'w world"
  sh_db :: "'h database"
  sh_replaced :: "token_bucket option list"
  sh_closed :: bool

definition bucket_at :: "('h, 'w) shared \<Rightarrow> nat \<Rightarrow> token_bucket option" where
  "bucket_at sh p =
     (if p < length (sh_replaced sh) then sh_replaced sh ! p else db_bucket (sh_db sh))"

definition set_bucket :: "nat \<Rightarrow> token_bucket option \<Rightarrow> ('h, 'w) shared \<Rightarrow> ('h, 'w) shared" where
  "set_bucket p b sh =
     (if p < length (sh_replaced sh) then sh\<lparr>sh_replaced := (sh_replaced sh)[p := b]\<rparr>
      else sh\<lparr>sh_db := (sh_db sh)\<lparr>db_bucket := b\<rparr>\<rparr>)"

section \<open>Requests and their positions\<close>

datatype db_call =
    RGet string
  | RPut string string
  | RDelete string
  | RRange string string
  | RLimit rate_limit_config
  | RDestroy

datatype answer =
    AGet "(string \<times> bool) result"
  | APut "unit result"
  | ADelete "unit result"
  | ARange "kv list option result"
  | ALimit
  | ADestroy "os_error + unit"

text \<open>The variables \<open>bucket, rl, engine, state\<close> a request reads under the lock.\<close>

record 'h snapshot =
  sn_bucket :: nat
  sn_rl :: rate_limit_config
  sn_engine :: "'h option"
  sn_state :: tenant_state

datatype 'h pc =
    Begin
  | Held "'h snapshot"
  | Granted "'h snapshot"
  | Touched "'h snapshot"
  | Sized "'h snapshot"
  | Owing "'h snapshot" int answer
  | Finished answer
  | Nil_Call

definition answer_err :: "db_call \<Rightarrow> store_error \<Rightarrow> answer" where
  "answer_err req e =
     (case req of RGet k \<Rightarrow> AGet (Err e) | RPut k v \<Rightarrow> APut (Err e) | RDelete k \<Rightarrow> ADelete (Err e)
      | RRange s t \<Rightarrow> ARange (Err e) | RLimit c \<Rightarrow> ALimit | RDestroy \<Rightarrow> ADestroy (Inr ()))"

text \<open>What a request answers on the strength of \<open>state == tenantPending\<close> alone.\<close>

definition pending_answer :: "db_call \<Rightarrow> answer option" where
  "pending_answer req =
     (case req of RGet k \<Rightarrow> Some (AGet (Ok ('''', False))) | RDelete k \<Rightarrow> Some (ADelete (Ok ()))
      | RRange s t \<Rightarrow> Some (ARange (Ok None)) | _ \<Rightarrow> None)"

section \<open>The steps\<close>

text \<open>The checks before the lock.\<close>

definition bad_request :: "'h database \<Rightarrow> db_call \<Rightarrow> store_error option" where
  "bad_request db req =
     (case req of
        RGet k \<Rightarrow> if k = '''' then Some errEmptyKey else None
      | RPut k v \<Rightarrow> if k = '''' then Some errEmptyKey
                   else if db_maxValueBytes db < int (length v) then Some ErrTooLarge else None
      | RDelete k \<Rightarrow> if k = '''' then Some errEmptyKey else None
      | RRange s t \<Rightarrow> if s = '''' \<or> t = '''' then Some errEmptyRangeBounds else None
      | _ \<Rightarrow> None)"

definition take_snapshot :: "('h, 'w) shared \<Rightarrow> 'h snapshot" where
  "take_snapshot sh =
     \<lparr>sn_bucket = length (sh_replaced sh), sn_rl = db_rateLimit (sh_db sh),
      sn_engine = db_engine (sh_db sh), sn_state = db_state (sh_db sh)\<rparr>"

text \<open>The section under the lock. A \<open>Put\<close> materializes a pending tenant here.\<close>

definition lock_section ::
  "('h, 'w) fredb_api \<Rightarrow> env \<Rightarrow> db_call \<Rightarrow> ('h, 'w) shared \<Rightarrow> 'h pc \<times> ('h, 'w) shared" where
  "lock_section api ev req sh =
     (case req of
        RPut k v \<Rightarrow>
          (case (if db_state (sh_db sh) = tenantPending then materialize api ev (sh_world sh) (sh_db sh)
                 else (Inr (), sh_world sh, sh_db sh)) of
             (r, w, db) \<Rightarrow>
               let sh' = sh\<lparr>sh_world := w, sh_db := db\<rparr> in
               case r of
                 Inl e \<Rightarrow> (Finished (APut (Err (errInternal e))), sh')
               | Inr _ \<Rightarrow> (Held (take_snapshot sh'), sh'))
      | RLimit cfg \<Rightarrow>
          (Finished ALimit,
           sh\<lparr>sh_db := SetRateLimitConfig (clk ev 0) cfg (sh_db sh),
              sh_replaced := sh_replaced sh @ [db_bucket (sh_db sh)]\<rparr>)
      | RDestroy \<Rightarrow>
          (case Destroy api ev (sh_world sh) (sh_db sh) of
             (r, w, db) \<Rightarrow>
               (Finished (ADestroy r),
                sh\<lparr>sh_world := w, sh_db := db,
                   sh_closed := sh_closed sh \<or> db_engine (sh_db sh) \<noteq> None\<rparr>))
      | _ \<Rightarrow> (Held (take_snapshot sh), sh))"

definition request_cost :: "db_call \<Rightarrow> rate_limit_config \<Rightarrow> float64" where
  "request_cost req rl =
     (case req of RPut k v \<Rightarrow> PutCost rl (int (length v)) | _ \<Rightarrow> FlatCost rl)"

text \<open>\<open>bucket.Consume\<close>, and the answer of a tenant that was pending.\<close>

definition consume_step ::
  "env \<Rightarrow> db_call \<Rightarrow> 'h snapshot \<Rightarrow> ('h, 'w) shared \<Rightarrow> 'h pc \<times> ('h, 'w) shared" where
  "consume_step ev req g sh =
     (case bucket_Consume (clk ev 0) (request_cost req (sn_rl g)) (bucket_at sh (sn_bucket g)) of
        (ok, b) \<Rightarrow>
          (if \<not> ok then Finished (answer_err req ErrRateLimited)
           else if sn_state g = tenantPending
             then (case pending_answer req of Some a \<Rightarrow> Finished a | None \<Rightarrow> Granted g)
           else Granted g,
           set_bucket (sn_bucket g) b sh))"

definition touch_step ::
  "env \<Rightarrow> db_call \<Rightarrow> 'h snapshot \<Rightarrow> ('h, 'w) shared \<Rightarrow> 'h pc \<times> ('h, 'w) shared" where
  "touch_step ev req g sh =
     (case sn_engine g of None \<Rightarrow> Finished (answer_err req errGone) | Some h \<Rightarrow> Touched g,
      sh\<lparr>sh_db := TouchActivity (clk ev 1) (sh_db sh)\<rparr>)"

text \<open>
  The first call of the engine: the only one but for a \<open>Put\<close>, which asks for the size. The
  last two kinds of request never get here.
\<close>

definition engine_step ::
  "('h, 'w) fredb_api \<Rightarrow> db_call \<Rightarrow> 'h snapshot \<Rightarrow> 'h \<Rightarrow> ('h, 'w) shared \<Rightarrow> 'h pc \<times> ('h, 'w) shared" where
  "engine_step api req g h sh =
     (case req of
        RGet k \<Rightarrow>
          (case on_engine (cgo_Get api h k) (sh_world sh) of (r, w) \<Rightarrow>
             (case r of
                None \<Rightarrow> Finished (AGet Crash)
              | Some (Inl e) \<Rightarrow> Finished (AGet (Err (errUnavailable e)))
              | Some (Inr (val, found)) \<Rightarrow>
                  if found then Owing g (int (length val)) (AGet (Ok (val, found)))
                  else Finished (AGet (Ok (val, found))),
              sh\<lparr>sh_world := w\<rparr>))
      | RPut k v \<Rightarrow>
          (case on_engine (cgo_TotalSize api h) (sh_world sh) of (r, w) \<Rightarrow>
             (case r of
                Inl e \<Rightarrow> Finished (APut (Err (errUnavailable e)))
              | Inr sz \<Rightarrow> if db_maxStorageBytes (sh_db sh) \<le> sz then Finished (APut (Err errStorageFull))
                          else Sized g,
              sh\<lparr>sh_world := w\<rparr>))
      | RDelete k \<Rightarrow>
          (case on_engine (cgo_Delete api h k) (sh_world sh) of (r, w) \<Rightarrow>
             (Finished (ADelete (case r of Inl e \<Rightarrow> Err (errUnavailable e) | Inr _ \<Rightarrow> Ok ())),
              sh\<lparr>sh_world := w\<rparr>))
      | RRange s t \<Rightarrow>
          (case on_engine (cgo_Range api h s t) (sh_world sh) of (r, w) \<Rightarrow>
             (case r of
                None \<Rightarrow> Finished (ARange Crash)
              | Some (Inl e) \<Rightarrow> Finished (ARange (Err (errUnavailable e)))
              | Some (Inr pairs) \<Rightarrow> Owing g (kvs_total pairs) (ARange (Ok (Some pairs))),
              sh\<lparr>sh_world := w\<rparr>))
      | _ \<Rightarrow> (Nil_Call, sh))"

text \<open>The second call of the engine, of a \<open>Put\<close>.\<close>

definition write_step ::
  "('h, 'w) fredb_api \<Rightarrow> db_call \<Rightarrow> 'h \<Rightarrow> ('h, 'w) shared \<Rightarrow> 'h pc \<times> ('h, 'w) shared" where
  "write_step api req h sh =
     (case req of
        RPut k v \<Rightarrow>
          (case on_engine (cgo_Put api h k v) (sh_world sh) of (r, w) \<Rightarrow>
             (Finished (APut (case r of Inl e \<Rightarrow> Err (errUnavailable e) | Inr _ \<Rightarrow> Ok ())),
              sh\<lparr>sh_world := w\<rparr>))
      | _ \<Rightarrow> (Nil_Call, sh))"

definition charge_step :: "env \<Rightarrow> 'h snapshot \<Rightarrow> int \<Rightarrow> ('h, 'w) shared \<Rightarrow> ('h, 'w) shared" where
  "charge_step ev g n sh =
     set_bucket (sn_bucket g)
       (bucket_Charge (clk ev 2) (ReadCost (sn_rl g) n) (bucket_at sh (sn_bucket g))) sh"

text \<open>A call on the engine object of the snapshot; its handle is nil after \<open>Destroy\<close>.\<close>

definition with_handle ::
  "'h snapshot \<Rightarrow> ('h, 'w) shared \<Rightarrow> ('h \<Rightarrow> 'h pc \<times> ('h, 'w) shared) \<Rightarrow> 'h pc \<times> ('h, 'w) shared" where
  "with_handle g sh f =
     (case sn_engine g of
        None \<Rightarrow> (Nil_Call, sh)
      | Some h \<Rightarrow> if sh_closed sh then (Nil_Call, sh) else f h)"

fun advance ::
  "('h, 'w) fredb_api \<Rightarrow> env \<Rightarrow> db_call \<Rightarrow> 'h pc \<Rightarrow> ('h, 'w) shared \<Rightarrow> 'h pc \<times> ('h, 'w) shared" where
  "advance api ev req Begin sh =
     (case bad_request (sh_db sh) req of
        Some e \<Rightarrow> (Finished (answer_err req e), sh)
      | None \<Rightarrow> lock_section api ev req sh)"
| "advance api ev req (Held g) sh = consume_step ev req g sh"
| "advance api ev req (Granted g) sh = touch_step ev req g sh"
| "advance api ev req (Touched g) sh = with_handle g sh (\<lambda>h. engine_step api req g h sh)"
| "advance api ev req (Sized g) sh = with_handle g sh (\<lambda>h. write_step api req h sh)"
| "advance api ev req (Owing g n a) sh = (Finished a, charge_step ev g n sh)"
| "advance api ev req (Finished a) sh = (Finished a, sh)"
| "advance api ev req Nil_Call sh = (Nil_Call, sh)"

section \<open>Several requests at once\<close>

text \<open>A system is its requests, each with the environment of its calls, and the shared state.\<close>

type_synonym 'h task = "env \<times> db_call \<times> 'h pc"
type_synonym ('h, 'w) tenant_system = "'h task list \<times> ('h, 'w) shared"

definition move :: "('h, 'w) fredb_api \<Rightarrow> nat \<Rightarrow> ('h, 'w) tenant_system \<Rightarrow> ('h, 'w) tenant_system" where
  "move api i S =
     (if i < length (fst S) then
        case fst S ! i of (ev, req, pc) \<Rightarrow>
          case advance api ev req pc (snd S) of (pc', sh') \<Rightarrow> ((fst S)[i := (ev, req, pc')], sh')
      else S)"

text \<open>A schedule names, step by step, the request that moves.\<close>

fun run_schedule ::
  "('h, 'w) fredb_api \<Rightarrow> nat list \<Rightarrow> ('h, 'w) tenant_system \<Rightarrow> ('h, 'w) tenant_system" where
  "run_schedule api [] S = S"
| "run_schedule api (i # is) S = run_schedule api is (move api i S)"

definition task_pc :: "('h, 'w) tenant_system \<Rightarrow> nat \<Rightarrow> 'h pc" where
  "task_pc S i = snd (snd (fst S ! i))"

definition start :: "(env \<times> db_call) list \<Rightarrow> ('h, 'w) shared \<Rightarrow> ('h, 'w) tenant_system" where
  "start reqs sh = (map (\<lambda>(ev, req). (ev, req, Begin)) reqs, sh)"

end
