(* ===== verification/Tenant_Alone.thy ===== *)
theory Tenant_Alone
  imports Tenant_Steps
begin

text \<open>
  A request that nothing interrupts: its steps in a row compute what the operations of
  \<open>Database\<close> compute in one go.
\<close>

fun alone :: "('h, 'w) fredb_api \<Rightarrow> env \<Rightarrow> db_call \<Rightarrow> nat \<Rightarrow> 'h pc \<Rightarrow> ('h, 'w) shared \<Rightarrow>
    'h pc \<times> ('h, 'w) shared" where
  "alone api ev req 0 pc sh = (pc, sh)"
| "alone api ev req (Suc n) pc sh =
     (case advance api ev req pc sh of (pc', sh') \<Rightarrow> alone api ev req n pc' sh')"

definition in_one_go :: "('h, 'w) fredb_api \<Rightarrow> env \<Rightarrow> db_call \<Rightarrow> ('h, 'w) shared \<Rightarrow> answer \<times> ('h, 'w) shared" where
  "in_one_go api ev req sh =
     (case req of
        RGet k \<Rightarrow> (case db_Get api ev k (sh_world sh) (sh_db sh) of
          (r, w, db) \<Rightarrow> (AGet r, sh\<lparr>sh_world := w, sh_db := db\<rparr>))
      | RPut k v \<Rightarrow> (case db_Put api ev k v (sh_world sh) (sh_db sh) of
          (r, w, db) \<Rightarrow> (APut r, sh\<lparr>sh_world := w, sh_db := db\<rparr>))
      | RDelete k \<Rightarrow> (case db_Delete api ev k (sh_world sh) (sh_db sh) of
          (r, w, db) \<Rightarrow> (ADelete r, sh\<lparr>sh_world := w, sh_db := db\<rparr>))
      | RRange s t \<Rightarrow> (case db_Range api ev s t (sh_world sh) (sh_db sh) of
          (r, w, db) \<Rightarrow> (ARange r, sh\<lparr>sh_world := w, sh_db := db\<rparr>))
      | RLimit cfg \<Rightarrow> (ALimit,
          sh\<lparr>sh_db := SetRateLimitConfig (clk ev 0) cfg (sh_db sh),
             sh_replaced := sh_replaced sh @ [db_bucket (sh_db sh)]\<rparr>)
      | RDestroy \<Rightarrow> (case Destroy api ev (sh_world sh) (sh_db sh) of
          (r, w, db) \<Rightarrow> (ADestroy r, sh\<lparr>sh_world := w, sh_db := db,
             sh_closed := sh_closed sh \<or> db_engine (sh_db sh) \<noteq> None\<rparr>)))"

lemma alone_Finished [simp]: "alone api ev req n (Finished a) sh = (Finished a, sh)"
  by (induction n) simp_all

definition sh_sane :: "('h, 'w) shared \<Rightarrow> bool" where
  "sh_sane sh \<longleftrightarrow>
     (sh_closed sh \<longrightarrow> db_engine (sh_db sh) = None \<and> db_state (sh_db sh) = tenantActive)"

lemma bucket_at_snapshot [simp]:
  "bucket_at sh (length (sh_replaced sh)) = db_bucket (sh_db sh)"
  by (simp add: bucket_at_def)

lemma set_bucket_snapshot [simp]:
  "set_bucket (length (sh_replaced sh)) b sh = sh\<lparr>sh_db := (sh_db sh)\<lparr>db_bucket := b\<rparr>\<rparr>"
  by (simp add: set_bucket_def)

lemmas step_defs = lock_section_def take_snapshot_def consume_step_def touch_step_def
  engine_step_def write_step_def with_handle_def charge_step_def request_cost_def
  answer_err_def pending_answer_def

lemma alone_Get:
  assumes "sh_sane sh"
  shows "alone api ev (RGet k) 6 Begin sh =
    (case in_one_go api ev (RGet k) sh of (a, sh') \<Rightarrow> (Finished a, sh'))"
proof (cases "k = ''''")
  case True
  then show ?thesis
    by (simp add: in_one_go_def db_Get_def bad_request_def answer_err_def numeral_eq_Suc)
next
  case False
  obtain ok bk where b: "bucket_Consume (clk ev 0) (FlatCost (db_rateLimit (sh_db sh)))
      (db_bucket (sh_db sh)) = (ok, bk)" by fastforce
  show ?thesis
    using False b assms
    by (simp add: in_one_go_def db_Get_def bad_request_def step_defs numeral_eq_Suc sh_sane_def Let_def
      charge_read_def set_bucket_def bucket_at_def frame_simps
        split: option.splits prod.splits sum.splits)
qed

lemma alone_Delete:
  assumes "sh_sane sh"
  shows "alone api ev (RDelete k) 6 Begin sh =
    (case in_one_go api ev (RDelete k) sh of (a, sh') \<Rightarrow> (Finished a, sh'))"
  using assms
  by (cases "sh_closed sh") (simp_all add: in_one_go_def db_Delete_def bad_request_def step_defs numeral_eq_Suc sh_sane_def Let_def
      set_bucket_def bucket_at_def frame_simps split: option.splits prod.splits sum.splits)

lemma alone_Range:
  assumes "sh_sane sh"
  shows "alone api ev (RRange s t) 6 Begin sh =
    (case in_one_go api ev (RRange s t) sh of (a, sh') \<Rightarrow> (Finished a, sh'))"
  using assms
  by (cases "sh_closed sh") (simp_all add: in_one_go_def db_Range_def bad_request_def step_defs numeral_eq_Suc sh_sane_def Let_def
      charge_read_def set_bucket_def bucket_at_def frame_simps
      split: option.splits prod.splits sum.splits)

lemma materialize_state:
  "materialize api ev w db = (Inr u, w', db') \<Longrightarrow> db_state db' = tenantActive"
  by (drule materialize_cases) auto

lemma alone_Put:
  assumes "sh_sane sh"
  shows "alone api ev (RPut k v) 6 Begin sh =
    (case in_one_go api ev (RPut k v) sh of (a, sh') \<Rightarrow> (Finished a, sh'))"
proof (cases "k = '''' \<or> db_maxValueBytes (sh_db sh) < int (length v)")
  case True
  then show ?thesis
    by (auto simp: in_one_go_def db_Put_def bad_request_def answer_err_def numeral_eq_Suc)
next
  case False
  obtain r w db where m: "put_open api ev (sh_world sh) (sh_db sh) = (r, w, db)"
    by (cases "put_open api ev (sh_world sh) (sh_db sh)")
  have s: "sh_closed sh \<Longrightarrow> db_engine db = None"
    using assms m by (auto simp: sh_sane_def put_open_def split: if_splits)
  have a: "db_state db = tenantActive" if "r = Inr ()"
    using that m by (cases "db_state (sh_db sh)") (auto simp: put_open_def materialize_state)
  show ?thesis
    using False m s a unfolding put_open_def
    by (cases "sh_closed sh") (simp_all add: in_one_go_def db_Put_def bad_request_def step_defs numeral_eq_Suc sh_sane_def Let_def
      set_bucket_def bucket_at_def frame_simps split: option.splits prod.splits sum.splits)
qed

lemma alone_other:
  "alone api ev (RLimit cfg) 6 Begin sh =
    (case in_one_go api ev (RLimit cfg) sh of (a, sh') \<Rightarrow> (Finished a, sh'))"
  "alone api ev RDestroy 6 Begin sh =
    (case in_one_go api ev RDestroy sh of (a, sh') \<Rightarrow> (Finished a, sh'))"
  by (simp_all add: in_one_go_def bad_request_def lock_section_def numeral_eq_Suc
      split: prod.splits)

lemma alone_request:
  "sh_sane sh \<Longrightarrow> alone api ev req 6 Begin sh =
    (case in_one_go api ev req sh of (a, sh') \<Rightarrow> (Finished a, sh'))"
  by (cases req) (simp_all only: alone_Get alone_Put alone_Delete alone_Range alone_other)

section \<open>Moving one request\<close>

lemma move_other: "j \<noteq> i \<Longrightarrow> task_pc (move api i S) j = task_pc S j"
  by (simp add: move_def task_pc_def split: prod.splits)

lemma move_same:
  "i < length (fst S) \<Longrightarrow> fst S ! i = (ev, req, pc) \<Longrightarrow> advance api ev req pc (snd S) = (pc', sh') \<Longrightarrow>
   move api i S = ((fst S)[i := (ev, req, pc')], sh')"
  by (simp add: move_def)

lemma move_length [simp]: "length (fst (move api i S)) = length (fst S)"
  by (simp add: move_def split: prod.splits)

lemma run_schedule_length [simp]: "length (fst (run_schedule api is S)) = length (fst S)"
  by (induction "is" arbitrary: S) simp_all

lemma run_schedule_append:
  "run_schedule api (is @ js) S = run_schedule api js (run_schedule api is S)"
  by (induction "is" arbitrary: S) simp_all

end
