(* ===== verification/Tenant_Interleaving.thy ===== *)
theory Tenant_Interleaving
  imports Tenant_Alone
begin

text \<open>
  Interleaved requests on one tenant, against a key-value map that serves one request at a
  time. Every run of the steps has an order of its requests, computed from the run, in which
  the map gives the same answers. The point at which a request takes its place in the order
  is its engine call; a read or delete that found the tenant pending takes its place where it
  looked, under the lock.
\<close>

section \<open>The map, one request at a time\<close>

text \<open>
  The answer \<open>a\<close> to a request is right for the map \<open>m\<close>, which becomes \<open>m'\<close>. A value and a
  range are what the wrapper of the engine hands over. A write the engine reports as failed
  (503) promises nothing about the map.
\<close>

fun explains :: "(string \<Rightarrow> string \<Rightarrow> string \<Rightarrow> bool) \<Rightarrow> db_call \<Rightarrow> answer \<Rightarrow>
    (string \<rightharpoonup> string) \<Rightarrow> (string \<rightharpoonup> string) \<Rightarrow> bool" where
  "explains inr (RGet k) (AGet r) m m' =
     (m' = m \<and>
      (case r of
         Ok vf \<Rightarrow> if snd vf
           then \<exists>out. m k = Some out \<and> GoStringN out (C_int (int (length out))) = Some (fst vf)
           else m k = None \<and> fst vf = ''''
       | _ \<Rightarrow> True))"
| "explains inr (RPut k v) (APut r) m m' =
     (case r of Ok u \<Rightarrow> m' = m(k \<mapsto> v) | Err e \<Rightarrow> se_Status e = 503 \<or> m' = m | Crash \<Rightarrow> False)"
| "explains inr (RDelete k) (ADelete r) m m' =
     (case r of Ok u \<Rightarrow> m' = m(k := None) | Err e \<Rightarrow> se_Status e = 503 | Crash \<Rightarrow> False)"
| "explains inr (RRange s t) (ARange r) m m' =
     (m' = m \<and>
      (case r of
         Ok None \<Rightarrow> m = Map.empty
       | Ok (Some kvs) \<Rightarrow> \<exists>kvs'. is_range inr m s t kvs' \<and>
           decodeRangeBuf (encodeRangeBuf kvs') = Some (Inr kvs)
       | Err e \<Rightarrow> True
       | Crash \<Rightarrow> False))"
| "explains inr _ _ m m' = False"

text \<open>A sequence of answered requests, replayed on the map.\<close>

inductive replays :: "(string \<Rightarrow> string \<Rightarrow> string \<Rightarrow> bool) \<Rightarrow> (nat \<Rightarrow> db_call) \<Rightarrow>
    (nat \<times> answer) list \<Rightarrow> (string \<rightharpoonup> string) \<Rightarrow> (string \<rightharpoonup> string) \<Rightarrow> bool" where
  replays_Nil: "replays inr reqs [] m m"
| replays_Cons: "explains inr (reqs i) a m m1 \<Longrightarrow> replays inr reqs l m1 m' \<Longrightarrow>
     replays inr reqs ((i, a) # l) m m'"

inductive_simps replays_simps [simp]:
  "replays inr reqs [] m m'"
  "replays inr reqs ((i, a) # l) m m'"

lemma replays_append:
  "replays inr reqs (l1 @ l2) m m' \<longleftrightarrow> (\<exists>m1. replays inr reqs l1 m m1 \<and> replays inr reqs l2 m1 m')"
proof (induction l1 arbitrary: m)
  case Nil
  then show ?case by simp
next
  case (Cons e l1)
  then show ?case by (cases e) auto
qed

section \<open>The order of a run\<close>

datatype stamp = Early answer | Late answer

fun stamp_answer :: "stamp \<Rightarrow> answer" where
  "stamp_answer (Early a) = a"
| "stamp_answer (Late a) = a"

definition lin_stamp :: "db_call \<Rightarrow> 'h pc \<Rightarrow> 'h pc \<Rightarrow> stamp option" where
  "lin_stamp req pc pc' =
     (case pc' of
        Held g \<Rightarrow> if pc = Begin \<and> sn_state g = tenantPending
                  then map_option Early (pending_answer req) else None
      | Owing g n a \<Rightarrow> Some (Late a)
      | Finished a \<Rightarrow> (case pc of Touched g \<Rightarrow> Some (Late a) | Sized g \<Rightarrow> Some (Late a) | _ \<Rightarrow> None)
      | _ \<Rightarrow> None)"

definition task_req :: "('h, 'w) tenant_system \<Rightarrow> nat \<Rightarrow> db_call" where
  "task_req S i = fst (snd (fst S ! i))"

definition move_stamp ::
  "('h, 'w) fredb_api \<Rightarrow> nat \<Rightarrow> ('h, 'w) tenant_system \<Rightarrow> (nat \<times> stamp) list" where
  "move_stamp api i S =
     (if i < length (fst S) then
        case lin_stamp (task_req S i) (task_pc S i) (task_pc (move api i S) i) of
          None \<Rightarrow> [] | Some s \<Rightarrow> [(i, s)]
      else [])"

fun lin_trace ::
  "('h, 'w) fredb_api \<Rightarrow> nat list \<Rightarrow> ('h, 'w) tenant_system \<Rightarrow> (nat \<times> stamp) list" where
  "lin_trace api [] S = []"
| "lin_trace api (i # is) S = move_stamp api i S @ lin_trace api is (move api i S)"

text \<open>A request that found the tenant pending may still be refused by the rate limit.\<close>

definition gave_up :: "('h, 'w) tenant_system \<Rightarrow> nat \<times> stamp \<Rightarrow> bool" where
  "gave_up S e =
     (case (snd e, task_pc S (fst e)) of (Early a, Finished b) \<Rightarrow> a \<noteq> b | _ \<Rightarrow> False)"

definition lin_order ::
  "('h, 'w) fredb_api \<Rightarrow> nat list \<Rightarrow> ('h, 'w) tenant_system \<Rightarrow> (nat \<times> answer) list" where
  "lin_order api sched S =
     map (\<lambda>(i, s). (i, stamp_answer s))
       (filter (\<lambda>e. \<not> gave_up (run_schedule api sched S) e) (lin_trace api sched S))"

lemma lin_trace_append:
  "lin_trace api (is @ js) S = lin_trace api is S @ lin_trace api js (run_schedule api is S)"
  by (induction "is" arbitrary: S) simp_all

section \<open>The invariant of a running system\<close>

definition tenant_live :: "('h, 'w) eng_at \<Rightarrow> 'w eng_dat \<Rightarrow> ('h, 'w) shared \<Rightarrow> bool" where
  "tenant_live srv dat sh \<longleftrightarrow>
     db_linked srv dat (sh_world sh) (sh_db sh) \<and> \<not> sh_closed sh \<and>
     (db_state (sh_db sh) = tenantActive \<longrightarrow> db_engine (sh_db sh) \<noteq> None)"

definition holds_engine :: "'h database \<Rightarrow> 'h snapshot \<Rightarrow> bool" where
  "holds_engine db g \<longleftrightarrow>
     sn_state g = tenantActive \<and> db_state db = tenantActive \<and>
     (\<exists>h. sn_engine g = Some h \<and> db_engine db = Some h)"

text \<open>What a request in progress knows about the tenant.\<close>

fun pc_ok :: "'h database \<Rightarrow> db_call \<Rightarrow> 'h pc \<Rightarrow> bool" where
  "pc_ok db req Begin = True"
| "pc_ok db req (Held g) =
     (if sn_state g = tenantPending then pending_answer req \<noteq> None
      else holds_engine db g \<and> (\<forall>c. req \<noteq> RLimit c))"
| "pc_ok db req (Granted g) = (holds_engine db g \<and> (\<forall>c. req \<noteq> RLimit c))"
| "pc_ok db req (Touched g) = (holds_engine db g \<and> (\<forall>c. req \<noteq> RLimit c))"
| "pc_ok db req (Sized g) = (holds_engine db g \<and> (\<exists>k v. req = RPut k v))"
| "pc_ok db req (Owing g n a) = True"
| "pc_ok db req (Finished a) = True"
| "pc_ok db req Nil_Call = False"

text \<open>Once the tenant has its engine, no step but \<open>Destroy\<close> takes it away or replaces it.\<close>

definition engine_stays :: "'h database \<Rightarrow> 'h database \<Rightarrow> bool" where
  "engine_stays db db' \<longleftrightarrow>
     db_dataDirPath db' = db_dataDirPath db \<and> db_maxStorageBytes db' = db_maxStorageBytes db \<and>
     (db_state db = tenantActive \<longrightarrow> db_state db' = tenantActive \<and> db_engine db' = db_engine db)"

lemma pc_ok_stays: "engine_stays db db' \<Longrightarrow> pc_ok db req pc \<Longrightarrow> pc_ok db' req pc"
  by (cases pc) (auto simp: engine_stays_def holds_engine_def)

text \<open>What one step does to the map, as its stamp says.\<close>

definition stamp_ok :: "(string \<Rightarrow> string \<Rightarrow> string \<Rightarrow> bool) \<Rightarrow> db_call \<Rightarrow> stamp option \<Rightarrow>
    (string \<rightharpoonup> string) \<Rightarrow> (string \<rightharpoonup> string) \<Rightarrow> bool" where
  "stamp_ok inr req s m m' \<longleftrightarrow>
     (case s of
        None \<Rightarrow> m' = m
      | Some (Early a) \<Rightarrow> m' = m \<and> m = Map.empty \<and> pending_answer req = Some a
      | Some (Late a) \<Rightarrow> explains inr req a m m')"

definition sh_view :: "'w eng_dat \<Rightarrow> ('h, 'w) shared \<Rightarrow> string \<rightharpoonup> string" where
  "sh_view dat sh = db_view dat (sh_world sh) (sh_db sh)"

definition step_ok :: "('h, 'w) eng_at \<Rightarrow> 'w eng_dat \<Rightarrow> (string \<Rightarrow> string \<Rightarrow> string \<Rightarrow> bool) \<Rightarrow>
    db_call \<Rightarrow> 'h pc \<Rightarrow> ('h, 'w) shared \<Rightarrow> 'h pc \<Rightarrow> ('h, 'w) shared \<Rightarrow> bool" where
  "step_ok srv dat inr req pc sh pc' sh' \<longleftrightarrow>
     tenant_live srv dat sh' \<and> engine_stays (sh_db sh) (sh_db sh') \<and> pc_ok (sh_db sh') req pc' \<and>
     stamp_ok inr req (lin_stamp req pc pc') (sh_view dat sh) (sh_view dat sh')"

section \<open>One step\<close>

lemma bucket_fields [frame_simps]:
  "sh_world (set_bucket p b sh) = sh_world sh"
  "sh_closed (set_bucket p b sh) = sh_closed sh"
  "db_state (sh_db (set_bucket p b sh)) = db_state (sh_db sh)"
  "db_engine (sh_db (set_bucket p b sh)) = db_engine (sh_db sh)"
  "db_dataDirPath (sh_db (set_bucket p b sh)) = db_dataDirPath (sh_db sh)"
  "db_maxStorageBytes (sh_db (set_bucket p b sh)) = db_maxStorageBytes (sh_db sh)"
  by (simp_all add: set_bucket_def)

text \<open>A step that leaves the world, the state and the engine of the tenant alone.\<close>

lemma quiet_step:
  assumes "tenant_live srv dat sh" "sh_world sh' = sh_world sh" "sh_closed sh' = sh_closed sh"
    and "db_state (sh_db sh') = db_state (sh_db sh)" "db_engine (sh_db sh') = db_engine (sh_db sh)"
    and "db_dataDirPath (sh_db sh') = db_dataDirPath (sh_db sh)"
    and "db_maxStorageBytes (sh_db sh') = db_maxStorageBytes (sh_db sh)"
  shows "tenant_live srv dat sh'" "engine_stays (sh_db sh) (sh_db sh')"
    "sh_view dat sh' = sh_view dat sh"
  using assms by (simp_all add: tenant_live_def db_linked_def engine_stays_def sh_view_def db_view_def)

lemma step_begin_read:
  assumes live: "tenant_live srv dat sh" and p: "pending_answer req \<noteq> None"
    and a: "advance api ev req Begin sh = (pc', sh')"
  shows "step_ok srv dat inr req Begin sh pc' sh'"
proof -
  from p obtain a0 where a0: "pending_answer req = Some a0" by blast
  have n: "req \<noteq> RLimit c" for c using p by (auto simp: pending_answer_def)
  have s: "sh' = sh" "pc' = Held (take_snapshot sh) \<or> (\<exists>a. pc' = Finished a)"
    using a p by (cases req; auto simp: lock_section_def pending_answer_def split: option.splits)+
  have q: "tenant_live srv dat sh'" "engine_stays (sh_db sh) (sh_db sh')" "sh_view dat sh' = sh_view dat sh"
    by (rule quiet_step [OF live]; simp add: s(1))+
  from s(2) show ?thesis
  proof
    assume pc: "pc' = Held (take_snapshot sh)"
    show ?thesis
    proof (cases "db_state (sh_db sh)")
      case tenantPending
      with live have "sh_view dat sh = Map.empty"
        by (simp add: tenant_live_def db_linked_def sh_view_def)
      with tenantPending pc q a0 show ?thesis
        by (simp add: step_ok_def stamp_ok_def lin_stamp_def take_snapshot_def)
    next
      case tenantActive
      with live pc q s(1) n show ?thesis
        by (auto simp: step_ok_def stamp_ok_def lin_stamp_def take_snapshot_def holds_engine_def
            tenant_live_def)
    qed
  qed (use q in \<open>auto simp: step_ok_def stamp_ok_def lin_stamp_def\<close>)
qed

lemma step_begin_put:
  assumes ok: "engine_ok api srv dat inr" and live: "tenant_live srv dat sh"
    and a: "advance api ev (RPut k v) Begin sh = (pc', sh')"
  shows "step_ok srv dat inr (RPut k v) Begin sh pc' sh'"
proof (cases "bad_request (sh_db sh) (RPut k v)")
  case (Some e)
  with a live show ?thesis
    by (auto simp: step_ok_def engine_stays_def stamp_ok_def lin_stamp_def)
next
  case None
  obtain r w db where m: "put_open api ev (sh_world sh) (sh_db sh) = (r, w, db)"
    by (cases "put_open api ev (sh_world sh) (sh_db sh)")
  have l: "db_linked srv dat (sh_world sh) (sh_db sh)" using live by (simp add: tenant_live_def)
  note P = put_open_spec [OF ok l m]
  have d: "db_dataDirPath db = db_dataDirPath (sh_db sh)"
    "db_maxStorageBytes db = db_maxStorageBytes (sh_db sh)"
    using P(4) by (simp_all add: db_ident_def)
  have e: "db_state db = tenantActive \<longrightarrow> db_engine db \<noteq> None"
    "db_state (sh_db sh) = tenantActive \<longrightarrow> db = sh_db sh"
    "\<And>u. r = Inr u \<Longrightarrow> db_state db = tenantActive"
    using m live P(6) by (auto simp: put_open_def tenant_live_def split: if_splits
        dest!: materialize_cases split: sum.splits)
  let ?sh = "sh\<lparr>sh_world := w, sh_db := db\<rparr>"
  have s: "sh' = ?sh" "pc' = Held (take_snapshot ?sh) \<and> db_state db = tenantActive \<or>
      (\<exists>e. pc' = Finished (answer_err (RPut k v) e))"
    using a m None e(3) unfolding put_open_def
    by (auto simp: lock_section_def answer_err_def Let_def split: sum.splits)
  have "tenant_live srv dat sh'" "engine_stays (sh_db sh) (sh_db sh')" "sh_view dat sh' = sh_view dat sh"
    using live P(1,3) e d s(1)
    by (auto simp: tenant_live_def engine_stays_def sh_view_def db_view_def)
  with s e show ?thesis
    by (auto simp: step_ok_def stamp_ok_def lin_stamp_def take_snapshot_def holds_engine_def)
qed

lemma step_begin:
  assumes "engine_ok api srv dat inr" "tenant_live srv dat sh" "req \<noteq> RDestroy"
    and a: "advance api ev req Begin sh = (pc', sh')"
  shows "step_ok srv dat inr req Begin sh pc' sh'"
proof (cases req)
  case (RPut k v)
  with assms step_begin_put show ?thesis by blast
next
  case (RLimit c)
  with a quiet_step [OF assms(2), of sh'] show ?thesis
    by (auto simp: bad_request_def lock_section_def SetRateLimitConfig_def step_ok_def stamp_ok_def
        lin_stamp_def)
qed (use assms(3) step_begin_read [OF assms(2) _ a] in \<open>simp_all add: pending_answer_def\<close>)

lemma step_consume:
  assumes live: "tenant_live srv dat sh" and p: "pc_ok (sh_db sh) req (Held g)"
    and a: "advance api ev req (Held g) sh = (pc', sh')"
  shows "step_ok srv dat inr req (Held g) sh pc' sh'"
proof -
  obtain ok b where c: "bucket_Consume (clk ev 0) (request_cost req (sn_rl g))
      (bucket_at sh (sn_bucket g)) = (ok, b)" by fastforce
  have s: "sh' = set_bucket (sn_bucket g) b sh"
    "pc' = Granted g \<and> sn_state g \<noteq> tenantPending \<or> (\<exists>a. pc' = Finished a)"
    using a c p by (auto simp: consume_step_def split: option.splits if_splits)
  have q: "tenant_live srv dat sh'" "engine_stays (sh_db sh) (sh_db sh')" "sh_view dat sh' = sh_view dat sh"
    by (rule quiet_step [OF live]; simp add: s(1) frame_simps)+
  with s(2) pc_ok_stays [OF q(2) p] show ?thesis
    by (auto simp: step_ok_def stamp_ok_def lin_stamp_def)
qed

lemma step_touch:
  assumes live: "tenant_live srv dat sh" and p: "pc_ok (sh_db sh) req (Granted g)"
    and a: "advance api ev req (Granted g) sh = (pc', sh')"
  shows "step_ok srv dat inr req (Granted g) sh pc' sh'"
proof -
  have s: "sh' = sh\<lparr>sh_db := TouchActivity (clk ev 1) (sh_db sh)\<rparr>" "pc' = Touched g"
    using a p by (auto simp: touch_step_def holds_engine_def)
  have q: "tenant_live srv dat sh'" "engine_stays (sh_db sh) (sh_db sh')" "sh_view dat sh' = sh_view dat sh"
    by (rule quiet_step [OF live]; simp add: s(1) frame_simps)+
  with s(2) pc_ok_stays [OF q(2) p] show ?thesis
    by (auto simp: step_ok_def stamp_ok_def lin_stamp_def)
qed

lemma step_charge:
  assumes live: "tenant_live srv dat sh"
    and a: "advance api ev req (Owing g n ans) sh = (pc', sh')"
  shows "step_ok srv dat inr req (Owing g n ans) sh pc' sh'"
proof -
  have s: "sh' = charge_step ev g n sh" "pc' = Finished ans" using a by auto
  have q: "tenant_live srv dat sh'" "engine_stays (sh_db sh) (sh_db sh')" "sh_view dat sh' = sh_view dat sh"
    by (rule quiet_step [OF live]; simp add: s(1) charge_step_def frame_simps)+
  with s(2) show ?thesis by (auto simp: step_ok_def stamp_ok_def lin_stamp_def)
qed

text \<open>An engine call: the tenant record is left alone.\<close>

lemma engine_call:
  assumes live: "tenant_live srv dat sh" and st: "eng_step srv dat (db_dataDirPath (sh_db sh)) (sh_world sh) w"
    and act: "db_state (sh_db sh) = tenantActive"
  shows "tenant_live srv dat (sh\<lparr>sh_world := w\<rparr>)" "engine_stays (sh_db sh) (sh_db (sh\<lparr>sh_world := w\<rparr>))"
  using assms by (auto simp: tenant_live_def db_linked_def engine_stays_def eng_step_def)

lemma same_view: "eng_same srv dat (engw w) (engw w') \<Longrightarrow> db_view dat w' db = db_view dat w db"
  by (simp add: eng_same_def db_view_def)

lemma step_engine:
  assumes ok: "engine_ok api srv dat inr" and live: "tenant_live srv dat sh" and nd: "req \<noteq> RDestroy"
    and p: "pc_ok (sh_db sh) req (Touched g)"
    and a: "advance api ev req (Touched g) sh = (pc', sh')"
  shows "step_ok srv dat inr req (Touched g) sh pc' sh'"
proof -
  from p obtain h where h: "sn_engine g = Some h" "db_engine (sh_db sh) = Some h"
    and act: "db_state (sh_db sh) = tenantActive" by (auto simp: holds_engine_def)
  let ?d = "db_dataDirPath (sh_db sh)"
  have at: "srv (engw (sh_world sh)) h = Some ?d"
    using live h by (simp add: tenant_live_def db_linked_def)
  have e: "engine_step api req g h sh = (pc', sh')"
    using a h live by (simp add: with_handle_def tenant_live_def)
  note call = engine_call [OF live _ act] and stamps = step_ok_def stamp_ok_def lin_stamp_def
    sh_view_def
  show ?thesis
  proof (cases req)
    case (RGet k)
    obtain r w where g: "on_engine (cgo_Get api h k) (sh_world sh) = (r, w)" by fastforce
    note G = cgo_Get_spec [OF ok at g]
    have s: "eng_same srv dat (engw (sh_world sh)) (engw w)" using G by blast
    from G e RGet g show ?thesis
      using call [OF eng_step_same [OF s]] same_view [OF s, of "sh_db sh"]
      by (auto simp: engine_step_def stamps db_view_def split: option.splits sum.splits if_splits)
  next
    case (RPut k v)
    obtain r w where g: "on_engine (cgo_TotalSize api h) (sh_world sh) = (r, w)" by fastforce
    have s: "eng_same srv dat (engw (sh_world sh)) (engw w)" using cgo_TotalSize_spec [OF ok at g] by blast
    from e RPut g p show ?thesis
      using call [OF eng_step_same [OF s]] same_view [OF s, of "sh_db sh"]
      by (auto simp: engine_step_def stamps split: sum.splits if_splits)
  next
    case (RDelete k)
    obtain r w where g: "on_engine (cgo_Delete api h k) (sh_world sh) = (r, w)" by fastforce
    note G = cgo_Delete_spec [OF ok at g]
    from G e RDelete g show ?thesis
      using call [OF eng_step_frame, of w]
      by (auto simp: engine_step_def stamps db_view_def errUnavailable_def store_err_def split: sum.splits)
  next
    case (RRange s t)
    obtain r w where g: "on_engine (cgo_Range api h s t) (sh_world sh) = (r, w)" by fastforce
    note G = cgo_Range_spec [OF ok at g]
    have s: "eng_same srv dat (engw (sh_world sh)) (engw w)" using G by blast
    from G e RRange g show ?thesis
      using call [OF eng_step_same [OF s]] same_view [OF s, of "sh_db sh"]
      by (auto simp: engine_step_def stamps db_view_def split: option.splits sum.splits) blast
  qed (use nd p in simp_all)
qed

lemma step_write:
  assumes ok: "engine_ok api srv dat inr" and live: "tenant_live srv dat sh"
    and p: "pc_ok (sh_db sh) req (Sized g)"
    and a: "advance api ev req (Sized g) sh = (pc', sh')"
  shows "step_ok srv dat inr req (Sized g) sh pc' sh'"
proof -
  from p obtain h k v where h: "sn_engine g = Some h" "db_engine (sh_db sh) = Some h"
    and act: "db_state (sh_db sh) = tenantActive" and req: "req = RPut k v"
    by (auto simp: holds_engine_def)
  have at: "srv (engw (sh_world sh)) h = Some (db_dataDirPath (sh_db sh))"
    using live h by (simp add: tenant_live_def db_linked_def)
  have e: "write_step api req h sh = (pc', sh')"
    using a h live by (simp add: with_handle_def tenant_live_def)
  obtain r w where g: "on_engine (cgo_Put api h k v) (sh_world sh) = (r, w)" by fastforce
  note G = cgo_Put_spec [OF ok at g]
  from G e req g show ?thesis
    using engine_call [OF live eng_step_frame act, of w]
    by (auto simp: write_step_def step_ok_def stamp_ok_def lin_stamp_def sh_view_def db_view_def
        errUnavailable_def store_err_def split: sum.splits)
qed

lemma step_idle:
  assumes "tenant_live srv dat sh"
  shows "step_ok srv dat inr req (Finished a) sh (Finished a) sh"
  using quiet_step [OF assms, of sh] by (simp add: step_ok_def stamp_ok_def lin_stamp_def)

lemma step_any:
  assumes "engine_ok api srv dat inr" "tenant_live srv dat sh" "req \<noteq> RDestroy"
    and "pc_ok (sh_db sh) req pc" "advance api ev req pc sh = (pc', sh')"
  shows "step_ok srv dat inr req pc sh pc' sh'"
proof (cases pc)
  case Begin
  with assms step_begin show ?thesis by blast
next
  case (Held g)
  with assms step_consume show ?thesis by blast
next
  case (Granted g)
  with assms step_touch show ?thesis by blast
next
  case (Touched g)
  with assms step_engine show ?thesis by blast
next
  case (Sized g)
  with assms step_write show ?thesis by blast
next
  case (Owing g n a)
  with assms step_charge show ?thesis by blast
next
  case (Finished a)
  with assms step_idle show ?thesis by auto
next
  case Nil_Call
  with assms show ?thesis by simp
qed

section \<open>Whole runs\<close>

definition system_ok :: "('h, 'w) eng_at \<Rightarrow> 'w eng_dat \<Rightarrow> ('h, 'w) tenant_system \<Rightarrow> bool" where
  "system_ok srv dat S \<longleftrightarrow>
     tenant_live srv dat (snd S) \<and>
     (\<forall>i < length (fst S). fst (snd (fst S ! i)) \<noteq> RDestroy \<and>
        pc_ok (sh_db (snd S)) (fst (snd (fst S ! i))) (task_pc S i))"

lemma move_req [simp]: "task_req (move api i S) j = task_req S j"
  by (cases "i < length (fst S)"; cases "j = i")
    (simp_all add: move_def task_req_def split: prod.splits)

lemma run_schedule_req [simp]: "task_req (run_schedule api sched S) j = task_req S j"
  by (induction sched arbitrary: S) simp_all

lemma move_step_ok:
  assumes ok: "engine_ok api srv dat inr" and S: "system_ok srv dat S" and i: "i < length (fst S)"
  shows "step_ok srv dat inr (task_req S i) (task_pc S i) (snd S)
    (task_pc (move api i S) i) (snd (move api i S))"
proof -
  obtain ev req pc where t: "fst S ! i = (ev, req, pc)" by (cases "fst S ! i")
  obtain pc' sh' where a: "advance api ev req pc (snd S) = (pc', sh')" by fastforce
  have p: "tenant_live srv dat (snd S)" "req \<noteq> RDestroy" "pc_ok (sh_db (snd S)) req pc"
    using S i t by (auto simp: system_ok_def task_pc_def)
  from step_any [OF ok p a] move_same [OF i t a] i t show ?thesis
    by (simp add: task_pc_def task_req_def)
qed

lemma move_ok:
  assumes ok: "engine_ok api srv dat inr" and S: "system_ok srv dat S"
  shows "system_ok srv dat (move api i S)" "engine_stays (sh_db (snd S)) (sh_db (snd (move api i S)))"
proof -
  have "system_ok srv dat (move api i S) \<and> engine_stays (sh_db (snd S)) (sh_db (snd (move api i S)))"
  proof (cases "i < length (fst S)")
    case True
    note M = move_step_ok [OF ok S True, unfolded step_ok_def]
    have "pc_ok (sh_db (snd (move api i S))) (task_req S j) (task_pc (move api i S) j) \<and>
        task_req S j \<noteq> RDestroy" if "j < length (fst S)" for j
      using that M S pc_ok_stays [of "sh_db (snd S)" "sh_db (snd (move api i S))"]
      by (cases "j = i") (auto simp: move_other system_ok_def task_req_def)
    with M show ?thesis
      using move_req [of api i S] by (auto simp: system_ok_def task_req_def)
  next
    case False
    with S show ?thesis by (simp add: move_def engine_stays_def)
  qed
  then show "system_ok srv dat (move api i S)" "engine_stays (sh_db (snd S)) (sh_db (snd (move api i S)))"
    by simp_all
qed

lemma engine_stays_trans: "engine_stays a b \<Longrightarrow> engine_stays b c \<Longrightarrow> engine_stays a c"
  by (simp add: engine_stays_def)

lemma run_ok:
  assumes ok: "engine_ok api srv dat inr"
  shows "system_ok srv dat S \<Longrightarrow> system_ok srv dat (run_schedule api sched S) \<and>
    engine_stays (sh_db (snd S)) (sh_db (snd (run_schedule api sched S)))"
proof (induction sched arbitrary: S)
  case Nil
  then show ?case by (simp add: engine_stays_def)
next
  case (Cons i sched)
  from Cons.IH [OF move_ok(1) [OF ok Cons.prems]] move_ok(2) [OF ok Cons.prems] show ?case
    by (auto intro: engine_stays_trans)
qed

section \<open>The order explains the answers\<close>

text \<open>The stamps a request has left when it is at a position.\<close>

fun stamps_at :: "db_call \<Rightarrow> 'h pc \<Rightarrow> stamp list \<Rightarrow> bool" where
  "stamps_at req Begin ss = (ss = [])"
| "stamps_at req (Held g) ss =
     (if sn_state g = tenantPending then \<exists>a. pending_answer req = Some a \<and> ss = [Early a] else ss = [])"
| "stamps_at req (Granted g) ss = (ss = [])"
| "stamps_at req (Touched g) ss = (ss = [])"
| "stamps_at req (Sized g) ss = (ss = [])"
| "stamps_at req (Owing g n a) ss = (ss = [Late a])"
| "stamps_at req (Finished a) ss =
     (ss = [Late a] \<or> ss = [Early a] \<or>
      (\<exists>e. a = answer_err req e) \<and>
        (ss = [] \<or> (\<exists>b. pending_answer req = Some b \<and> ss = [Early b])))"
| "stamps_at req Nil_Call ss = True"

definition opt_list :: "'a option \<Rightarrow> 'a list" where
  "opt_list x = (case x of None \<Rightarrow> [] | Some y \<Rightarrow> [y])"

lemma answer_err_simps [simp]:
  "answer_err (RGet k) e = AGet (Err e)" "answer_err (RPut k v) e = APut (Err e)"
  "answer_err (RDelete k) e = ADelete (Err e)" "answer_err (RRange s t) e = ARange (Err e)"
  "answer_err (RLimit c) e = ALimit"
  by (simp_all add: answer_err_def)

lemma stamps_advance:
  assumes p: "pc_ok (sh_db sh) req pc" and nd: "req \<noteq> RDestroy" and c: "\<not> sh_closed sh"
    and st: "stamps_at req pc ss" and a: "advance api ev req pc sh = (pc', sh')"
  shows "stamps_at req pc' (ss @ opt_list (lin_stamp req pc pc'))"
proof (cases pc)
  case Begin
  with a nd st show ?thesis
    by (cases req) (auto simp: lock_section_def lin_stamp_def opt_list_def take_snapshot_def
      pending_answer_def Let_def materialize_state split: option.splits prod.splits sum.splits if_splits)
next
  case (Held g)
  with a p st show ?thesis
    by (auto simp: consume_step_def lin_stamp_def opt_list_def split: prod.splits option.splits if_splits)
next
  case (Granted g)
  with a p st show ?thesis
    by (auto simp: touch_step_def holds_engine_def lin_stamp_def opt_list_def split: prod.splits)
next
  case (Touched g)
  with p obtain h where "sn_engine g = Some h" by (auto simp: holds_engine_def)
  with Touched a p st c nd show ?thesis
    by (cases req) (auto simp: with_handle_def engine_step_def lin_stamp_def opt_list_def
        split: prod.splits option.splits sum.splits if_splits)
next
  case (Sized g)
  with p obtain h where "sn_engine g = Some h" by (auto simp: holds_engine_def)
  with Sized a p st c show ?thesis
    by (auto simp: with_handle_def write_step_def lin_stamp_def opt_list_def split: prod.splits)
next
  case (Owing g n ans)
  with a st show ?thesis by (auto simp: lin_stamp_def opt_list_def)
next
  case (Finished ans)
  with a st show ?thesis by (auto simp: lin_stamp_def opt_list_def)
next
  case Nil_Call
  with p show ?thesis by simp
qed

definition stamps_of :: "nat \<Rightarrow> (nat \<times> stamp) list \<Rightarrow> stamp list" where
  "stamps_of i T = map snd (filter (\<lambda>e. fst e = i) T)"

lemma stamps_of_simps [simp]:
  "stamps_of i [] = []"
  "stamps_of i (e # T) = (if fst e = i then snd e # stamps_of i T else stamps_of i T)"
  "stamps_of i (T @ U) = stamps_of i T @ stamps_of i U"
  by (simp_all add: stamps_of_def)

lemma in_stamps_of: "(i, s) \<in> set T \<longleftrightarrow> s \<in> set (stamps_of i T)"
  by (force simp: stamps_of_def)

lemma stamps_of_move:
  "stamps_of j (move_stamp api i S) =
     (if j = i \<and> i < length (fst S)
      then opt_list (lin_stamp (task_req S i) (task_pc S i) (task_pc (move api i S) i)) else [])"
  by (simp add: move_stamp_def opt_list_def split: option.splits)

text \<open>Every request has left the stamps of its position, as it started at \<open>Begin\<close>.\<close>

lemma run_stamps:
  assumes ok: "engine_ok api srv dat inr" and S: "system_ok srv dat S" and i: "i < length (fst S)"
    and b: "task_pc S i = Begin"
  shows "stamps_at (task_req S i) (task_pc (run_schedule api sched S) i)
    (stamps_of i (lin_trace api sched S))"
proof (induction sched rule: rev_induct)
  case Nil
  with b show ?case by simp
next
  case (snoc j sched)
  let ?S = "run_schedule api sched S"
  have I: "system_ok srv dat ?S" using run_ok [OF ok S] by blast
  show ?case
  proof (cases "j = i")
    case False
    with snoc show ?thesis
      by (simp add: run_schedule_append lin_trace_append stamps_of_move move_other)
  next
    case True
    obtain ev req pc where t: "fst ?S ! i = (ev, req, pc)" by (cases "fst ?S ! i")
    obtain pc' sh' where a: "advance api ev req pc (snd ?S) = (pc', sh')" by fastforce
    have tp: "task_pc ?S i = pc" "task_req ?S i = req" using t by (simp_all add: task_pc_def task_req_def)
    then have r: "task_req S i = req" by simp
    have p: "pc_ok (sh_db (snd ?S)) req pc" "req \<noteq> RDestroy" "\<not> sh_closed (snd ?S)"
      using I i t by (auto simp: system_ok_def tenant_live_def task_pc_def)
    have m: "task_pc (move api i ?S) i = pc'"
      using move_same [OF _ t a] i by (simp add: task_pc_def)
    from stamps_advance [OF p snoc [unfolded tp r] a] tp m i True show ?thesis
      by (simp add: run_schedule_append lin_trace_append stamps_of_move r)
  qed
qed

text \<open>The stamps replay the map: an early one leaves it alone, and it was empty.\<close>

inductive stamps_replay :: "(string \<Rightarrow> string \<Rightarrow> string \<Rightarrow> bool) \<Rightarrow> (nat \<Rightarrow> db_call) \<Rightarrow>
    (nat \<times> stamp) list \<Rightarrow> (string \<rightharpoonup> string) \<Rightarrow> (string \<rightharpoonup> string) \<Rightarrow> bool" where
  stamps_Nil: "stamps_replay inr reqs [] m m"
| stamps_Cons: "stamp_ok inr (reqs i) (Some s) m m1 \<Longrightarrow> stamps_replay inr reqs T m1 m' \<Longrightarrow>
     stamps_replay inr reqs ((i, s) # T) m m'"

inductive_simps stamps_replay_simps [simp]:
  "stamps_replay inr reqs [] m m'"
  "stamps_replay inr reqs ((i, s) # T) m m'"

lemma run_replay:
  assumes ok: "engine_ok api srv dat inr"
  shows "system_ok srv dat S \<Longrightarrow>
    stamps_replay inr (task_req S) (lin_trace api sched S) (sh_view dat (snd S))
      (sh_view dat (snd (run_schedule api sched S)))"
proof (induction sched arbitrary: S)
  case Nil
  then show ?case by simp
next
  case (Cons i sched)
  have r: "task_req (move api i S) = task_req S" by (rule ext) simp
  note IH = Cons.IH [OF move_ok(1) [OF ok Cons.prems], of i, unfolded r]
  show ?case
  proof (cases "i < length (fst S)")
    case True
    let ?s = "lin_stamp (task_req S i) (task_pc S i) (task_pc (move api i S) i)"
    have M: "stamp_ok inr (task_req S i) ?s (sh_view dat (snd S)) (sh_view dat (snd (move api i S)))"
      using move_step_ok [OF ok Cons.prems True] by (simp add: step_ok_def)
    show ?thesis
    proof (cases ?s)
      case None
      with M IH True show ?thesis by (simp add: move_stamp_def stamp_ok_def)
    next
      case (Some s)
      with M IH True show ?thesis by (auto simp: move_stamp_def)
    qed
  next
    case False
    with IH show ?thesis by (simp add: move_stamp_def move_def)
  qed
qed

text \<open>Early stamps explain their answers, and may be left out.\<close>

lemma early_explains:
  "pending_answer req = Some a \<Longrightarrow> explains inr req a Map.empty Map.empty"
  by (cases req) (auto simp: pending_answer_def)

lemma stamps_replay_filter:
  "stamps_replay inr reqs T m m' \<Longrightarrow> (\<And>i a. \<not> keep (i, Late a) \<Longrightarrow> (i, Late a) \<notin> set T) \<Longrightarrow>
   replays inr reqs (map (\<lambda>(i, s). (i, stamp_answer s)) (filter keep T)) m m'"
proof (induction rule: stamps_replay.induct)
  case (stamps_Nil inr reqs m)
  then show ?case by simp
next
  case (stamps_Cons inr reqs i s m m1 T m')
  show ?case
  proof (cases s)
    case (Early a)
    with stamps_Cons show ?thesis by (auto simp: stamp_ok_def intro: early_explains)
  next
    case (Late a)
    with stamps_Cons show ?thesis by (auto simp: stamp_ok_def)
  qed
qed

section \<open>The order of a run, as a whole\<close>

lemma lin_order_iff:
  "(i, a) \<in> set (lin_order api sched S) \<longleftrightarrow>
     (\<exists>s \<in> set (stamps_of i (lin_trace api sched S)).
        \<not> gave_up (run_schedule api sched S) (i, s) \<and> a = stamp_answer s)"
  by (force simp: lin_order_def in_stamps_of [symmetric])

lemma pending_answer_not_err: "pending_answer req = Some a \<Longrightarrow> a \<noteq> answer_err req e"
  by (cases req) (auto simp: pending_answer_def)

lemma stamps_at_le1: "stamps_at req pc ss \<Longrightarrow> pc \<noteq> Nil_Call \<Longrightarrow> length ss \<le> 1"
  by (cases pc) (auto split: if_splits)

lemma lin_trace_index: "(i, s) \<in> set (lin_trace api sched S) \<Longrightarrow> i < length (fst S)"
proof (induction sched arbitrary: S)
  case Nil
  then show ?case by simp
next
  case (Cons j sched)
  from Cons.prems consider "(i, s) \<in> set (move_stamp api j S)"
    | "(i, s) \<in> set (lin_trace api sched (move api j S))" by auto
  then show ?case
  proof cases
    case 1
    then have "s \<in> set (stamps_of i (move_stamp api j S))" by (simp add: in_stamps_of)
    then show ?thesis by (simp add: stamps_of_move split: if_splits)
  next
    case 2
    from Cons.IH [OF this] show ?thesis by simp
  qed
qed

lemma distinct_stamps:
  "(\<And>i. length (stamps_of i T) \<le> 1) \<Longrightarrow> distinct (map fst T)"
proof (induction T)
  case Nil
  then show ?case by simp
next
  case (Cons e T)
  have "length (stamps_of i T) \<le> 1" for i
    using Cons.prems [of i] by (simp split: if_splits)
  moreover have "stamps_of (fst e) T = []"
    using Cons.prems [of "fst e"] by simp
  then have "fst e \<notin> fst ` set T" by (auto simp: stamps_of_def filter_empty_conv)
  ultimately show ?case using Cons.IH by simp
qed

lemma system_ok_start:
  assumes "tenant_live srv dat sh" "RDestroy \<notin> snd ` set reqs"
  shows "system_ok srv dat (start reqs sh)"
proof -
  have "fst (snd (fst (start reqs sh) ! i)) \<noteq> RDestroy" if "i < length reqs" for i
  proof
    assume "fst (snd (fst (start reqs sh) ! i)) = RDestroy"
    then have "snd (reqs ! i) = RDestroy" using that by (simp add: start_def split: prod.splits)
    then show False using assms(2) that by (metis image_eqI nth_mem)
  qed
  with assms(1) show ?thesis
    by (auto simp: system_ok_def start_def task_pc_def split: prod.splits)
qed

lemma start_simps [simp]:
  "length (fst (start reqs sh)) = length reqs"
  "snd (start reqs sh) = sh"
  "i < length reqs \<Longrightarrow> task_pc (start reqs sh) i = Begin"
  "i < length reqs \<Longrightarrow> task_req (start reqs sh) i = snd (reqs ! i)"
  by (simp_all add: start_def task_pc_def task_req_def split: prod.splits)

lemma run_not_nil:
  assumes "engine_ok api srv dat inr" "system_ok srv dat S" "i < length (fst S)"
  shows "task_pc (run_schedule api sched S) i \<noteq> Nil_Call"
  using run_ok [OF assms(1,2), of sched] assms(3)
  by (force simp: system_ok_def task_pc_def)

lemma lin_order_replays:
  assumes ok: "engine_ok api srv dat inr" and S: "system_ok srv dat S"
  shows "replays inr (task_req S) (lin_order api sched S) (sh_view dat (snd S))
    (sh_view dat (snd (run_schedule api sched S)))"
  unfolding lin_order_def
  by (rule stamps_replay_filter [OF run_replay [OF ok S]]) (simp add: gave_up_def)

lemma lin_order_distinct:
  assumes ok: "engine_ok api srv dat inr" and S: "system_ok srv dat S"
    and b: "\<And>i. i < length (fst S) \<Longrightarrow> task_pc S i = Begin"
  shows "distinct (map fst (lin_order api sched S))"
proof -
  let ?T = "lin_trace api sched S"
  have "length (stamps_of i ?T) \<le> 1" for i
  proof (cases "i < length (fst S)")
    case True
    from stamps_at_le1 [OF run_stamps [OF ok S True b [OF True]] run_not_nil [OF ok S True]]
    show ?thesis .
  next
    case False
    then have "stamps_of i ?T = []"
      using lin_trace_index [of i _ api sched S] by (force simp: stamps_of_def filter_empty_conv)
    then show ?thesis by simp
  qed
  from distinct_stamps [OF this] have "distinct (map fst ?T)" .
  then show ?thesis
    by (simp add: lin_order_def comp_def case_prod_unfold distinct_map_filter)
qed

lemma lin_order_answers:
  assumes ok: "engine_ok api srv dat inr" and S: "system_ok srv dat S" and i: "i < length (fst S)"
    and b: "task_pc S i = Begin" and f: "task_pc (run_schedule api sched S) i = Finished a"
  shows "(i, a) \<in> set (lin_order api sched S) \<or>
    i \<notin> fst ` set (lin_order api sched S) \<and> (\<exists>e. a = answer_err (task_req S i) e)"
proof -
  let ?ss = "stamps_of i (lin_trace api sched S)"
  have st: "stamps_at (task_req S i) (Finished a) ?ss"
    using run_stamps [OF ok S i b, of sched] f by simp
  have out: "i \<notin> fst ` set (lin_order api sched S)"
    if "\<forall>s \<in> set ?ss. gave_up (run_schedule api sched S) (i, s)"
    using that by (auto simp: lin_order_iff)
  from st consider "?ss = [Late a]" | "?ss = [Early a]"
    | "\<exists>e. a = answer_err (task_req S i) e" "?ss = []"
    | c where "\<exists>e. a = answer_err (task_req S i) e" "?ss = [Early c]" "pending_answer (task_req S i) = Some c"
    by auto
  then show ?thesis
  proof cases
    case 4
    then have "c \<noteq> a" using pending_answer_not_err by blast
    with 4 f out show ?thesis by (simp add: gave_up_def)
  qed (use f out in \<open>auto simp: lin_order_iff gave_up_def\<close>)
qed

text \<open>A request that has finished takes no place later, one that has not begun no place earlier.\<close>

lemma finished_stays:
  "i < length (fst S) \<Longrightarrow> task_pc S i = Finished a \<Longrightarrow>
   task_pc (move api j S) i = Finished a \<and> stamps_of i (move_stamp api j S) = []"
proof (cases "j = i")
  case True
  assume a: "i < length (fst S)" "task_pc S i = Finished a"
  then obtain ev req where "fst S ! i = (ev, req, Finished a)"
    by (cases "fst S ! i") (simp add: task_pc_def)
  with a True show ?thesis
    using move_same [of i S ev req "Finished a" api "Finished a" "snd S"]
    by (simp add: stamps_of_move task_pc_def lin_stamp_def opt_list_def)
qed (simp add: move_other stamps_of_move)

lemma finished_no_stamps:
  "i < length (fst S) \<Longrightarrow> task_pc S i = Finished a \<Longrightarrow> stamps_of i (lin_trace api js S) = []"
proof (induction js arbitrary: S)
  case Nil
  then show ?case by simp
next
  case (Cons j js)
  with finished_stays [of i S a api j] show ?case by simp
qed

lemma lin_order_split:
  "\<exists>l1 l2. lin_order api (is @ js) S = l1 @ l2 \<and>
     fst ` set l1 \<subseteq> fst ` set (lin_trace api is S) \<and>
     fst ` set l2 \<subseteq> fst ` set (lin_trace api js (run_schedule api is S))"
proof -
  let ?keep = "\<lambda>e. \<not> gave_up (run_schedule api (is @ js) S) e"
  let ?f = "\<lambda>(i, s). (i :: nat, stamp_answer s)"
  have "lin_order api (is @ js) S = map ?f (filter ?keep (lin_trace api is S)) @
      map ?f (filter ?keep (lin_trace api js (run_schedule api is S)))"
    by (simp add: lin_order_def lin_trace_append)
  moreover have "fst ` set (map ?f (filter ?keep T)) \<subseteq> fst ` set T" for T
    by force
  ultimately show ?thesis by blast
qed

lemma stamps_of_Nil: "stamps_of i T = [] \<longleftrightarrow> i \<notin> fst ` set T"
  by (force simp: stamps_of_def filter_empty_conv)

end
