(* ===== verification/Interleaving_Properties.thy ===== *)
theory Interleaving_Properties
  imports Tenant_Interleaving Tenant_Properties
begin

text \<open>
  Properties of concurrent requests on one tenant, with witnesses on the reference engine.
\<close>

section \<open>A concrete system\<close>

definition ex_shared :: "string database \<Rightarrow> (string, ref_engine) shared" where
  "ex_shared db = \<lparr>sh_world = ex_store [], sh_db = db, sh_replaced = [], sh_closed = False\<rparr>"

definition ex_requests :: "(env \<times> db_call) list" where
  "ex_requests = [(ex_env, RGet ''k''), (ex_env, RPut ''k'' ''v'')]"

lemma ex_live: "tenant_live ref_srv ref_dat (ex_shared ex_pending)" "tenant_live ref_srv ref_dat (ex_shared ex_tenant)"
  using ex_pending_wf ex_tenant_wf [of "[]"]
  by (simp_all add: tenant_live_def ex_shared_def tenant_wf_def ex_tenant_def ex_pending_def)

lemma ex_no_destroy: "RDestroy \<notin> snd ` set ex_requests"
  by (simp add: ex_requests_def)

lemma ex_grant:
  "bucket_Consume (ex_time 0) (Fin 1) (Some ex_bucket) =
     (True, Some (ex_bucket\<lparr>tb_tokens := Fin 99, tb_last := ex_time 0\<rparr>))"
  using ex_elapsed(1)
  by (simp add: bucket_Consume_def tb_Consume_def tb_refill_def Let_def f64_min_def f64_sub_def ex_bucket_def)

text \<open>Two steps of a \<open>Get\<close> on the pending tenant.\<close>

lemma ex_pending_get:
  "task_pc (run_schedule ref_api [0, 0] (start ex_requests (ex_shared ex_pending))) 0 =
     Finished (AGet (Ok ('''', False)))"
  "task_pc (run_schedule ref_api [0, 0] (start ex_requests (ex_shared ex_pending))) 1 = Begin"
  using ex_grant
  by (simp_all add: start_def ex_requests_def ex_shared_def move_def bad_request_def step_defs task_pc_def
      ex_env_def ex_pending_def ex_tenant_def ex_config_def FlatCost_def bucket_at_def)

section \<open>Properties\<close>

text \<open>
  C3. Concurrent requests behave as if served one at a time. However the steps of any number
  of requests on a tenant interleave, and whatever the clocks, the system calls and the
  failures of the engine, there is an order of the requests, computed from the run, in which a
  plain key-value map gives the same answers and ends with the same contents. Every request
  is in the order at most once. A request that has finished is in it with the answer it gave,
  or it answered with an error and has no place: it changed nothing.
\<close>

theorem requests_linearizable:
  assumes "engine_ok api srv dat inr" "tenant_live srv dat sh" "RDestroy \<notin> snd ` set reqs"
  shows "replays inr (task_req (start reqs sh)) (lin_order api sched (start reqs sh))
      (sh_view dat sh) (sh_view dat (snd (run_schedule api sched (start reqs sh)))) \<and>
    distinct (map fst (lin_order api sched (start reqs sh))) \<and>
    (\<forall>i a. i < length reqs \<longrightarrow> task_pc (run_schedule api sched (start reqs sh)) i = Finished a \<longrightarrow>
       (i, a) \<in> set (lin_order api sched (start reqs sh)) \<or>
       i \<notin> fst ` set (lin_order api sched (start reqs sh)) \<and>
       (\<exists>e. a = answer_err (snd (reqs ! i)) e))"
proof -
  note S = system_ok_start [OF assms(2,3)]
  have "distinct (map fst (lin_order api sched (start reqs sh)))"
    using lin_order_distinct [OF assms(1) S] by simp
  moreover have "(i, a) \<in> set (lin_order api sched (start reqs sh)) \<or>
       i \<notin> fst ` set (lin_order api sched (start reqs sh)) \<and> (\<exists>e. a = answer_err (snd (reqs ! i)) e)"
    if "i < length reqs" "task_pc (run_schedule api sched (start reqs sh)) i = Finished a" for i a
    using lin_order_answers [OF assms(1) S _ _ that(2)] that(1) by simp
  ultimately show ?thesis using lin_order_replays [OF assms(1) S, of sched] by simp
qed

lemma requests_linearizable_witness:
  "distinct (map fst (lin_order ref_api [0, 1, 0] (start ex_requests (ex_shared ex_pending)))) \<and>
   (0, AGet (Ok ('''', False))) \<in> set (lin_order ref_api [0, 0] (start ex_requests (ex_shared ex_pending)))"
proof
  note L = requests_linearizable [OF ref_engine_ok ex_live(1) ex_no_destroy]
  show "distinct (map fst (lin_order ref_api [0, 1, 0] (start ex_requests (ex_shared ex_pending))))"
    by (rule conjunct1 [OF conjunct2 [OF L]])
  have "0 < length ex_requests" "snd (ex_requests ! 0) = RGet ''k''" by (simp_all add: ex_requests_def)
  with conjunct2 [OF conjunct2 [OF L [of "[0, 0]"]]] ex_pending_get(1)
  show "(0, AGet (Ok ('''', False))) \<in> set (lin_order ref_api [0, 0] (start ex_requests (ex_shared ex_pending)))"
    by (metis answer_err_simps(1) answer.inject(1) result.distinct(1))
qed

text \<open>
  C9. The order respects time. When one request has finished before another begins, it comes
  before it in the order: a client that waits for its answer sees its own writes, and those of
  every client that was answered earlier.
\<close>

theorem order_respects_time:
  assumes "engine_ok api srv dat inr" "tenant_live srv dat sh" "RDestroy \<notin> snd ` set reqs"
    and "i < length reqs" "j < length reqs"
    and "task_pc (run_schedule api is (start reqs sh)) i = Finished a"
    and "task_pc (run_schedule api is (start reqs sh)) j = Begin"
    and "i \<in> fst ` set (lin_order api (is @ js) (start reqs sh))"
  shows "\<exists>l1 l2. lin_order api (is @ js) (start reqs sh) = l1 @ l2 \<and>
    i \<in> fst ` set l1 \<and> j \<notin> fst ` set l1"
proof -
  let ?S = "start reqs sh"
  note S = system_ok_start [OF assms(2,3)]
  obtain l1 l2 where l: "lin_order api (is @ js) ?S = l1 @ l2"
    "fst ` set l1 \<subseteq> fst ` set (lin_trace api is ?S)"
    "fst ` set l2 \<subseteq> fst ` set (lin_trace api js (run_schedule api is ?S))"
    using lin_order_split [of api "is" js ?S] by (elim exE conjE) (rule that; assumption)
  have "i \<notin> fst ` set l2"
    using finished_no_stamps [OF _ assms(6), of api js] assms(4) l(3) by (auto simp: stamps_of_Nil)
  then have "i \<in> fst ` set l1" using assms(8) by (simp only: l(1) set_append image_Un Un_iff) simp
  moreover have "j \<notin> fst ` set (lin_trace api is ?S)"
  proof -
    have "stamps_at (task_req ?S j) Begin (stamps_of j (lin_trace api is ?S))"
      using run_stamps [OF assms(1) S, of j "is"] assms(5,7) by simp
    then show ?thesis by (simp add: stamps_of_Nil)
  qed
  then have "j \<notin> fst ` set l1" using l(2) by blast
  ultimately show ?thesis using l(1) by blast
qed

lemma order_respects_time_witness:
  "\<exists>l1 l2. lin_order ref_api ([0, 0] @ []) (start ex_requests (ex_shared ex_pending)) = l1 @ l2 \<and>
     0 \<in> fst ` set l1 \<and> 1 \<notin> fst ` set l1"
proof (rule order_respects_time [OF ref_engine_ok ex_live(1) ex_no_destroy _ _ ex_pending_get])
  show "0 \<in> fst ` set (lin_order ref_api ([0, 0] @ []) (start ex_requests (ex_shared ex_pending)))"
  proof -
    note S = system_ok_start [OF ex_live(1) ex_no_destroy]
    have l: "0 < length ex_requests" "snd (ex_requests ! 0) = RGet ''k''" by (simp_all add: ex_requests_def)
    then have "(0, AGet (Ok ('''', False))) \<in> set (lin_order ref_api [0, 0] (start ex_requests (ex_shared ex_pending)))"
      using lin_order_answers [OF ref_engine_ok S _ _ ex_pending_get(1)]
      by (metis answer_err_simps(1) answer.inject(1) result.distinct(1) start_simps(1,3,4))
    then show ?thesis by (metis append_Nil2 fst_conv image_eqI)
  qed
qed (simp_all add: ex_requests_def)

text \<open>
  C10. The engine of a tenant is opened once. While no one destroys the tenant, at every moment
  of every run: a handle the tenant has got stays its handle, so that two first \<open>Put\<close>s never
  open the directory twice; every request past the rate limit holds exactly that handle, which
  is open on the tenant's directory; and no request calls the engine with a nil handle.
\<close>

theorem engine_opened_once:
  assumes "engine_ok api srv dat inr" "tenant_live srv dat sh" "RDestroy \<notin> snd ` set reqs"
    and "i < length reqs"
  shows "task_pc (run_schedule api (is @ js) (start reqs sh)) i \<noteq> Nil_Call \<and>
    (db_state (sh_db (snd (run_schedule api is (start reqs sh)))) = tenantActive \<longrightarrow>
       db_engine (sh_db (snd (run_schedule api (is @ js) (start reqs sh)))) =
       db_engine (sh_db (snd (run_schedule api is (start reqs sh))))) \<and>
    (\<forall>g. task_pc (run_schedule api is (start reqs sh)) i \<in> {Granted g, Touched g, Sized g} \<longrightarrow>
       (\<exists>h. sn_engine g = Some h \<and>
          db_engine (sh_db (snd (run_schedule api is (start reqs sh)))) = Some h \<and>
          srv (engw (sh_world (snd (run_schedule api is (start reqs sh))))) h =
            Some (db_dataDirPath (sh_db sh))))"
proof -
  let ?S = "start reqs sh"
  let ?T = "run_schedule api is ?S"
  note S = system_ok_start [OF assms(2,3)]
  note R = run_ok [OF assms(1) S, of "is"]
  have "engine_stays (sh_db (snd ?T)) (sh_db (snd (run_schedule api (is @ js) ?S)))"
    using run_ok [OF assms(1) conjunct1 [OF R], of js] by (simp add: run_schedule_append)
  moreover have "task_pc (run_schedule api (is @ js) ?S) i \<noteq> Nil_Call"
    using run_not_nil [OF assms(1) S] assms(4) by simp
  moreover have "\<exists>h. sn_engine g = Some h \<and> db_engine (sh_db (snd ?T)) = Some h \<and>
      srv (engw (sh_world (snd ?T))) h = Some (db_dataDirPath (sh_db sh))"
    if "task_pc ?T i \<in> {Granted g, Touched g, Sized g}" for g
  proof -
    have "pc_ok (sh_db (snd ?T)) (task_req ?T i) (task_pc ?T i)"
      using R assms(4) by (auto simp: system_ok_def task_req_def)
    with that have "holds_engine (sh_db (snd ?T)) g" by auto
    with R show ?thesis
      by (auto simp: holds_engine_def system_ok_def tenant_live_def db_linked_def engine_stays_def)
  qed
  ultimately show ?thesis by (simp add: engine_stays_def)
qed

lemma engine_opened_once_witness:
  "task_pc (run_schedule ref_api ([0, 1] @ [1, 0]) (start ex_requests (ex_shared ex_pending))) 1 \<noteq> Nil_Call"
  using engine_opened_once [OF ref_engine_ok ex_live(1) ex_no_destroy, of 1 "[0, 1]" "[1, 0]"]
  by (simp add: ex_requests_def)

text \<open>
  \<open>Destroy\<close> does not wait for the requests in flight. A \<open>Get\<close> that has read the engine
  pointer under the lock and passed the rate limit when the tenant is destroyed calls the
  engine library with the nil handle the closed engine object holds: the check for a nil
  pointer is made on the request's own copy.
\<close>

lemma destroy_races_request:
  assumes "db_state (sh_db sh) = tenantActive" "db_engine (sh_db sh) = Some h" "key \<noteq> ''''"
    and "bucket_Consume (clk ev 0) (FlatCost (db_rateLimit (sh_db sh))) (db_bucket (sh_db sh)) = (True, b)"
  shows "task_pc (run_schedule api [0, 0, 0, 1, 0] (start [(ev, RGet key), (ev', RDestroy)] sh)) 0 = Nil_Call"
  using assms
  by (simp add: start_def move_def bad_request_def step_defs task_pc_def set_bucket_def frame_simps
      split: prod.splits)

lemma destroy_races_request_witness:
  "task_pc (run_schedule ref_api [0, 0, 0, 1, 0]
     (start [(ex_env, RGet ''k''), (ex_env, RDestroy)] (ex_shared ex_tenant))) 0 = Nil_Call"
  by (rule destroy_races_request [where h = ex_dir])
    (simp_all add: ex_shared_def ex_tenant_def ex_env_def ex_config_def FlatCost_def ex_grant)

end
