(* ===== verification/Spec2Isabelle.thy ===== *)
theory Spec2Isabelle
  imports Manager_Properties Status_Properties Public_Properties Site_Properties
    Interleaving_Properties
begin

text \<open>
  The fredb server: a multi-tenant key-value store in Go. \<open>server/\<close> keeps one instance of a
  storage engine per tenant behind an HTTP interface, with an administration interface and a
  status sampler; \<open>website/\<close> has the pages around it.

  Parts. \<open>server/rate-limiter.go\<close> meters each tenant with a token bucket.
  \<open>server/engine_cgo.go\<close> wraps the engine's C interface and decodes its range buffers.
  \<open>server/database.go\<close> is one tenant: pending until its first \<open>Put\<close>, then a directory with an
  engine; its four requests go through the bucket and the limits to the engine.
  \<open>server/database-manager.go\<close> is the table of tenants, made durable by the registry file
  \<open>keys.txt\<close>; it provisions, deprovisions, reloads, reaps and accounts for the disk.
  \<open>server/public.go\<close> and \<open>server/admin.go\<close> are the two HTTP interfaces, \<open>server/status.go\<close>
  watches the requests and publishes a view that \<open>website/\<close> shows, and \<open>server/main.go\<close> reads the
  settings and puts the two servers together.

  The library. \<open>Fredb_Prelude\<close>: named collections and generic lemmas. \<open>Go_Float64\<close>: binary64
  arithmetic with its rounding, on exact rationals, for the balances and costs (no fused
  multiply-add, as on amd64). \<open>Go_Std\<close>, \<open>Go_Path\<close>, \<open>Go_Os\<close>, \<open>Go_Fmt\<close>, \<open>Go_Http\<close>: the parts of
  \<open>time\<close>, \<open>strings\<close>, \<open>path/filepath\<close>, \<open>encoding/hex\<close>, \<open>os\<close>, \<open>fmt\<close>, \<open>strconv\<close>, \<open>net/http\<close> and
  \<open>encoding/json\<close> the program uses; the file system is a finite map of nodes, and every system
  call may fail as the environment says, a write after any number of bytes. A parsed request is a
  record; an answer is the list of calls on the \<open>ResponseWriter\<close>.

  The code, one definition per function, under the names of the source: \<open>Rate_Limiter\<close>,
  \<open>Engine_Cgo\<close>, \<open>Database\<close>, \<open>Database_Manager\<close> and \<open>Manager_Background\<close>, \<open>Status_Window\<close>,
  \<open>Status\<close> and \<open>Status_View\<close>, \<open>Public_Api\<close>, \<open>Admin_Api\<close>, \<open>Config\<close> (\<open>main.go\<close>), \<open>Endpoints\<close>,
  \<open>Website\<close>, and for the generated \<open>*_templ.go\<close>: \<open>Templates\<close> (what the generated statements
  do), \<open>Site_Style\<close> and \<open>Site_Pages\<close> (the components). A Go method on a pointer returns the
  changed record; an \<open>error\<close> is its text; a panic is a value of its own.

  Parameters, for code outside the repository. The storage engine is a C library: its functions
  are the record \<open>fredb_api\<close>, and what the server relies on is the hypothesis \<open>engine_ok\<close> of
  \<open>Engine_Spec\<close>, which \<open>Engine_Reference\<close> shows satisfiable. The runtime of templ is the record
  \<open>templ_runtime\<close> with \<open>templ_ok\<close>, the router gin an argument with \<open>gin_ok\<close>; both have concrete
  instances in \<open>Page_Properties\<close> and \<open>Site_Properties\<close>. The JSON reader of an override, the
  static file server and the parsed command line are plain arguments.

  Lemmas. \<open>Database_Laws\<close> has the shape and the invariant of the requests on one tenant,
  \<open>Database_Spec\<close> their meaning as operations on a key-value map, \<open>Tenant_Requests\<close> the
  contract the manager relies on (locale \<open>tenant_request\<close>, interpreted for the four requests).
  \<open>Manager_Laws\<close> states the invariant of the table and \<open>Manager_Ops\<close> shows that every
  operation keeps it; \<open>Registry\<close> treats the registry file as a list of keys, \<open>Manager_Startup\<close>
  start-up and the reaper. \<open>Server_System\<close> is the server as a labelled step relation, its
  specification as a map of maps, and the simulation between the two. \<open>Public_Laws\<close> states what
  HTTP promises over that specification (\<open>http_step\<close>: one rule for each route, method and status)
  and carries the simulation to requests and their answers, \<open>Json_Laws\<close> reads JSON literals back.
  \<open>Rate_Limiter\<close> accounts for a run of the bucket with its balance as potential (locale
  \<open>spend_limiter\<close>). \<open>Status_Laws\<close> describes the rings and the feed by the whole history (locale \<open>bounded_history\<close>).
  \<open>Website\<close> has the interface of the provisioning page (locale \<open>provisioner\<close>, interpreted on the
  manager). \<open>Html_Laws\<close> is a reader of markup, \<open>Page_Laws\<close> and \<open>Site_Laws\<close> run it over the
  components. The theories \<open>*_Properties\<close>, \<open>Rate_Limiter\<close> and \<open>Engine_Cgo\<close> state the properties,
  each with a witness on concrete data.

  Concurrency. In the theories above every operation is atomic, as the mutexes of the source
  make it for the bucket, the table and the sampler. The requests on one tenant are not atomic
  in the source: \<open>Tenant_Steps\<close> cuts them where another goroutine can get in (the section under
  \<open>db.mu\<close>, the bucket, the activity stamp, each engine call) and runs any number of them, rate
  limit changes and \<open>Destroy\<close> under an explicit schedule. \<open>Tenant_Alone\<close> shows that the steps
  in a row are the operation of \<open>Database\<close>; \<open>Tenant_Interleaving\<close> computes from a run the
  order in which a key-value map serves its requests, and shows that the map gives the same
  answers. An engine call is one step: that the engine library serialises its calls is assumed. A run with \<open>Destroy\<close> is not linearizable,
  \<open>destroy_races_request\<close> in \<open>Interleaving_Properties\<close> is its counterexample. The interleaving
  of the manager's own operations, of the reaper's marker file with a \<open>Put\<close>, and of several
  tenants is not modelled.

  Bounds. The retry loop of the key generation has its five attempts; the exponents of numbers
  stop growing at 10000 as in \<open>strconv\<close>; no other loop needs fuel. The six steps of
  \<open>alone\<close> are the longest path of a request. Two sums of Go's \<open>int\<close> are left unbounded because no
  input brings them near \<open>2^63\<close>: the bytes of a decoded range (\<open>kvs_total\<close>, whose buffer has a
  length in a C \<open>int\<close>) and lengths of lists.

  Not modelled: the tests and the example clients, log texts other than the request line, memory
  exhaustion, symbolic links, the wire format of HTTP and its headers beyond those the code
  reads or sets, listening on the two addresses. A redirect of \<open>ServeMux\<close> is kept as its target
  path only (\<open>Redirected\<close>): its query, its CORS headers and its body are not modelled, and no
  property speaks of them.
\<close>

end
